(* ===== verification/Prelude.thy ===== *)
theory Prelude
  imports Main "HOL-Library.AList"
begin

text \<open>
  The vocabulary every component of the model shares: error values, the
  state-passing reading of a Go function that returns an error, Go maps as
  association lists, and the lemma collections the proofs rest on.

  A Go function \<open>f(args) (a, error)\<close> with effects becomes a function
  \<open>args \<Rightarrow> 'w \<Rightarrow> (goerr + 'a) \<times> 'w\<close>: it takes the state of the world and
  returns the result (\<open>Inl\<close> the error, \<open>Inr\<close> the value) with the state it
  leaves behind. The state is kept when an error is returned, as in Go, where
  nothing is rolled back.
\<close>

named_theorems io_simps \<open>equations that run state-passing code\<close>
named_theorems go_simps \<open>equations of the Go library functions\<close>
named_theorems task_simps \<open>the task names and their orders\<close>

section \<open>Errors\<close>

text \<open>
  The controllers tell two API errors apart, with \<open>errors.IsNotFound\<close> and
  \<open>errors.IsAlreadyExists\<close>; every other error is its message. An error built by
  \<open>fmt.Errorf\<close> with \<open>%s\<close> or \<open>%v\<close> keeps only the text, so it is an \<open>ErrMsg\<close>.
  A run-time panic (a nil pointer, a slice out of range) is \<open>ErrPanic\<close>: it is not an
  error value the code can test, so no handler below catches it.
\<close>

datatype goerr = ErrNotFound string | ErrAlreadyExists string | ErrMsg string | ErrPanic string

fun err_text :: "goerr \<Rightarrow> string" where
  "err_text (ErrNotFound s) = s"
| "err_text (ErrAlreadyExists s) = s"
| "err_text (ErrMsg s) = s"
| "err_text (ErrPanic s) = s"

fun is_panic :: "goerr \<Rightarrow> bool" where
  "is_panic (ErrPanic _) = True"
| "is_panic _ = False"

fun IsNotFound :: "goerr \<Rightarrow> bool" where
  "IsNotFound (ErrNotFound _) = True"
| "IsNotFound _ = False"

fun IsAlreadyExists :: "goerr \<Rightarrow> bool" where
  "IsAlreadyExists (ErrAlreadyExists _) = True"
| "IsAlreadyExists _ = False"

section \<open>State-passing code\<close>

type_synonym ('w, 'a) io = "'w \<Rightarrow> (goerr + 'a) \<times> 'w"

definition io_return :: "'a \<Rightarrow> ('w, 'a) io" where
  "io_return x = (\<lambda>w. (Inr x, w))"

definition io_throw :: "goerr \<Rightarrow> ('w, 'a) io" where
  "io_throw e = (\<lambda>w. (Inl e, w))"

text \<open>\<open>x, err := m; if err != nil { return err }; f(x)\<close>\<close>

definition io_bind :: "('w, 'a) io \<Rightarrow> ('a \<Rightarrow> ('w, 'b) io) \<Rightarrow> ('w, 'b) io" where
  "io_bind m f = (\<lambda>w. case m w of (Inl e, w') \<Rightarrow> (Inl e, w') | (Inr x, w') \<Rightarrow> f x w')"

text \<open>\<open>x, err := m\<close> where the code looks at the error itself; a panic passes through.\<close>

definition io_try :: "('w, 'a) io \<Rightarrow> (goerr \<Rightarrow> ('w, 'b) io) \<Rightarrow> ('a \<Rightarrow> ('w, 'b) io) \<Rightarrow> ('w, 'b) io" where
  "io_try m h f = (\<lambda>w. case m w of
     (Inl e, w') \<Rightarrow> (if is_panic e then (Inl e, w') else h e w')
   | (Inr x, w') \<Rightarrow> f x w')"

text \<open>A run of statements, each of the shape \<open>if err := s; err != nil { return err }\<close>.\<close>

fun io_seq :: "('w, unit) io list \<Rightarrow> ('w, unit) io" where
  "io_seq [] = (\<lambda>w. (Inr (), w))"
| "io_seq (m # ms) = (\<lambda>w. case m w of (Inl e, w') \<Rightarrow> (Inl e, w') | (Inr _, w') \<Rightarrow> io_seq ms w')"

text \<open>A change of the state that cannot fail.\<close>

definition io_modify :: "('w \<Rightarrow> 'w) \<Rightarrow> ('w, unit) io" where
  "io_modify g = (\<lambda>w. (Inr (), g w))"

lemma io_return_run [io_simps, simp]: "io_return x w = (Inr x, w)"
  by (simp add: io_return_def)

lemma io_throw_run [io_simps, simp]: "io_throw e w = (Inl e, w)"
  by (simp add: io_throw_def)

lemma io_modify_run [io_simps, simp]: "io_modify g w = (Inr (), g w)"
  by (simp add: io_modify_def)

lemma io_bind_Inr [io_simps]: "m w = (Inr x, w') \<Longrightarrow> io_bind m f w = f x w'"
  by (simp add: io_bind_def)

lemma io_bind_Inl [io_simps]: "m w = (Inl e, w') \<Longrightarrow> io_bind m f w = (Inl e, w')"
  by (simp add: io_bind_def)

lemma io_try_Inr [io_simps]: "m w = (Inr x, w') \<Longrightarrow> io_try m h f w = f x w'"
  by (simp add: io_try_def)

lemma io_try_Inl [io_simps]: "m w = (Inl e, w') \<Longrightarrow> \<not> is_panic e \<Longrightarrow> io_try m h f w = h e w'"
  by (simp add: io_try_def)

lemma io_bind_InrE:
  assumes "io_bind m f w = (Inr y, w'')"
  obtains x w' where "m w = (Inr x, w')" and "f x w' = (Inr y, w'')"
  using assms by (auto simp: io_bind_def split: prod.splits sum.splits)

lemma io_seq_append:
  "io_seq (ms @ ns) w =
     (case io_seq ms w of (Inl e, w') \<Rightarrow> (Inl e, w') | (Inr _, w') \<Rightarrow> io_seq ns w')"
  by (induction ms arbitrary: w) (auto split: prod.splits sum.splits)

text \<open>
  A sequence that succeeds has run every statement with success, in order: the
  statement at any position started from the state its predecessors left.
\<close>

lemma io_seq_Inr_nth:
  assumes "io_seq ms w = (Inr (), w')" and "i < length ms"
  shows "\<exists>v v'. io_seq (take i ms) w = (Inr (), v) \<and> (ms ! i) v = (Inr (), v')"
  using assms
proof (induction ms arbitrary: w i)
  case Nil
  then show ?case by simp
next
  case (Cons m ms)
  from Cons.prems(1) obtain v where v: "m w = (Inr (), v)" "io_seq ms v = (Inr (), w')"
    by (auto split: prod.splits sum.splits)
  show ?case
  proof (cases i)
    case 0
    with v show ?thesis by simp
  next
    case (Suc j)
    with Cons.IH [OF v(2), of j] Cons.prems(2) v(1) show ?thesis by auto
  qed
qed

text \<open>The statements of a sequence after a failing one have no effect.\<close>

lemma io_seq_stops:
  assumes "io_seq ms w = (Inl e, w')"
  shows "io_seq (ms @ ns) w = (Inl e, w')"
  using assms by (simp add: io_seq_append)

text \<open>What every statement keeps, a sequence keeps.\<close>

lemma io_seq_invariant:
  assumes "\<And>m v. m \<in> set ms \<Longrightarrow> P v \<Longrightarrow> P (snd (m v))" and "P w"
  shows "P (snd (io_seq ms w))"
  using assms
proof (induction ms arbitrary: w)
  case Nil
  then show ?case by simp
next
  case (Cons m ms)
  have "P (snd (m w))" using Cons.prems by simp
  moreover have "P v \<Longrightarrow> P (snd (io_seq ms v))" for v
    using Cons.IH Cons.prems(1) by simp
  ultimately show ?case by (auto split: prod.splits sum.splits)
qed

text \<open>A loop whose body may fail: the first failure ends it.\<close>

definition io_for :: "'a list \<Rightarrow> ('a \<Rightarrow> ('w, unit) io) \<Rightarrow> ('w, unit) io" where
  "io_for xs body = io_seq (map body xs)"

section \<open>Go maps\<close>

text \<open>
  A Go map is an association list with distinct keys. A \<open>range\<close> loop over a map
  visits the entries in an order Go leaves open: the list's order stands for it,
  and a theorem over every list is a theorem over every order. A nil map and an
  empty one read the same.
\<close>

type_synonym ('k, 'v) gomap = "('k \<times> 'v) list"

definition gm_wf :: "('k, 'v) gomap \<Rightarrow> bool" where
  "gm_wf m \<longleftrightarrow> distinct (map fst m)"

lemma gm_wf_Nil [simp]: "gm_wf []"
  by (simp add: gm_wf_def)

lemma gm_wf_update [simp, intro]: "gm_wf m \<Longrightarrow> gm_wf (AList.update k v m)"
  by (simp add: gm_wf_def distinct_update)

lemma gm_wf_delete [simp, intro]: "gm_wf m \<Longrightarrow> gm_wf (AList.delete k m)"
  by (simp add: gm_wf_def distinct_delete)

lemma gm_wf_merge [simp, intro]: "gm_wf m \<Longrightarrow> gm_wf (AList.merge m n)"
  by (simp add: gm_wf_def distinct_merge)

lemma map_of_update_at [simp]:
  "map_of (AList.update k v m) k' = (if k' = k then Some v else map_of m k')"
  by (simp add: update_conv')

lemma map_of_delete_at [simp]:
  "map_of (AList.delete k m) k' = (if k' = k then None else map_of m k')"
  by (simp add: delete_conv')

lemma map_of_merge_at:
  "map_of (AList.merge m n) k = (case map_of n k of Some v \<Rightarrow> Some v | None \<Rightarrow> map_of m k)"
  by (simp add: merge_conv' map_add_def)

lemma map_fst_update_mem:
  "k' \<in> set (map fst (AList.update k v m)) \<longleftrightarrow> k' = k \<or> k' \<in> set (map fst m)"
  by (induction m) auto

section \<open>Lists\<close>

lemma dropWhile_take_rev_prefix: "\<exists>n \<le> length s. rev (dropWhile P (rev s)) = take n s"
proof -
  have "\<exists>n \<le> length s. dropWhile P (rev s) = drop n (rev s)"
    by (rule exI [of _ "length (takeWhile P (rev s))"])
       (metis length_rev length_takeWhile_le dropWhile_eq_drop)
  then obtain n where "n \<le> length s" "dropWhile P (rev s) = drop n (rev s)" by blast
  then have "rev (dropWhile P (rev s)) = take (length s - n) s"
    by (simp add: rev_drop)
  then show ?thesis by (metis diff_le_self)
qed

end
