(* ===== verification/KubeTypes.thy ===== *)
theory KubeTypes
  imports GoStd
begin

text \<open>
  The Kubernetes objects the controllers read and write, with the fields the
  source names. They are declared in \<open>k8s.io/api\<close>, outside the repository: the
  records hold what the composite literals and selectors of the source show. A
  value the code only carries along (an affinity, a toleration, a resource
  quantity, the parts of a user's volume the code never looks into) is an \<open>opaque\<close>.
\<close>

datatype opaque = Opaque string

section \<open>Pods and their parts\<close>

datatype EnvVar =
    EnvValue string string       \<comment> \<open>\<open>Name\<close>, \<open>Value\<close>\<close>
  | EnvFieldRef string string    \<comment> \<open>\<open>Name\<close>, \<open>ValueFrom.FieldRef.FieldPath\<close>\<close>
  | EnvOther string opaque       \<comment> \<open>any other \<open>ValueFrom\<close> of the user\<close>

fun env_name :: "EnvVar \<Rightarrow> string" where
  "env_name (EnvValue n _) = n"
| "env_name (EnvFieldRef n _) = n"
| "env_name (EnvOther n _) = n"

datatype EnvFromSource =
    ConfigMapRef string
  | SecretRef string
  | OtherEnvFrom opaque

record KeyToPath =
  kp_key :: string
  kp_path :: string
  kp_mode :: int

datatype VolumeSource =
    PVCSource string bool                                  \<comment> \<open>\<open>ClaimName\<close>, \<open>ReadOnly\<close>\<close>
  | ConfigMapSource string
  | SecretSource string "int option" bool "KeyToPath list" \<comment> \<open>\<open>SecretName\<close>, \<open>DefaultMode\<close>, \<open>Optional\<close>, \<open>Items\<close>\<close>
  | OtherSource opaque

record Volume =
  vol_name :: string
  vol_source :: VolumeSource

record VolumeMount =
  vm_name :: string
  vm_mountPath :: string
  vm_rest :: opaque

record Container =
  ct_name :: string
  ct_image :: string
  ct_imagePullPolicy :: string
  ct_runAsUser :: int
  ct_runAsGroup :: int
  ct_runAsNonRoot :: bool
  ct_envFrom :: "EnvFromSource list"
  ct_env :: "EnvVar list"
  ct_volumeMounts :: "VolumeMount list"

record PodSpec =
  ps_affinity :: "opaque option"
  ps_nodeSelector :: "(string, string) gomap"
  ps_tolerations :: "opaque list"
  ps_fsGroup :: int
  ps_serviceAccountName :: string
  ps_restartPolicy :: string
  ps_containers :: "Container list"
  ps_volumes :: "Volume list"

record Pod =
  pod_name :: string
  pod_generateName :: string
  pod_namespace :: string
  pod_labels :: "(string, string) gomap"
  pod_annotations :: "(string, string) gomap"
  pod_uid :: string
  pod_creationTimestamp :: "int option"    \<comment> \<open>\<open>None\<close> when \<open>IsZero()\<close>\<close>
  pod_phase :: string
  pod_spec :: PodSpec

section \<open>The other objects\<close>

record PolicyRule =
  pr_verbs :: "string list"
  pr_apiGroups :: "string list"
  pr_resources :: "string list"
  pr_resourceNames :: "string list"

record Job =
  job_name :: string
  job_generateName :: string
  job_namespace :: string
  job_labels :: "(string, string) gomap"
  job_annotations :: "(string, string) gomap"
  job_backoffLimit :: int
  job_template :: PodSpec

record ConfigMap =
  cm_name :: string
  cm_namespace :: string
  cm_labels :: "(string, string) gomap"
  cm_data :: "(string, string) gomap"

record Secret =
  sec_name :: string
  sec_namespace :: string
  sec_labels :: "(string, string) gomap"
  sec_finalizers :: "string list"
  sec_data :: "(string, string) gomap"

record ServiceAccount =
  sa_name :: string
  sa_namespace :: string
  sa_labels :: "(string, string) gomap"
  sa_annotations :: "(string, string) gomap"

record Role =
  role_name :: string
  role_namespace :: string
  role_labels :: "(string, string) gomap"
  role_rules :: "PolicyRule list"

record RoleBinding =
  rb_name :: string
  rb_namespace :: string
  rb_labels :: "(string, string) gomap"
  rb_subject :: "string \<times> string \<times> string"     \<comment> \<open>\<open>Kind\<close>, \<open>Name\<close>, \<open>Namespace\<close>\<close>
  rb_roleRef :: "string \<times> string \<times> string"     \<comment> \<open>\<open>Kind\<close>, \<open>Name\<close>, \<open>APIGroup\<close>\<close>

record PVC =
  pvc_name :: string
  pvc_namespace :: string
  pvc_labels :: "(string, string) gomap"
  pvc_accessModes :: "string list"
  pvc_storageClassName :: "string option"
  pvc_size :: string

datatype kind = PodKind | JobKind | ConfigMapKind | SecretKind | ServiceAccountKind
  | RoleKind | RoleBindingKind | PVCKind

datatype kobj = KPod Pod | KJob Job | KConfigMap ConfigMap | KSecret Secret
  | KServiceAccount ServiceAccount | KRole Role | KRoleBinding RoleBinding | KPVC PVC

fun kind_of :: "kobj \<Rightarrow> kind" where
  "kind_of (KPod _) = PodKind"
| "kind_of (KJob _) = JobKind"
| "kind_of (KConfigMap _) = ConfigMapKind"
| "kind_of (KSecret _) = SecretKind"
| "kind_of (KServiceAccount _) = ServiceAccountKind"
| "kind_of (KRole _) = RoleKind"
| "kind_of (KRoleBinding _) = RoleBindingKind"
| "kind_of (KPVC _) = PVCKind"

text \<open>The kind names the controllers put into their events.\<close>

fun kind_name :: "kind \<Rightarrow> string" where
  "kind_name PodKind = ''Pod''"
| "kind_name JobKind = ''Job''"
| "kind_name ConfigMapKind = ''ConfigMap''"
| "kind_name SecretKind = ''Secret''"
| "kind_name ServiceAccountKind = ''ServiceAccount''"
| "kind_name RoleKind = ''Role''"
| "kind_name RoleBindingKind = ''RoleBinding''"
| "kind_name PVCKind = ''PersistentVolumeClaim''"

text \<open>\<open>types.NamespacedName\<close> as \<open>(Namespace, Name)\<close>.\<close>

type_synonym nsname = "string \<times> string"

definition nsname_text :: "nsname \<Rightarrow> string" where
  "nsname_text k = fst k @ ''/'' @ snd k"

fun obj_key :: "kobj \<Rightarrow> nsname" where
  "obj_key (KPod p) = (pod_namespace p, pod_name p)"
| "obj_key (KJob j) = (job_namespace j, job_name j)"
| "obj_key (KConfigMap c) = (cm_namespace c, cm_name c)"
| "obj_key (KSecret s) = (sec_namespace s, sec_name s)"
| "obj_key (KServiceAccount s) = (sa_namespace s, sa_name s)"
| "obj_key (KRole r) = (role_namespace r, role_name r)"
| "obj_key (KRoleBinding r) = (rb_namespace r, rb_name r)"
| "obj_key (KPVC p) = (pvc_namespace p, pvc_name p)"

fun obj_labels :: "kobj \<Rightarrow> (string, string) gomap" where
  "obj_labels (KPod p) = pod_labels p"
| "obj_labels (KJob j) = job_labels j"
| "obj_labels (KConfigMap c) = cm_labels c"
| "obj_labels (KSecret s) = sec_labels s"
| "obj_labels (KServiceAccount s) = sa_labels s"
| "obj_labels (KRole r) = role_labels r"
| "obj_labels (KRoleBinding r) = rb_labels r"
| "obj_labels (KPVC p) = pvc_labels p"

end
