(* ===== verification/ApiTypes.thy ===== *)
theory ApiTypes
  imports KubeTypes
begin

text \<open>
  \<open>pkg/apis/infrakube/v1\<close>: the \<open>Terraform\<close> and \<open>Tofu\<close> resources, their specs and
  statuses, the task names with their ranks, and the comparison of stages. A
  \<open>TaskName\<close>, a phase and a stage state are Go strings, not enums: plugins bring
  task names of their own, and the controllers store a pod's phase as a stage state,
  so the model keeps them strings. A pointer field is an \<open>option\<close>.
\<close>

section \<open>Task names\<close>

type_synonym TaskName = string

definition RunNil :: TaskName where [simp, task_simps]: "RunNil = ''''"
definition RunSetup :: TaskName where [simp, task_simps]: "RunSetup = ''setup''"
definition RunPreInit :: TaskName where [simp, task_simps]: "RunPreInit = ''preinit''"
definition RunInit :: TaskName where [simp, task_simps]: "RunInit = ''init''"
definition RunPostInit :: TaskName where [simp, task_simps]: "RunPostInit = ''postinit''"
definition RunPrePlan :: TaskName where [simp, task_simps]: "RunPrePlan = ''preplan''"
definition RunPlan :: TaskName where [simp, task_simps]: "RunPlan = ''plan''"
definition RunPostPlan :: TaskName where [simp, task_simps]: "RunPostPlan = ''postplan''"
definition RunPreApply :: TaskName where [simp, task_simps]: "RunPreApply = ''preapply''"
definition RunApply :: TaskName where [simp, task_simps]: "RunApply = ''apply''"
definition RunPostApply :: TaskName where [simp, task_simps]: "RunPostApply = ''postapply''"
definition RunSetupDelete :: TaskName where [simp, task_simps]: "RunSetupDelete = ''setup-delete''"
definition RunPreInitDelete :: TaskName where [simp, task_simps]: "RunPreInitDelete = ''preinit-delete''"
definition RunInitDelete :: TaskName where [simp, task_simps]: "RunInitDelete = ''init-delete''"
definition RunPostInitDelete :: TaskName where [simp, task_simps]: "RunPostInitDelete = ''postinit-delete''"
definition RunPrePlanDelete :: TaskName where [simp, task_simps]: "RunPrePlanDelete = ''preplan-delete''"
definition RunPlanDelete :: TaskName where [simp, task_simps]: "RunPlanDelete = ''plan-delete''"
definition RunPostPlanDelete :: TaskName where [simp, task_simps]: "RunPostPlanDelete = ''postplan-delete''"
definition RunPreApplyDelete :: TaskName where [simp, task_simps]: "RunPreApplyDelete = ''preapply-delete''"
definition RunApplyDelete :: TaskName where [simp, task_simps]: "RunApplyDelete = ''apply-delete''"
definition RunPostApplyDelete :: TaskName where [simp, task_simps]: "RunPostApplyDelete = ''postapply-delete''"

text \<open>\<open>func (t TaskName) ID() int\<close>, in the order of the source's \<open>switch\<close>.\<close>

definition TaskID :: "TaskName \<Rightarrow> int" where
  "TaskID t =
    (if t = RunNil then -1
     else if t = RunSetup then 1
     else if t = RunPreInit then 2
     else if t = RunInit then 3
     else if t = RunPostInit then 4
     else if t = RunPrePlan then 5
     else if t = RunPlan then 6
     else if t = RunPostPlan then 7
     else if t = RunPreApply then 8
     else if t = RunApply then 9
     else if t = RunPostApply then 10
     else if t = RunSetupDelete then 101
     else if t = RunPreInitDelete then 102
     else if t = RunInitDelete then 103
     else if t = RunPostInitDelete then 104
     else if t = RunPrePlanDelete then 105
     else if t = RunPlanDelete then 106
     else if t = RunPostPlanDelete then 107
     else if t = RunPreApplyDelete then 108
     else if t = RunApplyDelete then 109
     else if t = RunPostApplyDelete then 110
     else -2)"

fun ListContainsTask :: "TaskName list \<Rightarrow> TaskName \<Rightarrow> bool" where
  "ListContainsTask [] item = False"
| "ListContainsTask (i # list) item = (if i = item then True else ListContainsTask list item)"

lemma ListContainsTask_iff [simp]: "ListContainsTask ts t \<longleftrightarrow> t \<in> set ts"
  by (induction ts) auto

definition TaskListsAreEqual :: "TaskName list \<Rightarrow> TaskName list \<Rightarrow> bool" where
  "TaskListsAreEqual l1 l2 =
     (if length l1 \<noteq> length l2 then False else (\<forall>i < length l1. l1 ! i = l2 ! i))"

lemma TaskListsAreEqual_iff [simp]: "TaskListsAreEqual l1 l2 \<longleftrightarrow> l1 = l2"
  by (auto simp: TaskListsAreEqual_def list_eq_iff_nth_eq)

section \<open>Phases, states\<close>

type_synonym StatusPhase = string

definition PhaseInitializing :: StatusPhase where [simp]: "PhaseInitializing = ''initializing''"
definition PhaseCompleted :: StatusPhase where [simp]: "PhaseCompleted = ''completed''"
definition PhaseRunning :: StatusPhase where [simp]: "PhaseRunning = ''running''"
definition PhaseInitDelete :: StatusPhase where [simp]: "PhaseInitDelete = ''initializing-delete''"
definition PhaseDeleting :: StatusPhase where [simp]: "PhaseDeleting = ''deleting''"
definition PhaseDeleted :: StatusPhase where [simp]: "PhaseDeleted = ''deleted''"

type_synonym StageState = string

definition StateInitializing :: StageState where [simp]: "StateInitializing = ''initializing''"
definition StateComplete :: StageState where [simp]: "StateComplete = ''complete''"
definition StateFailed :: StageState where [simp]: "StateFailed = ''failed''"
definition StateInProgress :: StageState where [simp]: "StateInProgress = ''in-progress''"
definition StateUnknown :: StageState where [simp]: "StateUnknown = ''unknown''"

type_synonym Interruptible = bool

definition CanNotBeInterrupt :: Interruptible where [simp]: "CanNotBeInterrupt = False"
definition CanBeInterrupt :: Interruptible where [simp]: "CanBeInterrupt = True"

record Stage =
  stg_generation :: int
  stg_state :: StageState
  stg_taskType :: TaskName
  stg_interruptible :: Interruptible
  stg_reason :: string
  stg_startTime :: int
  stg_stopTime :: int
  stg_message :: string
  stg_podName :: string
  stg_podUID :: string

text \<open>\<open>func (s Stage) IsEqual(desired Stage) string\<close>: the first field that differs, or empty.\<close>

definition StageIsEqual :: "Stage \<Rightarrow> Stage \<Rightarrow> string" where
  "StageIsEqual s desired =
    (if stg_generation s \<noteq> stg_generation desired then ''generation''
     else if stg_taskType s \<noteq> stg_taskType desired then ''taskType''
     else if stg_interruptible s \<noteq> stg_interruptible desired then ''interruptible''
     else if stg_reason s \<noteq> stg_reason desired then ''reason''
     else if stg_message s \<noteq> stg_message desired then ''message''
     else if stg_podName s \<noteq> stg_podName desired then ''podName''
     else '''')"

section \<open>The parts of a spec\<close>

record ImageConfig =
  ic_image :: string
  ic_imagePullPolicy :: string

record Images =
  img_terraform :: "ImageConfig option"
  img_script :: "ImageConfig option"
  img_setup :: "ImageConfig option"

record TofuImages =
  timg_tofu :: "ImageConfig option"
  timg_script :: "ImageConfig option"
  timg_setup :: "ImageConfig option"

record ConfigMapSelector =
  cms_name :: string
  cms_key :: string

record Module =
  mod_source :: string
  mod_version :: string
  mod_configMapSelector :: "ConfigMapSelector option"
  mod_configMapSeclector_x :: "ConfigMapSelector option"
  mod_inline :: string

record Plugin =
  pl_imageConfig :: ImageConfig
  pl_when :: string
  pl_task :: TaskName
  pl_must :: bool

record StageScript =
  ss_source :: string
  ss_configMapSelector :: "ConfigMapSelector option"
  ss_inline :: string

record TaskOption =
  topt_for :: "TaskName list"
  topt_policyRules :: "PolicyRule list"
  topt_labels :: "(string, string) gomap"
  topt_annotations :: "(string, string) gomap"
  topt_envFrom :: "EnvFromSource list"
  topt_env :: "EnvVar list"
  topt_resources :: "opaque option"
  topt_script :: StageScript
  topt_restartPolicy :: string
  topt_volumes :: "Volume list"
  topt_volumeMounts :: "VolumeMount list"

record SSHKeySecretRef =
  sk_name :: string
  sk_namespace :: string
  sk_key :: string
  sk_lockSecretDeletion :: bool

record TokenSecretRef =
  tk_name :: string
  tk_namespace :: string
  tk_key :: string
  tk_lockSecretDeletion :: bool

text \<open>The two secret references are pointers, which the controllers read without a check.\<close>

record GitSSH =
  gssh_requireProxy :: bool
  gssh_sshKeySecretRef :: "SSHKeySecretRef option"

record GitHTTPS =
  ghttps_requireProxy :: bool
  ghttps_tokenSecretRef :: "TokenSecretRef option"

record GitSCM =
  git_ssh :: "GitSSH option"
  git_https :: "GitHTTPS option"

record SCMAuthMethod =
  scm_host :: string
  scm_git :: "GitSCM option"

record ResourceDownload =
  rd_address :: string
  rd_path :: string
  rd_useAsVar :: bool

record Setup =
  su_resourceDownloads :: "ResourceDownload list"
  su_cleanupDisk :: bool

record ProxyOpts =
  px_host :: string
  px_user :: string
  px_sshKeySecretRef :: SSHKeySecretRef

record SecretNameRef =
  snr_name :: string
  snr_namespace :: string
  snr_key :: string

record AWSCredentials =
  aws_irsa :: string
  aws_kiam :: string

record Credentials =
  cr_secretNameRef :: SecretNameRef
  cr_awsCredentials :: AWSCredentials
  cr_serviceAccountAnnotations :: "(string, string) gomap"

section \<open>The Terraform resource\<close>

record TerraformSpec =
  tfs_keepLatestPodsOnly :: bool
  tfs_keepCompletedPods :: bool
  tfs_outputsSecret :: string
  tfs_outputsToInclude :: "string list"
  tfs_outputsToOmit :: "string list"
  tfs_writeOutputsToStatus :: bool
  tfs_persistentVolumeSize :: "string option"
  tfs_storageClassName :: "string option"
  tfs_serviceAccount :: string
  tfs_credentials :: "Credentials list"
  tfs_ignoreDelete :: bool
  tfs_sshTunnel :: "ProxyOpts option"
  tfs_scmAuthMethods :: "SCMAuthMethod list"
  tfs_images :: "Images option"
  tfs_setup :: "Setup option"
  tfs_module :: Module
  tfs_version :: string
  tfs_backend :: string
  tfs_taskOptions :: "TaskOption list"
  tfs_plugins :: "(TaskName, Plugin) gomap"
  tfs_requireApproval :: bool

record TerraformStatus =
  tfst_podNamePrefix :: string
  tfst_phase :: StatusPhase
  tfst_lastCompletedGeneration :: int
  tfst_outputs :: "(string, string) gomap"
  tfst_stage :: Stage
  tfst_pluginsStarted :: "TaskName list"
  tfst_retryEventReason :: "string option"
  tfst_retryTimestamp :: "int option"

text \<open>The object metadata comes first: the fields of \<open>metav1.ObjectMeta\<close> the controllers use.\<close>

record Terraform =
  tf_name :: string
  tf_namespace :: string
  tf_uid :: string
  tf_generation :: int
  tf_labels :: "(string, string) gomap"
  tf_finalizers :: "string list"
  tf_deletionTimestamp :: "int option"
  tf_spec :: TerraformSpec
  tf_status :: TerraformStatus

section \<open>The Tofu resource\<close>

record TofuSpec =
  tos_keepLatestPodsOnly :: bool
  tos_keepCompletedPods :: bool
  tos_outputsSecret :: string
  tos_outputsToInclude :: "string list"
  tos_outputsToOmit :: "string list"
  tos_writeOutputsToStatus :: bool
  tos_persistentVolumeSize :: "string option"
  tos_storageClassName :: "string option"
  tos_serviceAccount :: string
  tos_credentials :: "Credentials list"
  tos_ignoreDelete :: bool
  tos_sshTunnel :: "ProxyOpts option"
  tos_scmAuthMethods :: "SCMAuthMethod list"
  tos_images :: "TofuImages option"
  tos_setup :: "Setup option"
  tos_module :: Module
  tos_version :: string
  tos_backend :: string
  tos_taskOptions :: "TaskOption list"
  tos_plugins :: "(TaskName, Plugin) gomap"
  tos_requireApproval :: bool

record TofuStatus =
  tost_podNamePrefix :: string
  tost_phase :: StatusPhase
  tost_lastCompletedGeneration :: int
  tost_outputs :: "(string, string) gomap"
  tost_stage :: Stage
  tost_pluginsStarted :: "TaskName list"
  tost_retryEventReason :: "string option"
  tost_retryTimestamp :: "int option"

record Tofu =
  to_name :: string
  to_namespace :: string
  to_uid :: string
  to_generation :: int
  to_labels :: "(string, string) gomap"
  to_finalizers :: "string list"
  to_deletionTimestamp :: "int option"
  to_spec :: TofuSpec
  to_status :: TofuStatus

section \<open>Lemmas\<close>

lemma StageIsEqual_empty:
  "StageIsEqual s d = '''' \<longleftrightarrow>
     stg_generation s = stg_generation d \<and> stg_taskType s = stg_taskType d \<and>
     stg_interruptible s = stg_interruptible d \<and> stg_reason s = stg_reason d \<and>
     stg_message s = stg_message d \<and> stg_podName s = stg_podName d"
  by (auto simp: StageIsEqual_def)

section \<open>Zero values and an example\<close>

text \<open>The status of a resource the API server has just stored: Go's zero value.\<close>

definition zeroStage :: Stage where
  "zeroStage = \<lparr>stg_generation = 0, stg_state = [], stg_taskType = [], stg_interruptible = False,
     stg_reason = [], stg_startTime = 0, stg_stopTime = 0, stg_message = [], stg_podName = [], stg_podUID = []\<rparr>"

definition zeroTfStatus :: TerraformStatus where
  "zeroTfStatus = \<lparr>tfst_podNamePrefix = [], tfst_phase = [], tfst_lastCompletedGeneration = 0,
     tfst_outputs = [], tfst_stage = zeroStage, tfst_pluginsStarted = [], tfst_retryEventReason = None,
     tfst_retryTimestamp = None\<rparr>"

definition zeroTofuStatus :: TofuStatus where
  "zeroTofuStatus = \<lparr>tost_podNamePrefix = [], tost_phase = [], tost_lastCompletedGeneration = 0,
     tost_outputs = [], tost_stage = zeroStage, tost_pluginsStarted = [], tost_retryEventReason = None,
     tost_retryTimestamp = None\<rparr>"

definition zeroModule :: Module where
  "zeroModule = \<lparr>mod_source = [], mod_version = [], mod_configMapSelector = None,
     mod_configMapSeclector_x = None, mod_inline = []\<rparr>"

definition zeroTf :: Terraform where
  "zeroTf = \<lparr>tf_name = [], tf_namespace = [], tf_uid = [], tf_generation = 0, tf_labels = [],
     tf_finalizers = [], tf_deletionTimestamp = None,
     tf_spec = \<lparr>tfs_keepLatestPodsOnly = False, tfs_keepCompletedPods = False, tfs_outputsSecret = [],
       tfs_outputsToInclude = [], tfs_outputsToOmit = [], tfs_writeOutputsToStatus = False,
       tfs_persistentVolumeSize = None, tfs_storageClassName = None, tfs_serviceAccount = [],
       tfs_credentials = [], tfs_ignoreDelete = False, tfs_sshTunnel = None, tfs_scmAuthMethods = [],
       tfs_images = None, tfs_setup = None, tfs_module = zeroModule, tfs_version = [], tfs_backend = [],
       tfs_taskOptions = [], tfs_plugins = [], tfs_requireApproval = False\<rparr>,
     tf_status = zeroTfStatus\<rparr>"

definition zeroTofu :: Tofu where
  "zeroTofu = \<lparr>to_name = [], to_namespace = [], to_uid = [], to_generation = 0, to_labels = [],
     to_finalizers = [], to_deletionTimestamp = None,
     to_spec = \<lparr>tos_keepLatestPodsOnly = False, tos_keepCompletedPods = False, tos_outputsSecret = [],
       tos_outputsToInclude = [], tos_outputsToOmit = [], tos_writeOutputsToStatus = False,
       tos_persistentVolumeSize = None, tos_storageClassName = None, tos_serviceAccount = [],
       tos_credentials = [], tos_ignoreDelete = False, tos_sshTunnel = None, tos_scmAuthMethods = [],
       tos_images = None, tos_setup = None, tos_module = zeroModule, tos_version = [], tos_backend = [],
       tos_taskOptions = [], tos_plugins = [], tos_requireApproval = False\<rparr>,
     to_status = zeroTofuStatus\<rparr>"

text \<open>The resource of the README's quick start, as it is after the first reconciliations.\<close>

definition exampleModule :: Module where
  "exampleModule = \<lparr>mod_source = ''https://github.com/example/module.git?ref=main'', mod_version = [],
     mod_configMapSelector = None, mod_configMapSeclector_x = None, mod_inline = []\<rparr>"

definition exampleTfSpec :: TerraformSpec where
  "exampleTfSpec = \<lparr>tfs_keepLatestPodsOnly = False, tfs_keepCompletedPods = False, tfs_outputsSecret = [],
     tfs_outputsToInclude = [], tfs_outputsToOmit = [], tfs_writeOutputsToStatus = False,
     tfs_persistentVolumeSize = None, tfs_storageClassName = None, tfs_serviceAccount = [],
     tfs_credentials = [], tfs_ignoreDelete = False, tfs_sshTunnel = None, tfs_scmAuthMethods = [],
     tfs_images = None, tfs_setup = None, tfs_module = exampleModule, tfs_version = ''1.5.7'',
     tfs_backend = ''terraform { backend kubernetes {} }'', tfs_taskOptions = [], tfs_plugins = [],
     tfs_requireApproval = False\<rparr>"

definition exampleTf :: Terraform where
  "exampleTf = \<lparr>tf_name = ''my-infra'', tf_namespace = ''default'', tf_uid = ''u1'', tf_generation = 1,
     tf_labels = [], tf_finalizers = [''finalizer.infrakube.galleybytes.com''], tf_deletionTimestamp = None,
     tf_spec = exampleTfSpec,
     tf_status = zeroTfStatus\<lparr>tfst_podNamePrefix := ''my-infra-abcd1234'', tfst_phase := PhaseInitializing\<rparr>\<rparr>"

lemmas example_defs = exampleTf_def exampleTfSpec_def exampleModule_def zeroTfStatus_def zeroStage_def

end
