(* ===== verification/GoMd5.thy ===== *)
theory GoMd5
  imports GoStd
begin

unbundle bit_operations_syntax

text \<open>
  \<open>crypto/md5\<close> and \<open>encoding/hex\<close> of the Go standard library, as the label hashing
  of \<open>pkg/utils\<close> uses them: the MD5 digest of RFC 1321 on 32-bit words, and the
  lower-case hexadecimal text of its 16 bytes.
\<close>

definition md5_shifts :: "nat list" where
  "md5_shifts = concat (replicate 4 [7, 12, 17, 22]) @ concat (replicate 4 [5, 9, 14, 20])
     @ concat (replicate 4 [4, 11, 16, 23]) @ concat (replicate 4 [6, 10, 15, 21])"

definition md5_consts :: "32 word list" where
  "md5_consts = [
     0xd76aa478, 0xe8c7b756, 0x242070db, 0xc1bdceee,
     0xf57c0faf, 0x4787c62a, 0xa8304613, 0xfd469501,
     0x698098d8, 0x8b44f7af, 0xffff5bb1, 0x895cd7be,
     0x6b901122, 0xfd987193, 0xa679438e, 0x49b40821,
     0xf61e2562, 0xc040b340, 0x265e5a51, 0xe9b6c7aa,
     0xd62f105d, 0x02441453, 0xd8a1e681, 0xe7d3fbc8,
     0x21e1cde6, 0xc33707d6, 0xf4d50d87, 0x455a14ed,
     0xa9e3e905, 0xfcefa3f8, 0x676f02d9, 0x8d2a4c8a,
     0xfffa3942, 0x8771f681, 0x6d9d6122, 0xfde5380c,
     0xa4beea44, 0x4bdecfa9, 0xf6bb4b60, 0xbebfbc70,
     0x289b7ec6, 0xeaa127fa, 0xd4ef3085, 0x04881d05,
     0xd9d4d039, 0xe6db99e5, 0x1fa27cf8, 0xc4ac5665,
     0xf4292244, 0x432aff97, 0xab9423a7, 0xfc93a039,
     0x655b59c3, 0x8f0ccc92, 0xffeff47d, 0x85845dd1,
     0x6fa87e4f, 0xfe2ce6e0, 0xa3014314, 0x4e0811a1,
     0xf7537e82, 0xbd3af235, 0x2ad7d2bb, 0xeb86d391]"

text \<open>One of the 64 steps on the state \<open>(a, b, c, d)\<close>, for the block \<open>M\<close> of 16 words.\<close>

fun md5_step :: "32 word list \<Rightarrow> nat \<Rightarrow> 32 word \<times> 32 word \<times> 32 word \<times> 32 word
    \<Rightarrow> 32 word \<times> 32 word \<times> 32 word \<times> 32 word" where
  "md5_step M i (a, b, c, d) =
     (let (f, g) =
        (if i < 16 then ((b AND c) OR ((NOT b) AND d), i)
         else if i < 32 then ((d AND b) OR ((NOT d) AND c), (5 * i + 1) mod 16)
         else if i < 48 then (b XOR c XOR d, (3 * i + 5) mod 16)
         else (c XOR (b OR (NOT d)), (7 * i) mod 16));
        s = f + a + md5_consts ! i + M ! g
      in (d, b + word_rotl (md5_shifts ! i) s, b, c))"

definition md5_block :: "32 word \<times> 32 word \<times> 32 word \<times> 32 word \<Rightarrow> 32 word list
    \<Rightarrow> 32 word \<times> 32 word \<times> 32 word \<times> 32 word" where
  "md5_block h M =
     (let (a, b, c, d) = foldl (\<lambda>st i. md5_step M i st) h [0..<64];
          (a0, b0, c0, d0) = h
      in (a0 + a, b0 + b, c0 + c, d0 + d))"

text \<open>Little-endian bytes of a number, and the words of a list of bytes.\<close>

definition le_bytes :: "nat \<Rightarrow> nat \<Rightarrow> nat list" where
  "le_bytes k n = map (\<lambda>i. n div 256 ^ i mod 256) [0..<k]"

fun le_words :: "nat list \<Rightarrow> 32 word list" where
  "le_words (b0 # b1 # b2 # b3 # bs) =
     word_of_nat (b0 + 256 * b1 + 65536 * b2 + 16777216 * b3) # le_words bs"
| "le_words _ = []"

definition md5_pad :: "nat list \<Rightarrow> nat list" where
  "md5_pad bs = bs @ [128] @ replicate ((119 - length bs mod 64) mod 64) 0
     @ le_bytes 8 (8 * length bs)"

fun md5_blocks :: "nat \<Rightarrow> 32 word list \<Rightarrow> 32 word \<times> 32 word \<times> 32 word \<times> 32 word
    \<Rightarrow> 32 word \<times> 32 word \<times> 32 word \<times> 32 word" where
  "md5_blocks 0 ws h = h"
| "md5_blocks (Suc n) ws h = md5_blocks n (drop 16 ws) (md5_block h (take 16 ws))"

definition md5_sum :: "string \<Rightarrow> nat list" where
  "md5_sum s =
     (let ws = le_words (md5_pad (map of_char s));
          (a, b, c, d) = md5_blocks (length ws div 16) ws
             (0x67452301, 0xefcdab89, 0x98badcfe, 0x10325476)
      in concat (map (\<lambda>x. le_bytes 4 (unat x)) [a, b, c, d]))"

text \<open>\<open>hex.EncodeToString\<close>\<close>

definition hex_char :: "nat \<Rightarrow> char" where
  "hex_char n = ''0123456789abcdef'' ! n"

definition hex_encode :: "nat list \<Rightarrow> string" where
  "hex_encode bs = concat (map (\<lambda>b. [hex_char (b div 16 mod 16), hex_char (b mod 16)]) bs)"

lemma length_le_bytes [simp]: "length (le_bytes k n) = k"
  by (simp add: le_bytes_def)

lemma length_md5_sum: "length (md5_sum s) = 16"
  by (simp add: md5_sum_def Let_def split: prod.split)

lemma length_hex_encode: "length (hex_encode bs) = 2 * length bs"
  by (induction bs) (auto simp: hex_encode_def)

lemma hex_char_in: "n < 16 \<Longrightarrow> hex_char n \<in> set ''0123456789abcdef''"
  unfolding hex_char_def by (rule nth_mem) simp

lemma set_hex_encode: "set (hex_encode bs) \<subseteq> set ''0123456789abcdef''"
proof
  fix c assume "c \<in> set (hex_encode bs)"
  then obtain b where "c = hex_char (b div 16 mod 16) \<or> c = hex_char (b mod 16)"
    by (auto simp: hex_encode_def)
  then show "c \<in> set ''0123456789abcdef''"
    using hex_char_in [of "b div 16 mod 16"] hex_char_in [of "b mod 16"]
    by (elim disjE) (simp_all only: mod_less_divisor zero_less_numeral)
qed

end
