(* ===== verification/Utils.thy ===== *)
theory Utils
  imports GoMd5
begin

text \<open>
  \<open>pkg/utils/utils.go\<close>: membership and removal on string lists, random names, the
  truncation of resource names and the hashing of label values. The file-system
  helpers of that file (\<open>CopyDirectory\<close> and its kin) are in \<open>FileHelpers\<close>.
\<close>

section \<open>String lists\<close>

fun ListContainsStr :: "string list \<Rightarrow> string \<Rightarrow> bool" where
  "ListContainsStr [] e = False"
| "ListContainsStr (a # s) e = (if a = e then True else ListContainsStr s e)"

lemma ListContainsStr_iff [simp]: "ListContainsStr s e \<longleftrightarrow> e \<in> set s"
  by (induction s) auto

text \<open>
  \<open>ListRemoveStr\<close> removes while it ranges. The \<open>range\<close> clause fixes the slice header
  once, so the loop runs over all \<open>n\<close> positions of the original backing array, while
  \<open>append(list[:i], list[i+1:]...)\<close> moves the tail of the current list down in that
  same array and shortens the list. The state is the array and the current length;
  \<open>None\<close> is the run-time panic of the slice expression \<open>list[i+1:]\<close> when \<open>i+1\<close> is past
  the current length.
\<close>

fun list_remove_loop :: "string \<Rightarrow> nat list \<Rightarrow> string list \<Rightarrow> nat \<Rightarrow> string list option" where
  "list_remove_loop s [] arr len = Some (take len arr)"
| "list_remove_loop s (i # is) arr len =
     (if arr ! i = s
      then (if Suc i \<le> len
            then list_remove_loop s is (take i arr @ drop (Suc i) (take len arr) @ drop (len - 1) arr) (len - 1)
            else None)
      else list_remove_loop s is arr len)"

definition ListRemoveStr :: "string list \<Rightarrow> string \<Rightarrow> string list option" where
  "ListRemoveStr list s = list_remove_loop s [0..<length list] list (length list)"

lemma list_remove_loop_absent:
  assumes "\<forall>i \<in> set is. arr ! i \<noteq> s"
  shows "list_remove_loop s is arr len = Some (take len arr)"
  using assms by (induction "is") auto

lemma list_remove_loop_skip:
  assumes "\<forall>i \<in> set is. arr ! i \<noteq> s"
  shows "list_remove_loop s (is @ js) arr len = list_remove_loop s js arr len"
  using assms by (induction "is") auto

text \<open>The text of the element before the loop and after it, around one occurrence.\<close>

lemma ListRemoveStr_once:
  assumes "s \<notin> set xs" and "s \<notin> set ys"
  shows "ListRemoveStr (xs @ s # ys) s = Some (xs @ ys)"
proof -
  let ?arr = "xs @ s # ys" and ?n = "length xs" and ?l = "Suc (length xs + length ys)"
  let ?arr' = "xs @ ys @ drop (length ys) (s # ys)"
  have split: "[0..<length ?arr] = [0..<?n] @ ?n # [Suc ?n..<?l]"
  proof -
    have "[0..<?n + Suc (length ys)] = [0..<?n] @ [?n..<?n + Suc (length ys)]"
      by (rule upt_add_eq_append) simp
    moreover have "[?n..<?n + Suc (length ys)] = ?n # [Suc ?n..<?n + Suc (length ys)]"
      by (rule upt_conv_Cons) simp
    ultimately show ?thesis by (simp del: upt_Suc)
  qed
  have before: "\<forall>i \<in> set [0..<?n]. ?arr ! i \<noteq> s"
    using assms(1) by (auto simp: nth_append)
  have after: "\<forall>i \<in> set [Suc ?n..<?l]. ?arr' ! i \<noteq> s"
  proof
    fix i assume "i \<in> set [Suc ?n..<?l]"
    then obtain k where k: "i = Suc ?n + k" "k < length ys"
      by (metis Suc_le_mono add_Suc atLeastLessThan_iff atLeastLessThan_upt le_Suc_ex
          nat_add_left_cancel_less not_less_eq_eq not_le)
    show "?arr' ! i \<noteq> s"
    proof (cases "Suc k < length ys")
      case True
      then have "?arr' ! i = ys ! Suc k" using k by (simp add: nth_append)
      then show ?thesis using True assms(2) nth_mem by metis
    next
      case False
      with k have "Suc k = length ys" by simp
      then have "?arr' ! i = last ys" and "ys \<noteq> []"
        using k by (cases ys rule: rev_cases; force simp: nth_append)+
      then show ?thesis using assms(2) last_in_set by metis
    qed
  qed
  have "ListRemoveStr ?arr s = list_remove_loop s (?n # [Suc ?n..<?l]) ?arr ?l"
    unfolding ListRemoveStr_def split using list_remove_loop_skip [OF before] by simp
  also have "\<dots> = list_remove_loop s [Suc ?n..<?l] ?arr' (?l - 1)"
    by simp
  also have "\<dots> = Some (take (?l - 1) ?arr')"
    by (rule list_remove_loop_absent [OF after])
  finally show ?thesis by simp
qed

lemma ListRemoveStr_absent: "s \<notin> set list \<Longrightarrow> ListRemoveStr list s = Some list"
  unfolding ListRemoveStr_def by (subst list_remove_loop_absent) (auto simp: all_set_conv_all_nth)

lemma count_list_1_split:
  assumes "count_list list s = 1"
  obtains xs ys where "list = xs @ s # ys" and "s \<notin> set xs" and "s \<notin> set ys"
proof -
  have "s \<in> set list" using assms by (metis count_list_0_iff zero_neq_one)
  then obtain xs ys where l: "list = xs @ s # ys" "s \<notin> set xs" by (metis split_list_first)
  with assms have "count_list ys s = 0" by simp
  then have "s \<notin> set ys" by (simp add: count_list_0_iff)
  with l show ?thesis using that by blast
qed

section \<open>Random names\<close>

definition AlphaNum :: string where
  "AlphaNum = ''abcdefghijklmnopqrstuvwxyz0123456789''"

definition Charset :: string where
  "Charset = ''abcdefghijklmnopqrstuvwxyzABCDEFGHIJKLMNOPQRSTUVWXYZ0123456789''"

text \<open>
  \<open>seededRand\<close> is an argument: \<open>intn i k\<close> is what the \<open>i\<close>-th call of \<open>Intn(k)\<close> answers,
  a number below \<open>k\<close>. \<open>Intn\<close> panics for an empty character set.
\<close>

definition StringWithCharset :: "(nat \<Rightarrow> nat \<Rightarrow> nat) \<Rightarrow> nat \<Rightarrow> string \<Rightarrow> string option" where
  "StringWithCharset intn n charset =
     (if 0 < n \<and> charset = [] then None
      else Some (map (\<lambda>i. charset ! intn i (length charset)) [0..<n]))"

definition RandomString :: "(nat \<Rightarrow> nat \<Rightarrow> nat) \<Rightarrow> nat \<Rightarrow> string option" where
  "RandomString intn n = StringWithCharset intn n Charset"

lemma StringWithCharset_Some:
  assumes "StringWithCharset intn n cs = Some s" and "\<And>i k. 0 < k \<Longrightarrow> intn i k < k"
  shows "length s = n \<and> set s \<subseteq> set cs"
proof -
  have ne: "n = 0 \<or> 0 < length cs" and s: "s = map (\<lambda>i. cs ! intn i (length cs)) [0..<n]"
    using assms(1) by (auto simp: StringWithCharset_def split: if_splits)
  then show ?thesis using assms(2) by (auto intro!: nth_mem)
qed

section \<open>Resource names and label values\<close>

definition TruncateResourceName :: "string \<Rightarrow> nat \<Rightarrow> string" where
  "TruncateResourceName s i =
     (if i < length s
      then trimRight (trimRight (take i s) ''-'') ''.''
      else s)"

definition AutoHashLabeler :: "string \<Rightarrow> string" where
  "AutoHashLabeler s = (if 63 < length s then hex_encode (md5_sum s) else s)"

lemma TruncateResourceName_take: "\<exists>n \<le> length s. TruncateResourceName s i = take n s"
proof (cases "i < length s")
  case True
  obtain n where n: "trimRight (take i s) ''-'' = take n (take i s)"
    using trimRight_take by blast
  obtain m where m: "trimRight (take n (take i s)) ''.'' = take m (take n (take i s))"
    using trimRight_take by blast
  have "TruncateResourceName s i = take (min m (min n i)) s"
    using True n m by (simp add: TruncateResourceName_def)
  then show ?thesis using True by (intro exI [of _ "min m (min n i)"]) auto
next
  case False
  then show ?thesis by (auto simp: TruncateResourceName_def)
qed

lemma TruncateResourceName_length: "length (TruncateResourceName s i) \<le> i"
proof (cases "i < length s")
  case True
  have "length (trimRight (trimRight (take i s) ''-'') ''.'') \<le> length (take i s)"
    using length_trimRight_le order_trans by blast
  with True show ?thesis by (simp add: TruncateResourceName_def)
qed (simp add: TruncateResourceName_def)

lemma AutoHashLabeler_short: "length s \<le> 63 \<Longrightarrow> AutoHashLabeler s = s"
  by (simp add: AutoHashLabeler_def)

lemma AutoHashLabeler_long:
  "63 < length s \<Longrightarrow> length (AutoHashLabeler s) = 32 \<and> set (AutoHashLabeler s) \<subseteq> set ''0123456789abcdef''"
  using set_hex_encode [of "md5_sum s"]
  by (simp add: AutoHashLabeler_def length_hex_encode length_md5_sum)

section \<open>Sequences of integers\<close>

fun IsSeq_from :: "int list \<Rightarrow> int \<Rightarrow> bool" where
  "IsSeq_from [] cursor = True"
| "IsSeq_from (i # arr) cursor = (if i = cursor then IsSeq_from arr (cursor + 1) else False)"

definition IsSeq :: "int list \<Rightarrow> int option \<Rightarrow> bool" where
  "IsSeq arr start = IsSeq_from arr (case start of None \<Rightarrow> 0 | Some c \<Rightarrow> c)"

lemma IsSeq_from_iff: "IsSeq_from arr c \<longleftrightarrow> (\<forall>k < length arr. arr ! k = c + int k)"
proof (induction arr arbitrary: c)
  case (Cons a arr)
  show ?case
    by (auto simp: Cons.IH less_Suc_eq_0_disj)
qed simp

end
