(* ===== verification/TaskFlow.thy ===== *)
theory TaskFlow
  imports ApiTypes Utils
begin

text \<open>
  The order of the workflow's tasks (\<open>pkg/controllers/tf_controller.go\<close>, used by both
  controllers): the task classes, the configured tasks of a resource, which tasks
  may not be interrupted, and \<open>nextTask\<close>. The locale \<open>task_order\<close> is the contract
  between \<open>nextTask\<close> and the two orders it walks (apply and delete); it is
  interpreted on both below, and everything about the course of a workflow is
  proved in it once.
\<close>

section \<open>Task classes\<close>

definition tfTaskList :: "TaskName list" where
  "tfTaskList = [RunInit, RunInitDelete, RunPlan, RunPlanDelete, RunApply, RunApplyDelete]"

definition scriptTaskList :: "TaskName list" where
  "scriptTaskList =
    [RunPreInit, RunPreInitDelete, RunPostInit, RunPostInitDelete,
     RunPrePlan, RunPrePlanDelete, RunPostPlan, RunPostPlanDelete,
     RunPreApply, RunPreApplyDelete, RunPostApply, RunPostApplyDelete]"

definition setupTaskList :: "TaskName list" where
  "setupTaskList = [RunSetup, RunSetupDelete]"

definition isTaskInterruptable :: "TaskName \<Rightarrow> Interruptible" where
  "isTaskInterruptable task =
    (if ListContainsTask [RunInit, RunPlan, RunApply, RunInitDelete, RunPlanDelete, RunApplyDelete] task
     then CanNotBeInterrupt else CanBeInterrupt)"

section \<open>The configured tasks\<close>

definition defaultTasks :: "TaskName list" where
  "defaultTasks = [RunSetup, RunInit, RunPlan, RunApply, RunSetupDelete, RunInitDelete, RunPlanDelete, RunApplyDelete]"

fun addConfigured :: "TaskName list \<Rightarrow> TaskName list \<Rightarrow> TaskName list" where
  "addConfigured tasks [] = tasks"
| "addConfigured tasks (affected # rest) =
     (if affected = ''*'' then addConfigured tasks rest
      else if \<not> ListContainsTask tasks affected then addConfigured (tasks @ [affected]) rest
      else addConfigured tasks rest)"

fun addConfiguredOptions :: "TaskName list \<Rightarrow> TaskOption list \<Rightarrow> TaskName list" where
  "addConfiguredOptions tasks [] = tasks"
| "addConfiguredOptions tasks (opt # opts) = addConfiguredOptions (addConfigured tasks (topt_for opt)) opts"

definition getConfiguredTasks :: "TaskOption list option \<Rightarrow> TaskName list" where
  "getConfiguredTasks taskOptions =
    (case taskOptions of None \<Rightarrow> defaultTasks | Some opts \<Rightarrow> addConfiguredOptions defaultTasks opts)"

lemma set_addConfigured: "set (addConfigured ts fs) = set ts \<union> (set fs - {''*''})"
  by (induction ts fs rule: addConfigured.induct) auto

lemma distinct_addConfigured: "distinct ts \<Longrightarrow> distinct (addConfigured ts fs)"
  by (induction ts fs rule: addConfigured.induct) auto

lemma set_addConfiguredOptions:
  "set (addConfiguredOptions ts opts) = set ts \<union> ((\<Union>o' \<in> set opts. set (topt_for o')) - {''*''})"
  by (induction ts opts rule: addConfiguredOptions.induct) (auto simp: set_addConfigured)

lemma distinct_addConfiguredOptions: "distinct ts \<Longrightarrow> distinct (addConfiguredOptions ts opts)"
  by (induction ts opts rule: addConfiguredOptions.induct) (auto simp: distinct_addConfigured)

section \<open>The next task\<close>

definition tasksInOrder :: "TaskName list" where
  "tasksInOrder = [RunSetup, RunPreInit, RunInit, RunPostInit, RunPrePlan, RunPlan, RunPostPlan,
     RunPreApply, RunApply, RunPostApply]"

definition deleteTasksInOrder :: "TaskName list" where
  "deleteTasksInOrder = [RunSetupDelete, RunPreInitDelete, RunInitDelete, RunPostInitDelete,
     RunPrePlanDelete, RunPlanDelete, RunPostPlanDelete, RunPreApplyDelete, RunApplyDelete,
     RunPostApplyDelete]"

text \<open>The loop of \<open>nextTask\<close>, with its flag \<open>isUpNext\<close>.\<close>

fun nextTaskLoop :: "TaskName list \<Rightarrow> TaskName \<Rightarrow> TaskName list \<Rightarrow> bool \<Rightarrow> TaskName" where
  "nextTaskLoop [] currentTask configured isUpNext = RunNil"
| "nextTaskLoop (task # tasks) currentTask configured isUpNext =
     (if task = currentTask then nextTaskLoop tasks currentTask configured True
      else if isUpNext \<and> ListContainsTask configured task then task
      else nextTaskLoop tasks currentTask configured isUpNext)"

definition nextTask :: "TaskName \<Rightarrow> TaskName list \<Rightarrow> TaskName" where
  "nextTask currentTask configured =
    (if ListContainsTask tasksInOrder currentTask then nextTaskLoop tasksInOrder currentTask configured False
     else if ListContainsTask deleteTasksInOrder currentTask
     then nextTaskLoop deleteTasksInOrder currentTask configured False
     else RunNil)"

text \<open>
  The tasks a workflow visits from a task on when every stage completes: \<open>nextTask\<close>
  iterated until \<open>RunNil\<close>. The fuel bounds the number of stages.
\<close>

fun workflowFrom :: "nat \<Rightarrow> TaskName list \<Rightarrow> TaskName \<Rightarrow> TaskName list option" where
  "workflowFrom 0 configured t = None"
| "workflowFrom (Suc fuel) configured t =
     (if t = RunNil then Some []
      else map_option (Cons t) (workflowFrom fuel configured (nextTask t configured)))"

section \<open>The contract of an order\<close>

locale task_order =
  fixes order :: "TaskName list"
    and next_of :: "TaskName \<Rightarrow> TaskName list \<Rightarrow> TaskName"
  assumes order_distinct: "distinct order"
    and order_real: "RunNil \<notin> set order"
    and next_order: "t \<in> set order \<Longrightarrow> next_of t configured = nextTaskLoop order t configured False"
begin

lemma loop_up:
  "t \<notin> set ys \<Longrightarrow> nextTaskLoop ys t configured True =
     (case filter (\<lambda>u. u \<in> set configured) ys of [] \<Rightarrow> RunNil | u # _ \<Rightarrow> u)"
  by (induction ys) auto

lemma loop_skip: "t \<notin> set xs \<Longrightarrow> nextTaskLoop (xs @ t # ys) t configured False = nextTaskLoop ys t configured True"
  by (induction xs) auto

text \<open>The next task is the first configured one behind the current task.\<close>

lemma next_split:
  assumes "order = xs @ t # ys"
  shows "next_of t configured =
     (case filter (\<lambda>u. u \<in> set configured) ys of [] \<Rightarrow> RunNil | u # _ \<Rightarrow> u)"
proof -
  have t: "t \<in> set order" "t \<notin> set xs" "t \<notin> set ys"
    using order_distinct assms by auto
  then show ?thesis using next_order [OF t(1)] assms by (simp add: loop_skip loop_up)
qed

lemma next_in_order:
  assumes "t \<in> set order" and "next_of t configured \<noteq> RunNil"
  shows "next_of t configured \<in> set order \<and> next_of t configured \<in> set configured"
proof -
  obtain xs ys where s: "order = xs @ t # ys" using assms(1) by (meson split_list)
  have "filter (\<lambda>u. u \<in> set configured) ys \<noteq> []"
    using next_split [OF s, of configured] assms(2) by auto
  then obtain u us where f: "filter (\<lambda>u. u \<in> set configured) ys = u # us"
    by (meson list.exhaust)
  then have "u \<in> set ys \<and> u \<in> set configured" by (auto simp: filter_eq_Cons_iff)
  then show ?thesis using next_split [OF s, of configured] f s by simp
qed

text \<open>Nothing configured lies between a task and its successor, and the successor is later.\<close>

lemma next_position:
  assumes "order = xs @ t # ys" and "next_of t configured = u" and "u \<noteq> RunNil"
  shows "\<exists>us vs. ys = us @ u # vs \<and> u \<in> set configured \<and> set us \<inter> set configured = {}"
proof -
  have "filter (\<lambda>u. u \<in> set configured) ys \<noteq> []"
    using next_split [OF assms(1), of configured] assms(2,3) by auto
  then obtain us' where "filter (\<lambda>u. u \<in> set configured) ys = u # us'"
    using next_split [OF assms(1), of configured] assms(2,3) by (auto split: list.splits)
  then obtain us vs where "ys = us @ u # vs" "\<forall>w \<in> set us. w \<notin> set configured" "u \<in> set configured"
    by (auto simp: filter_eq_Cons_iff)
  then show ?thesis by auto
qed

lemma next_nil:
  assumes "order = xs @ t # ys" and "next_of t configured = RunNil"
  shows "set ys \<inter> set configured = {}"
proof -
  have real: "u \<noteq> RunNil" if "u \<in> set ys" for u
    using that assms(1) order_real by auto
  have "filter (\<lambda>u. u \<in> set configured) ys = []"
  proof (rule ccontr)
    assume "\<not> ?thesis"
    then obtain u us where f: "filter (\<lambda>u. u \<in> set configured) ys = u # us" by (meson list.exhaust)
    then have "u \<in> set ys" by (auto simp: filter_eq_Cons_iff)
    moreover have "u = RunNil" using next_split [OF assms(1), of configured] assms(2) f by simp
    ultimately show False using real by blast
  qed
  then show ?thesis by (auto simp: filter_empty_conv)
qed

text \<open>
  From a task of the order the workflow visits the task itself and then exactly the
  configured tasks behind it, in order: the abstract schedule \<open>nextTask\<close> implements.
\<close>

lemma workflow_from_split:
  assumes "\<And>t. t \<in> set order \<Longrightarrow> next_of t configured = nextTask t configured"
    and "order = xs @ t # ys" and "Suc (length ys) < fuel"
  shows "workflowFrom fuel configured t = Some (t # filter (\<lambda>u. u \<in> set configured) ys)"
  using assms(2,3)
proof (induction fuel arbitrary: xs t ys)
  case 0
  then show ?case by simp
next
  case (Suc fuel)
  have t: "t \<in> set order" "t \<noteq> RunNil" using Suc.prems(1) order_real by auto
  have n: "nextTask t configured = next_of t configured" using assms(1) t(1) by simp
  show ?case
  proof (cases "next_of t configured = RunNil")
    case True
    moreover have "filter (\<lambda>u. u \<in> set configured) ys = []"
      using next_nil [OF Suc.prems(1) True] by (auto simp: filter_empty_conv)
    moreover obtain k where "fuel = Suc k" using Suc.prems(2) by (cases fuel) auto
    ultimately show ?thesis using t n by simp
  next
    case False
    then obtain us vs where p: "ys = us @ next_of t configured # vs"
        "next_of t configured \<in> set configured" "set us \<inter> set configured = {}"
      using next_position [OF Suc.prems(1) refl] by blast
    have "order = (xs @ t # us) @ next_of t configured # vs"
      using Suc.prems(1) p(1) by simp
    moreover have "Suc (length vs) < fuel"
      using Suc.prems(2) arg_cong [OF p(1), of length] by simp
    ultimately have "workflowFrom fuel configured (next_of t configured) =
        Some (next_of t configured # filter (\<lambda>u. u \<in> set configured) vs)"
      by (rule Suc.IH)
    moreover have "filter (\<lambda>u. u \<in> set configured) us = []"
      using p(3) by (auto simp: filter_empty_conv)
    moreover have "filter (\<lambda>u. u \<in> set configured) ys =
        filter (\<lambda>u. u \<in> set configured) us @ next_of t configured # filter (\<lambda>u. u \<in> set configured) vs"
      using arg_cong [OF p(1), of "filter (\<lambda>u. u \<in> set configured)"] p(2) by simp
    ultimately show ?thesis using t n by simp
  qed
qed

end

text \<open>The two orders \<open>nextTask\<close> walks.\<close>

lemma orders_disjoint: "set tasksInOrder \<inter> set deleteTasksInOrder = {}"
  by (simp add: tasksInOrder_def deleteTasksInOrder_def)

interpretation apply_order: task_order tasksInOrder nextTask
  by unfold_locales (auto simp: nextTask_def tasksInOrder_def)

interpretation delete_order: task_order deleteTasksInOrder nextTask
proof
  show "distinct deleteTasksInOrder" by (simp add: deleteTasksInOrder_def)
  show "RunNil \<notin> set deleteTasksInOrder" by (simp add: deleteTasksInOrder_def)
  show "nextTask t configured = nextTaskLoop deleteTasksInOrder t configured False"
    if "t \<in> set deleteTasksInOrder" for t configured
    using that orders_disjoint by (auto simp: nextTask_def)
qed

section \<open>Properties\<close>

lemmas order_defs = tasksInOrder_def deleteTasksInOrder_def

lemma defaultTasks_configured: "set defaultTasks \<subseteq> set (getConfiguredTasks opts)"
  by (auto simp: getConfiguredTasks_def set_addConfiguredOptions split: option.splits)

text \<open>The abstract schedule: the tasks of an order that are built in or named by an option.\<close>

definition schedule :: "TaskName list \<Rightarrow> TaskOption list \<Rightarrow> TaskName list" where
  "schedule order opts = filter (\<lambda>t. t \<in> set defaultTasks \<or> t \<in> (\<Union>o' \<in> set opts. set (topt_for o'))) order"

lemma configured_in_order:
  "''*'' \<notin> set order \<Longrightarrow> filter (\<lambda>t. t \<in> set (getConfiguredTasks (Some opts))) order = schedule order opts"
  unfolding schedule_def getConfiguredTasks_def
  by (rule filter_cong) (auto simp: set_addConfiguredOptions)

text \<open>A workflow whose stages all complete ends, and on the way it runs exactly the
  tasks of its schedule: from \<open>setup\<close> the built-in apply tasks and those an option of the
  resource names, in the fixed order, each once; from \<open>setup-delete\<close> the same of the
  delete tasks. Twelve stages are enough for every resource.\<close>

theorem workflow_runs_schedule:
  "workflowFrom 12 (getConfiguredTasks (Some opts)) RunSetup = Some (schedule tasksInOrder opts) \<and>
   workflowFrom 12 (getConfiguredTasks (Some opts)) RunSetupDelete = Some (schedule deleteTasksInOrder opts)"
proof
  let ?c = "getConfiguredTasks (Some opts)"
  have d: "RunSetup \<in> set ?c" "RunSetupDelete \<in> set ?c"
    using defaultTasks_configured [of "Some opts"] by (auto simp: defaultTasks_def)
  have "workflowFrom 12 ?c RunSetup = Some (RunSetup # filter (\<lambda>u. u \<in> set ?c) (tl tasksInOrder))"
    by (rule apply_order.workflow_from_split [where xs = "[]"]) (simp_all add: order_defs)
  also have "\<dots> = Some (filter (\<lambda>u. u \<in> set ?c) tasksInOrder)"
    using d by (simp add: order_defs)
  finally show "workflowFrom 12 ?c RunSetup = Some (schedule tasksInOrder opts)"
    using configured_in_order [of tasksInOrder opts] by (simp add: order_defs)
  have "workflowFrom 12 ?c RunSetupDelete = Some (RunSetupDelete # filter (\<lambda>u. u \<in> set ?c) (tl deleteTasksInOrder))"
    by (rule delete_order.workflow_from_split [where xs = "[]"]) (simp_all add: order_defs)
  also have "\<dots> = Some (filter (\<lambda>u. u \<in> set ?c) deleteTasksInOrder)"
    using d by (simp add: order_defs)
  finally show "workflowFrom 12 ?c RunSetupDelete = Some (schedule deleteTasksInOrder opts)"
    using configured_in_order [of deleteTasksInOrder opts] by (simp add: order_defs)
qed

text \<open>\<open>nextTask\<close> never goes back and never leaves its workflow: the task it answers, if
  any, is configured, has a higher rank than the current one and belongs to the same
  order (apply or delete).\<close>

theorem nextTask_moves_forward:
  assumes "nextTask t configured \<noteq> RunNil"
  shows "nextTask t configured \<in> set configured \<and> TaskID t < TaskID (nextTask t configured) \<and>
    (t \<in> set tasksInOrder \<and> nextTask t configured \<in> set tasksInOrder \<or>
     t \<in> set deleteTasksInOrder \<and> nextTask t configured \<in> set deleteTasksInOrder)"
proof -
  have rank: "TaskID t < TaskID u"
    if "order = xs @ t # us @ u # vs" "sorted_wrt (\<lambda>a b. TaskID a < TaskID b) order" for order xs us vs u
    using that by (simp add: sorted_wrt_append)
  have s1: "sorted_wrt (\<lambda>a b. TaskID a < TaskID b) tasksInOrder"
    and s2: "sorted_wrt (\<lambda>a b. TaskID a < TaskID b) deleteTasksInOrder"
    by (simp_all add: order_defs TaskID_def)
  consider "t \<in> set tasksInOrder" | "t \<in> set deleteTasksInOrder"
    using assms unfolding nextTask_def by (metis ListContainsTask_iff)
  then show ?thesis
  proof cases
    case 1
    then obtain xs ys where s: "tasksInOrder = xs @ t # ys" by (meson split_list)
    from apply_order.next_position [OF s refl assms] obtain us vs
      where "ys = us @ nextTask t configured # vs" by blast
    then show ?thesis
      using rank [OF _ s1] s 1 apply_order.next_in_order [OF 1 assms] by simp
  next
    case 2
    then obtain xs ys where s: "deleteTasksInOrder = xs @ t # ys" by (meson split_list)
    from delete_order.next_position [OF s refl assms] obtain us vs
      where "ys = us @ nextTask t configured # vs" by blast
    then show ?thesis
      using rank [OF _ s2] s 2 delete_order.next_in_order [OF 2 assms] by simp
  qed
qed

lemma nextTask_moves_forward_witness:
  "nextTask RunInit [RunPlan, RunApply] \<noteq> RunNil \<and>
   nextTask RunInit [RunPlan, RunApply] \<in> set [RunPlan, RunApply] \<and>
   TaskID RunInit < TaskID (nextTask RunInit [RunPlan, RunApply])"
proof -
  have h: "nextTask RunInit [RunPlan, RunApply] \<noteq> RunNil"
    by (simp add: nextTask_def order_defs)
  show ?thesis using h nextTask_moves_forward [OF h] by simp
qed

text \<open>Whatever the options of a resource, \<open>plan\<close> runs before \<open>apply\<close> and \<open>init\<close> before
  \<open>plan\<close>: among the four built-in apply tasks its schedule has exactly \<open>setup\<close>, \<open>init\<close>,
  \<open>plan\<close>, \<open>apply\<close>, in this order, and correspondingly for delete.\<close>

theorem schedule_keeps_core_order:
  "filter (\<lambda>t. t \<in> set defaultTasks) (schedule tasksInOrder opts) = [RunSetup, RunInit, RunPlan, RunApply] \<and>
   filter (\<lambda>t. t \<in> set defaultTasks) (schedule deleteTasksInOrder opts) =
     [RunSetupDelete, RunInitDelete, RunPlanDelete, RunApplyDelete]"
proof -
  have "filter (\<lambda>t. t \<in> set defaultTasks) (schedule order opts) = filter (\<lambda>t. t \<in> set defaultTasks) order" for order
    unfolding schedule_def filter_filter by (rule filter_cong) auto
  then show ?thesis by (simp add: order_defs defaultTasks_def)
qed

text \<open>The configured tasks are the eight built-in ones and the tasks any option names,
  without the wildcard and without repetition.\<close>

theorem getConfiguredTasks_set:
  "set (getConfiguredTasks (Some opts)) = set defaultTasks \<union> ((\<Union>o' \<in> set opts. set (topt_for o')) - {''*''}) \<and>
   distinct (getConfiguredTasks (Some opts)) \<and> getConfiguredTasks None = defaultTasks"
  using distinct_addConfiguredOptions [of defaultTasks opts]
  by (simp add: getConfiguredTasks_def set_addConfiguredOptions) (simp add: defaultTasks_def)

end
