(* ===== verification/TaskOpts.thy ===== *)
theory TaskOpts
  imports TaskFlow
begin

text \<open>
  \<open>TaskOptions\<close> (\<open>pkg/controllers/tf_controller.go\<close>): everything a task pod and the
  objects around it are made from, how \<open>newTaskOptions\<close> collects it from a
  \<open>Terraform\<close> resource, and its Tofu twin \<open>newTofuTaskOptions\<close>. The fields keep the
  source's names with the prefix \<open>o_\<close>.
\<close>

record ParsedAddress =
  pa_detectedScheme :: string
  pa_path :: string
  pa_useAsVar :: bool
  pa_url :: string
  pa_files :: "string list"
  pa_hash :: string
  pa_urlScheme :: string
  pa_uri :: string
  pa_host :: string
  pa_port :: string
  pa_user :: string
  pa_repo :: string

definition emptyParsedAddress :: ParsedAddress where
  "emptyParsedAddress = \<lparr>pa_detectedScheme = [], pa_path = [], pa_useAsVar = False, pa_url = [],
     pa_files = [], pa_hash = [], pa_urlScheme = [], pa_uri = [], pa_host = [], pa_port = [],
     pa_user = [], pa_repo = []\<rparr>"

record TaskOptions =
  o_annotations :: "(string, string) gomap"
  o_configMapSourceName :: string
  o_configMapSourceKey :: string
  o_credentials :: "Credentials list"
  o_env :: "EnvVar list"
  o_envFrom :: "EnvFromSource list"
  o_generation :: int
  o_image :: string
  o_imagePullPolicy :: string
  o_inheritedAffinity :: "opaque option"
  o_inheritedNodeSelector :: "(string, string) gomap"
  o_inheritedTolerations :: "opaque list"
  o_inlineTaskExecutionFile :: string
  o_labels :: "(string, string) gomap"
  o_mainModulePluginData :: "(string, string) gomap"
  o_namespace :: string
  o_outputsSecretName :: string
  o_outputsToInclude :: "string list"
  o_outputsToOmit :: "string list"
  o_policyRules :: "PolicyRule list"
  o_prefixedName :: string
  o_resourceLabels :: "(string, string) gomap"
  o_resourceName :: string
  o_resourceUUID :: string
  o_task :: TaskName
  o_saveOutputs :: bool
  o_secretData :: "(string, string) gomap"
  o_serviceAccount :: string
  o_cleanupDisk :: bool
  o_stripGenerationLabelOnOutputsSecret :: bool
  o_tfModuleParsed :: ParsedAddress
  o_tfVersion :: string
  o_cacheURL :: string
  o_autoDownload :: bool
  o_tfDownloadBaseURL :: string
  o_urlSource :: string
  o_versionedName :: string
  o_requireApproval :: bool
  o_requireApprovalImage :: string
  o_restartPolicy :: string
  o_volumes :: "Volume list"
  o_volumeMounts :: "VolumeMount list"
  o_sidecarPlugins :: "Pod list"
  o_crdResource :: string
  o_versionEnvVar :: string
  o_downloadURLEnvVar :: string

section \<open>Collecting the options of one task\<close>

text \<open>The local variables the loop over \<open>spec.taskOptions\<close> writes.\<close>

record OptionVars =
  v_policyRules :: "PolicyRule list"
  v_labels :: "(string, string) gomap"
  v_annotations :: "(string, string) gomap"
  v_env :: "EnvVar list"
  v_envFrom :: "EnvFromSource list"
  v_urlSource :: string
  v_configMapSourceName :: string
  v_configMapSourceKey :: string
  v_restartPolicy :: string
  v_inlineTaskExecutionFile :: string
  v_volumes :: "Volume list"
  v_volumeMounts :: "VolumeMount list"

definition initOptionVars :: "EnvFromSource list \<Rightarrow> OptionVars" where
  "initOptionVars globalEnvFrom =
    \<lparr>v_policyRules = [], v_labels = [], v_annotations = [], v_env = [], v_envFrom = globalEnvFrom,
     v_urlSource = [], v_configMapSourceName = [], v_configMapSourceKey = [],
     v_restartPolicy = ''Never'', v_inlineTaskExecutionFile = [], v_volumes = [], v_volumeMounts = []\<rparr>"

text \<open>The body of the loop: first the part for this task or \<open>*\<close>, then the part for this task only.\<close>

definition mergeTaskOption :: "TaskOption \<Rightarrow> OptionVars \<Rightarrow> OptionVars" where
  "mergeTaskOption opt v =
    v\<lparr>v_policyRules := v_policyRules v @ topt_policyRules opt,
      v_annotations := AList.merge (v_annotations v) (topt_annotations opt),
      v_labels := AList.merge (v_labels v) (topt_labels opt),
      v_env := v_env v @ topt_env opt,
      v_envFrom := v_envFrom v @ topt_envFrom opt,
      v_restartPolicy := (if topt_restartPolicy opt \<noteq> [] then topt_restartPolicy opt else v_restartPolicy v),
      v_volumes := v_volumes v @ topt_volumes opt,
      v_volumeMounts := v_volumeMounts v @ topt_volumeMounts opt\<rparr>"

definition scriptTaskOption :: "TaskName \<Rightarrow> TaskOption \<Rightarrow> OptionVars \<Rightarrow> OptionVars" where
  "scriptTaskOption task opt v =
    v\<lparr>v_urlSource := ss_source (topt_script opt),
      v_configMapSourceName :=
        (case ss_configMapSelector (topt_script opt) of None \<Rightarrow> v_configMapSourceName v | Some s \<Rightarrow> cms_name s),
      v_configMapSourceKey :=
        (case ss_configMapSelector (topt_script opt) of None \<Rightarrow> v_configMapSourceKey v | Some s \<Rightarrow> cms_key s),
      v_inlineTaskExecutionFile :=
        (if ss_inline (topt_script opt) \<noteq> [] then ''inline-'' @ task @ ''.sh''
         else v_inlineTaskExecutionFile v)\<rparr>"

definition applyTaskOption :: "TaskName \<Rightarrow> OptionVars \<Rightarrow> TaskOption \<Rightarrow> OptionVars" where
  "applyTaskOption task v opt =
    (let v1 = (if ListContainsTask (topt_for opt) task \<or> ListContainsTask (topt_for opt) ''*''
               then mergeTaskOption opt v else v)
     in if ListContainsTask (topt_for opt) task then scriptTaskOption task opt v1 else v1)"

definition collectTaskOptions :: "TaskName \<Rightarrow> EnvFromSource list \<Rightarrow> TaskOption list \<Rightarrow> OptionVars" where
  "collectTaskOptions task globalEnvFrom opts = foldl (applyTaskOption task) (initOptionVars globalEnvFrom) opts"

section \<open>Images\<close>

definition TaskImageRepoDefault :: string where
  "TaskImageRepoDefault = ''ghcr.io/galleybytes/infrakube-task''"

definition TaskImageTagDefault :: string where
  "TaskImageTagDefault = ''latest''"

definition defaultTaskImage :: "string \<Rightarrow> string" where
  "defaultTaskImage taskImage =
    (if taskImage \<noteq> [] then taskImage else TaskImageRepoDefault @ '':'' @ TaskImageTagDefault)"

text \<open>A missing class gets the default image with \<open>IfNotPresent\<close>; an empty image only the image.\<close>

definition fillImage :: "string \<Rightarrow> ImageConfig option \<Rightarrow> ImageConfig" where
  "fillImage defaultImage ic =
    (let c = (case ic of None \<Rightarrow> \<lparr>ic_image = [], ic_imagePullPolicy = ''IfNotPresent''\<rparr> | Some c \<Rightarrow> c)
     in if ic_image c = [] then c\<lparr>ic_image := defaultImage\<rparr> else c)"

text \<open>
  The image, the pull policy and the script file of a task, from the filled images
  of its class. A task of no class (a plugin) keeps the initial values.
\<close>

definition selectImage :: "TaskName \<Rightarrow> string \<Rightarrow> ImageConfig \<Rightarrow> ImageConfig \<Rightarrow> ImageConfig \<Rightarrow> OptionVars
    \<Rightarrow> string \<times> string \<times> string" where
  "selectImage task defaultScript tool script setup v =
    (let useDefault = (v_inlineTaskExecutionFile v = [] \<and> v_urlSource v = [] \<and>
                       (v_configMapSourceKey v = [] \<or> v_configMapSourceName v = []));
         inline = v_inlineTaskExecutionFile v
     in if ListContainsTask tfTaskList task
        then (ic_image tool, ic_imagePullPolicy tool, if useDefault then defaultScript else inline)
        else if ListContainsTask scriptTaskList task
        then (ic_image script, ic_imagePullPolicy script, if useDefault then ''default-noop.sh'' else inline)
        else if ListContainsTask setupTaskList task
        then (ic_image setup, ic_imagePullPolicy setup, if useDefault then ''default-setup.sh'' else inline)
        else ([], ''Always'', inline))"

section \<open>The options of a Terraform task\<close>

definition tfLabelPrefix :: string where
  "tfLabelPrefix = ''terraforms.infrakube.galleybytes.com/''"

definition tfResourceLabels :: "Terraform \<Rightarrow> TaskName \<Rightarrow> int \<Rightarrow> string \<Rightarrow> (string, string) gomap" where
  "tfResourceLabels tf task generation tfVersion =
    (let base =
       [(tfLabelPrefix @ ''generation'', itoa generation),
        (tfLabelPrefix @ ''resourceName'', AutoHashLabeler (tf_name tf)),
        (tfLabelPrefix @ ''podPrefix'', tfst_podNamePrefix (tf_status tf)),
        (tfLabelPrefix @ ''tfVersion'', tfVersion),
        (''app.kubernetes.io/name'', ''infrakube''),
        (''app.kubernetes.io/component'', ''infrakube-runner''),
        (''app.kubernetes.io/created-by'', ''controller'')]
     in if TaskID task = -2 then AList.update (tfLabelPrefix @ ''isPlugin'') ''true'' base else base)"

definition tfVersionedName :: "Terraform \<Rightarrow> string" where
  "tfVersionedName tf = tfst_podNamePrefix (tf_status tf) @ ''-v'' @ itoa (tf_generation tf)"

definition newTaskOptions :: "Terraform \<Rightarrow> TaskName \<Rightarrow> int \<Rightarrow> EnvFromSource list \<Rightarrow> opaque option
    \<Rightarrow> (string, string) gomap \<Rightarrow> opaque list \<Rightarrow> string \<Rightarrow> string \<Rightarrow> bool \<Rightarrow> string \<Rightarrow> string \<Rightarrow> TaskOptions" where
  "newTaskOptions tf task generation globalEnvFrom affinity nodeSelector tolerations
      requireApprovalImage cacheURL autoDownload tfDownloadBaseURL taskImage =
    (let spec = tf_spec tf;
         prefixedName = tfst_podNamePrefix (tf_status tf);
         versionedName = tfVersionedName tf;
         tfVersion = (if tfs_version spec = [] then ''latest'' else tfs_version spec);
         v = collectTaskOptions task globalEnvFrom (tfs_taskOptions spec);
         images = (case tfs_images spec of None \<Rightarrow> \<lparr>img_terraform = None, img_script = None, img_setup = None\<rparr> | Some i \<Rightarrow> i);
         defaultImage = defaultTaskImage taskImage;
         (image, imagePullPolicy, inlineFile) =
           selectImage task ''default-tf.sh'' (fillImage defaultImage (img_terraform images))
             (fillImage defaultImage (img_script images)) (fillImage defaultImage (img_setup images)) v
     in \<lparr>o_annotations = v_annotations v,
         o_configMapSourceName = v_configMapSourceName v,
         o_configMapSourceKey = v_configMapSourceKey v,
         o_credentials = tfs_credentials spec,
         o_env = v_env v,
         o_envFrom = v_envFrom v,
         o_generation = generation,
         o_image = image,
         o_imagePullPolicy = imagePullPolicy,
         o_inheritedAffinity = affinity,
         o_inheritedNodeSelector = nodeSelector,
         o_inheritedTolerations = tolerations,
         o_inlineTaskExecutionFile = inlineFile,
         o_labels = v_labels v,
         o_mainModulePluginData = [],
         o_namespace = tf_namespace tf,
         o_outputsSecretName = (if tfs_outputsSecret spec \<noteq> [] then tfs_outputsSecret spec
                                else versionedName @ ''-outputs''),
         o_outputsToInclude = tfs_outputsToInclude spec,
         o_outputsToOmit = tfs_outputsToOmit spec,
         o_policyRules = v_policyRules v,
         o_prefixedName = prefixedName,
         o_resourceLabels = tfResourceLabels tf task generation tfVersion,
         o_resourceName = tf_name tf,
         o_resourceUUID = tf_uid tf,
         o_task = task,
         o_saveOutputs = (tfs_outputsSecret spec \<noteq> [] \<or> tfs_writeOutputsToStatus spec),
         o_secretData = [],
         o_serviceAccount = (if tfs_serviceAccount spec = [] then ''tf-'' @ versionedName
                             else tfs_serviceAccount spec),
         o_cleanupDisk = (case tfs_setup spec of None \<Rightarrow> False | Some s \<Rightarrow> su_cleanupDisk s),
         o_stripGenerationLabelOnOutputsSecret = (tfs_outputsSecret spec \<noteq> []),
         o_tfModuleParsed = emptyParsedAddress,
         o_tfVersion = tfVersion,
         o_cacheURL = cacheURL,
         o_autoDownload = autoDownload,
         o_tfDownloadBaseURL = tfDownloadBaseURL,
         o_urlSource = v_urlSource v,
         o_versionedName = versionedName,
         o_requireApproval = tfs_requireApproval spec,
         o_requireApprovalImage = requireApprovalImage,
         o_restartPolicy = v_restartPolicy v,
         o_volumes = v_volumes v,
         o_volumeMounts = v_volumeMounts v,
         o_sidecarPlugins = [],
         o_crdResource = ''terraforms'',
         o_versionEnvVar = ''INFRAKUBE_TF_VERSION'',
         o_downloadURLEnvVar = ''INFRAKUBE_TF_DOWNLOAD_URL_BASE''\<rparr>)"

section \<open>The options of a Tofu task\<close>

definition tofuLabelPrefix :: string where
  "tofuLabelPrefix = ''tofus.infrakube.galleybytes.com/''"

definition tofuResourceLabels :: "Tofu \<Rightarrow> TaskName \<Rightarrow> int \<Rightarrow> string \<Rightarrow> (string, string) gomap" where
  "tofuResourceLabels tofu task generation tofuVersion =
    (let base =
       [(tofuLabelPrefix @ ''generation'', itoa generation),
        (tofuLabelPrefix @ ''resourceName'', AutoHashLabeler (to_name tofu)),
        (tofuLabelPrefix @ ''podPrefix'', tost_podNamePrefix (to_status tofu)),
        (tofuLabelPrefix @ ''tofuVersion'', tofuVersion),
        (''app.kubernetes.io/name'', ''infrakube''),
        (''app.kubernetes.io/component'', ''infrakube-runner''),
        (''app.kubernetes.io/created-by'', ''controller'')]
     in if TaskID task = -2 then AList.update (tofuLabelPrefix @ ''isPlugin'') ''true'' base else base)"

definition tofuVersionedName :: "Tofu \<Rightarrow> string" where
  "tofuVersionedName tofu = tost_podNamePrefix (to_status tofu) @ ''-v'' @ itoa (to_generation tofu)"

definition newTofuTaskOptions :: "Tofu \<Rightarrow> TaskName \<Rightarrow> int \<Rightarrow> EnvFromSource list \<Rightarrow> opaque option
    \<Rightarrow> (string, string) gomap \<Rightarrow> opaque list \<Rightarrow> string \<Rightarrow> string \<Rightarrow> bool \<Rightarrow> string \<Rightarrow> string \<Rightarrow> TaskOptions" where
  "newTofuTaskOptions tofu task generation globalEnvFrom affinity nodeSelector tolerations
      requireApprovalImage cacheURL autoDownload tofuDownloadBaseURL taskImage =
    (let spec = to_spec tofu;
         prefixedName = tost_podNamePrefix (to_status tofu);
         versionedName = tofuVersionedName tofu;
         tofuVersion = (if tos_version spec = [] then ''latest'' else tos_version spec);
         v = collectTaskOptions task globalEnvFrom (tos_taskOptions spec);
         images = (case tos_images spec of None \<Rightarrow> \<lparr>timg_tofu = None, timg_script = None, timg_setup = None\<rparr> | Some i \<Rightarrow> i);
         defaultImage = defaultTaskImage taskImage;
         (image, imagePullPolicy, inlineFile) =
           selectImage task ''default-tofu.sh'' (fillImage defaultImage (timg_tofu images))
             (fillImage defaultImage (timg_script images)) (fillImage defaultImage (timg_setup images)) v
     in \<lparr>o_annotations = v_annotations v,
         o_configMapSourceName = v_configMapSourceName v,
         o_configMapSourceKey = v_configMapSourceKey v,
         o_credentials = tos_credentials spec,
         o_env = v_env v,
         o_envFrom = v_envFrom v,
         o_generation = generation,
         o_image = image,
         o_imagePullPolicy = imagePullPolicy,
         o_inheritedAffinity = affinity,
         o_inheritedNodeSelector = nodeSelector,
         o_inheritedTolerations = tolerations,
         o_inlineTaskExecutionFile = inlineFile,
         o_labels = v_labels v,
         o_mainModulePluginData = [],
         o_namespace = to_namespace tofu,
         o_outputsSecretName = (if tos_outputsSecret spec \<noteq> [] then tos_outputsSecret spec
                                else versionedName @ ''-outputs''),
         o_outputsToInclude = tos_outputsToInclude spec,
         o_outputsToOmit = tos_outputsToOmit spec,
         o_policyRules = v_policyRules v,
         o_prefixedName = prefixedName,
         o_resourceLabels = tofuResourceLabels tofu task generation tofuVersion,
         o_resourceName = to_name tofu,
         o_resourceUUID = to_uid tofu,
         o_task = task,
         o_saveOutputs = (tos_outputsSecret spec \<noteq> [] \<or> tos_writeOutputsToStatus spec),
         o_secretData = [],
         o_serviceAccount = (if tos_serviceAccount spec = [] then ''tofu-'' @ versionedName
                             else tos_serviceAccount spec),
         o_cleanupDisk = (case tos_setup spec of None \<Rightarrow> False | Some s \<Rightarrow> su_cleanupDisk s),
         o_stripGenerationLabelOnOutputsSecret = (tos_outputsSecret spec \<noteq> []),
         o_tfModuleParsed = emptyParsedAddress,
         o_tfVersion = tofuVersion,
         o_cacheURL = cacheURL,
         o_autoDownload = autoDownload,
         o_tfDownloadBaseURL = tofuDownloadBaseURL,
         o_urlSource = v_urlSource v,
         o_versionedName = versionedName,
         o_requireApproval = tos_requireApproval spec,
         o_requireApprovalImage = requireApprovalImage,
         o_restartPolicy = v_restartPolicy v,
         o_volumes = v_volumes v,
         o_volumeMounts = v_volumeMounts v,
         o_sidecarPlugins = [],
         o_crdResource = ''tofus'',
         o_versionEnvVar = ''INFRAKUBE_TOFU_VERSION'',
         o_downloadURLEnvVar = ''INFRAKUBE_TOFU_DOWNLOAD_URL_BASE''\<rparr>)"

section \<open>Properties\<close>

text \<open>The options that apply to a task, in the order of the spec.\<close>

definition taskOptionMatches :: "TaskName \<Rightarrow> TaskOption \<Rightarrow> bool" where
  "taskOptionMatches task opt \<longleftrightarrow> task \<in> set (topt_for opt) \<or> ''*'' \<in> set (topt_for opt)"

lemma collectTaskOptions_snoc:
  "collectTaskOptions task g (opts @ [opt]) = applyTaskOption task (collectTaskOptions task g opts) opt"
  by (simp add: collectTaskOptions_def)

lemmas option_step = applyTaskOption_def mergeTaskOption_def scriptTaskOption_def Let_def taskOptionMatches_def

text \<open>C34: The options of a task are collected in the order of the spec from exactly the
  entries that name the task or \<open>*\<close>: environments, rules, volumes and mounts are
  concatenated behind the global ones, the last restart policy given wins (\<open>Never\<close>
  if none is), and for labels and annotations a later entry overrides an earlier one.\<close>

theorem collectTaskOptions_spec:
  "let ms = filter (taskOptionMatches task) opts; v = collectTaskOptions task g opts
   in v_env v = concat (map topt_env ms) \<and>
      v_envFrom v = g @ concat (map topt_envFrom ms) \<and>
      v_policyRules v = concat (map topt_policyRules ms) \<and>
      v_volumes v = concat (map topt_volumes ms) \<and>
      v_volumeMounts v = concat (map topt_volumeMounts ms) \<and>
      v_restartPolicy v = last (''Never'' # filter (\<lambda>p. p \<noteq> []) (map topt_restartPolicy ms)) \<and>
      map_of (v_labels v) = foldl (\<lambda>m opt. m ++ map_of (topt_labels opt)) Map.empty ms \<and>
      map_of (v_annotations v) = foldl (\<lambda>m opt. m ++ map_of (topt_annotations opt)) Map.empty ms"
proof (induction opts rule: rev_induct)
  case Nil
  show ?case by (simp add: collectTaskOptions_def initOptionVars_def)
next
  case (snoc opt opts)
  then show ?case
    by (simp add: Let_def collectTaskOptions_snoc) (auto simp: option_step merge_conv')
qed

text \<open>The image of a Terraform task never depends on \<open>spec.terraformVersion\<close>: it is the
  image configured for the task's class with its tag untouched, or the controller's
  default. The API documentation promises the version as the image's tag.\<close>

theorem image_ignores_version:
  "o_image (newTaskOptions (tf\<lparr>tf_spec := (tf_spec tf)\<lparr>tfs_version := ver\<rparr>\<rparr>) task gen g aff ns tol ra cu ad dl ti) =
   o_image (newTaskOptions tf task gen g aff ns tol ra cu ad dl ti)"
  by (simp add: newTaskOptions_def Let_def split: prod.split)

text \<open>Every task of the workflow runs in a non-empty image and with a script: the image
  is the one of its class if the spec gives one, else the controller's default image,
  and when no script source of any kind is configured the class's built-in script.\<close>

theorem task_image_and_script:
  assumes "task \<in> set tasksInOrder \<union> set deleteTasksInOrder"
  shows "let o' = newTaskOptions tf task gen g aff ns tol ra cu ad dl ti in
    o_image o' \<noteq> [] \<and>
    (tfs_images (tf_spec tf) = None \<longrightarrow> o_image o' = defaultTaskImage ti \<and> o_imagePullPolicy o' = ''IfNotPresent'') \<and>
    (o_inlineTaskExecutionFile o' \<noteq> [] \<or> o_urlSource o' \<noteq> [] \<or>
     o_configMapSourceName o' \<noteq> [] \<and> o_configMapSourceKey o' \<noteq> [])"
proof -
  have img: "ic_image (fillImage (defaultTaskImage ti) ic) \<noteq> []" for ic
    by (simp add: fillImage_def defaultTaskImage_def TaskImageRepoDefault_def Let_def split: option.split)
  have none: "fillImage d None = \<lparr>ic_image = d, ic_imagePullPolicy = ''IfNotPresent''\<rparr>" for d
    by (simp add: fillImage_def Let_def)
  have cls: "task \<in> set tfTaskList \<union> set scriptTaskList \<union> set setupTaskList"
    using assms by (auto simp: order_defs tfTaskList_def scriptTaskList_def setupTaskList_def)
  have "let (i, p, s) = selectImage task ds (fillImage (defaultTaskImage ti) a) (fillImage (defaultTaskImage ti) b)
            (fillImage (defaultTaskImage ti) c) v in
        i \<noteq> [] \<and> (a = None \<and> b = None \<and> c = None \<longrightarrow> i = defaultTaskImage ti \<and> p = ''IfNotPresent'') \<and>
        (ds \<noteq> [] \<longrightarrow> s \<noteq> [] \<or> v_urlSource v \<noteq> [] \<or> v_configMapSourceName v \<noteq> [] \<and> v_configMapSourceKey v \<noteq> [])"
    for ds a b c v
    using cls img by (auto simp: selectImage_def Let_def none)
  then show ?thesis
    by (fastforce simp: newTaskOptions_def Let_def split: prod.splits option.splits)
qed

lemma task_image_and_script_witness:
  "RunPlan \<in> set tasksInOrder \<union> set deleteTasksInOrder \<and>
   o_image (newTaskOptions exampleTf RunPlan 1 [] None [] [] [] [] True [] ''img'') \<noteq> []"
proof -
  have h: "RunPlan \<in> set tasksInOrder \<union> set deleteTasksInOrder" by (simp add: order_defs)
  show ?thesis using h task_image_and_script [OF h, of exampleTf 1 "[]" None "[]" "[]" "[]" "[]" True "[]" "''img''"]
    by (simp add: Let_def)
qed

end
