(* ===== verification/PodGen.thy ===== *)
theory PodGen
  imports TaskOpts
begin

text \<open>
  The objects made from \<open>TaskOptions\<close> (\<open>pkg/controllers/tf_controller.go\<close>, methods of
  \<open>TaskOptions\<close>): the task pod with its environment, volumes and sidecars, the plugin
  job, the config map, service account, role, role binding, volume claim and secret.
\<close>

section \<open>Volumes of the user\<close>

definition prohibitedNames :: "string list" where
  "prohibitedNames = [''infrakubehome'', ''config-map-source'', ''main-module-addons'', ''gitaskpass'', ''ssh'']"

definition misconfigured :: "TaskName \<Rightarrow> string \<Rightarrow> goerr" where
  "misconfigured task msg = ErrMsg (''task '' @ quoted task @ '' is misconfigured: '' @ msg)"

fun checkVolumes :: "TaskName \<Rightarrow> VolumeMount list \<Rightarrow> Volume list \<Rightarrow> goerr option" where
  "checkVolumes task mounts [] = None"
| "checkVolumes task mounts (v # vs) =
     (if ListContainsStr prohibitedNames (vol_name v)
      then Some (misconfigured task (''volume name '' @ quoted (vol_name v) @ '' is reserved by tf-operator''))
      else if \<not> ListContainsStr (map vm_name mounts) (vol_name v)
      then Some (misconfigured task (''volume: '' @ quoted (vol_name v) @ '' doesn't have corresponding volumeMount''))
      else checkVolumes task mounts vs)"

fun checkMounts :: "TaskName \<Rightarrow> Volume list \<Rightarrow> VolumeMount list \<Rightarrow> goerr option" where
  "checkMounts task volumes [] = None"
| "checkMounts task volumes (m # ms) =
     (if \<not> ListContainsStr (map vol_name volumes) (vm_name m)
      then Some (misconfigured task (''volumeMount: '' @ quoted (vm_name m) @ '' doesn't have corresponding volume''))
      else checkMounts task volumes ms)"

definition validateVolume :: "TaskOptions \<Rightarrow> goerr option" where
  "validateVolume r =
    (case checkVolumes (o_task r) (o_volumeMounts r) (o_volumes r) of
       Some e \<Rightarrow> Some e
     | None \<Rightarrow> checkMounts (o_task r) (o_volumes r) (o_volumeMounts r))"

section \<open>The task pod\<close>

definition home :: string where
  "home = ''/home/infrakube-runner''"

definition generateNameOf :: "string \<Rightarrow> TaskName \<Rightarrow> string" where
  "generateNameOf versionedName task = versionedName @ ''-'' @ task @ ''-''"

text \<open>The environment every task pod gets, in the order of the literal.\<close>

definition baseEnv :: "TaskOptions \<Rightarrow> EnvVar list" where
  "baseEnv r =
    (let generationPath = home @ ''/generations/'' @ itoa (o_generation r)
     in [EnvFieldRef ''POD_UID'' ''metadata.uid'',
         EnvValue ''INFRAKUBE_TASK'' (o_task r),
         EnvValue ''INFRAKUBE_TASK_EXEC_URL_SOURCE'' (o_urlSource r),
         EnvValue ''INFRAKUBE_TASK_EXEC_CONFIGMAP_SOURCE_NAME'' (o_configMapSourceName r),
         EnvValue ''INFRAKUBE_TASK_EXEC_CONFIGMAP_SOURCE_KEY'' (o_configMapSourceKey r),
         EnvValue ''INFRAKUBE_TASK_EXEC_INLINE_SOURCE_FILE'' (o_inlineTaskExecutionFile r),
         EnvValue ''INFRAKUBE_RESOURCE'' (o_resourceName r),
         EnvValue ''INFRAKUBE_RESOURCE_UUID'' (o_resourceUUID r),
         EnvValue ''INFRAKUBE_NAMESPACE'' (o_namespace r),
         EnvValue ''INFRAKUBE_GENERATION'' (itoa (o_generation r)),
         EnvValue ''INFRAKUBE_GENERATION_PATH'' generationPath,
         EnvValue ''INFRAKUBE_MAIN_MODULE'' (generationPath @ ''/main''),
         EnvValue (o_versionEnvVar r) (o_tfVersion r),
         EnvValue ''INFRAKUBE_CACHE_URL'' (o_cacheURL r),
         EnvValue ''INFRAKUBE_AUTO_DOWNLOAD'' (bool_text (o_autoDownload r)),
         EnvValue (o_downloadURLEnvVar r) (o_tfDownloadBaseURL r),
         EnvValue ''INFRAKUBE_SAVE_OUTPUTS'' (bool_text (o_saveOutputs r)),
         EnvValue ''INFRAKUBE_OUTPUTS_SECRET_NAME'' (o_outputsSecretName r),
         EnvValue ''INFRAKUBE_OUTPUTS_TO_INCLUDE'' (str_join (o_outputsToInclude r) '',''),
         EnvValue ''INFRAKUBE_OUTPUTS_TO_OMIT'' (str_join (o_outputsToOmit r) '','')]
        @ (if o_cleanupDisk r then [EnvValue ''INFRAKUBE_CLEANUP_DISK'' ''true''] else []))"

definition moduleEnv :: "TaskOptions \<Rightarrow> EnvVar list" where
  "moduleEnv r =
    (if pa_repo (o_tfModuleParsed r) = [] then []
     else [EnvValue ''INFRAKUBE_MAIN_MODULE_REPO'' (pa_repo (o_tfModuleParsed r)),
           EnvValue ''INFRAKUBE_MAIN_MODULE_REPO_REF'' (pa_hash (o_tfModuleParsed r)),
           EnvValue ''INFRAKUBE_MAIN_MODULE_REPO_SUBDIR''
             (case pa_files (o_tfModuleParsed r) of
                [] \<Rightarrow> ''.''
              | f # _ \<Rightarrow> (if f = [] then ''.'' else f))])"

definition podEnv :: "TaskOptions \<Rightarrow> EnvVar list" where
  "podEnv r = o_env r @ baseEnv r @ [EnvValue ''INFRAKUBE_ROOT_PATH'' home] @ moduleEnv r @
    [EnvValue ''INFRAKUBE_TASK_EXEC_CONFIGMAP_SOURCE_PATH'' ''/tmp/config-map-source'',
     EnvValue ''INFRAKUBE_MAIN_MODULE_ADDONS'' ''/tmp/main-module-addons'',
     EnvValue ''GIT_ASKPASS'' ''/git/askpass/GIT_ASKPASS'',
     EnvValue ''INFRAKUBE_SSH'' ''/tmp/ssh'']"

definition mountAt :: "string \<Rightarrow> string \<Rightarrow> VolumeMount" where
  "mountAt name path = \<lparr>vm_name = name, vm_mountPath = path, vm_rest = Opaque []\<rparr>"

definition usesConfigMapSource :: "TaskOptions \<Rightarrow> bool" where
  "usesConfigMapSource r \<longleftrightarrow> o_configMapSourceName r \<noteq> [] \<and> o_configMapSourceKey r \<noteq> []"

text \<open>\<open>0775\<close>, the mode of the mounted secret files.\<close>

definition xmode :: int where
  "xmode = 509"

definition sshConfigItems :: "TaskOptions \<Rightarrow> KeyToPath list" where
  "sshConfigItems r =
    map (\<lambda>(key, _). \<lparr>kp_key = key, kp_path = key, kp_mode = xmode\<rparr>)
      (filter (\<lambda>(key, _). \<not> ListContainsStr [''gitAskpass''] key) (o_secretData r))"

definition podVolumes :: "TaskOptions \<Rightarrow> Volume list" where
  "podVolumes r =
    [\<lparr>vol_name = ''infrakubehome'', vol_source = PVCSource (o_prefixedName r) False\<rparr>]
    @ o_volumes r
    @ (if usesConfigMapSource r
       then [\<lparr>vol_name = ''config-map-source'', vol_source = ConfigMapSource (o_configMapSourceName r)\<rparr>] else [])
    @ [\<lparr>vol_name = ''main-module-addons'', vol_source = ConfigMapSource (o_versionedName r)\<rparr>,
       \<lparr>vol_name = ''gitaskpass'', vol_source = SecretSource (o_versionedName r) None True
          [\<lparr>kp_key = ''gitAskpass'', kp_path = ''GIT_ASKPASS'', kp_mode = xmode\<rparr>]\<rparr>,
       \<lparr>vol_name = ''ssh'', vol_source = SecretSource (o_versionedName r) (Some xmode) True (sshConfigItems r)\<rparr>]"

definition podMounts :: "TaskOptions \<Rightarrow> VolumeMount list" where
  "podMounts r =
    [mountAt ''infrakubehome'' home]
    @ o_volumeMounts r
    @ (if usesConfigMapSource r then [mountAt ''config-map-source'' ''/tmp/config-map-source''] else [])
    @ [mountAt ''main-module-addons'' ''/tmp/main-module-addons'',
       mountAt ''gitaskpass'' ''/git/askpass'',
       mountAt ''ssh'' ''/tmp/ssh'']"

definition podAnnotations :: "TaskOptions \<Rightarrow> (string, string) gomap" where
  "podAnnotations r =
    foldl (\<lambda>m c. if aws_kiam (cr_awsCredentials c) \<noteq> []
                 then AList.update ''iam.amazonaws.com/role'' (aws_kiam (cr_awsCredentials c)) m else m)
      (o_annotations r) (o_credentials r)"

definition podEnvFrom :: "TaskOptions \<Rightarrow> EnvFromSource list" where
  "podEnvFrom r =
    o_envFrom r @
    map (\<lambda>c. SecretRef (snr_name (cr_secretNameRef c)))
      (filter (\<lambda>c. cr_secretNameRef c \<noteq> \<lparr>snr_name = [], snr_namespace = [], snr_key = []\<rparr>) (o_credentials r))"

definition podLabels :: "TaskOptions \<Rightarrow> (string, string) gomap" where
  "podLabels r =
    AList.update ''app.kubernetes.io/instance'' (o_task r) (AList.merge (o_labels r) (o_resourceLabels r))"

definition taskContainer :: "TaskOptions \<Rightarrow> Container" where
  "taskContainer r =
    \<lparr>ct_name = (if TaskID (o_task r) = -2 then o_task r else ''task''),
     ct_image = o_image r, ct_imagePullPolicy = o_imagePullPolicy r,
     ct_runAsUser = 2000, ct_runAsGroup = 2000, ct_runAsNonRoot = True,
     ct_envFrom = podEnvFrom r, ct_env = podEnv r, ct_volumeMounts = podMounts r\<rparr>"

text \<open>
  A sidecar brings its containers, and those of its volumes the pod does not have when
  the sidecar's turn comes (the list of names is taken before its volumes are added).
\<close>

definition addSidecar :: "Container list \<times> Volume list \<Rightarrow> Pod \<Rightarrow> Container list \<times> Volume list" where
  "addSidecar cv sidecar =
    (let volumeList = map vol_name (snd cv)
     in (fst cv @ ps_containers (pod_spec sidecar),
         snd cv @ filter (\<lambda>v. \<not> ListContainsStr volumeList (vol_name v)) (ps_volumes (pod_spec sidecar))))"

definition generatePod :: "TaskOptions \<Rightarrow> goerr + Pod" where
  "generatePod r =
    (case validateVolume r of
       Some e \<Rightarrow> Inl e
     | None \<Rightarrow>
       (let (containers, volumes) = foldl addSidecar ([taskContainer r], podVolumes r) (o_sidecarPlugins r)
        in Inr \<lparr>pod_name = [],
             pod_generateName = generateNameOf (o_versionedName r) (o_task r),
             pod_namespace = o_namespace r,
             pod_labels = podLabels r,
             pod_annotations = podAnnotations r,
             pod_uid = [], pod_creationTimestamp = None, pod_phase = [],
             pod_spec = \<lparr>ps_affinity = o_inheritedAffinity r,
               ps_nodeSelector = o_inheritedNodeSelector r,
               ps_tolerations = o_inheritedTolerations r,
               ps_fsGroup = 2000,
               ps_serviceAccountName = o_serviceAccount r,
               ps_restartPolicy = o_restartPolicy r,
               ps_containers = containers,
               ps_volumes = volumes\<rparr>\<rparr>))"

definition getContainerNames :: "Pod \<Rightarrow> string list" where
  "getContainerNames pod = map ct_name (ps_containers (pod_spec pod))"

section \<open>The plugin job\<close>

text \<open>
  \<open>generateJob\<close> drops the error of \<open>generatePod\<close> and then reads the pod's spec: with
  an error the pod is a nil pointer, and the read panics.
\<close>

definition generateJob :: "TaskOptions \<Rightarrow> goerr + Job" where
  "generateJob r =
    (case generatePod r of
       Inl _ \<Rightarrow> Inl (ErrPanic ''nil pointer dereference'')
     | Inr pod \<Rightarrow>
       (let policy = (if ps_restartPolicy (pod_spec pod) = ''Always'' \<or> ps_restartPolicy (pod_spec pod) = ''OnFailure''
                      then ''OnFailure'' else ''Never'')
        in Inr \<lparr>job_name = pod_name pod, job_generateName = pod_generateName pod,
             job_namespace = pod_namespace pod, job_labels = pod_labels pod,
             job_annotations = pod_annotations pod, job_backoffLimit = 1000000,
             job_template = (pod_spec pod)\<lparr>ps_restartPolicy := policy\<rparr>\<rparr>))"

section \<open>The objects around the pod\<close>

definition generateConfigMap :: "TaskOptions \<Rightarrow> ConfigMap" where
  "generateConfigMap r =
    \<lparr>cm_name = o_versionedName r, cm_namespace = o_namespace r, cm_labels = o_resourceLabels r,
     cm_data = o_mainModulePluginData r\<rparr>"

definition generateServiceAccount :: "TaskOptions \<Rightarrow> ServiceAccount" where
  "generateServiceAccount r =
    \<lparr>sa_name = o_serviceAccount r, sa_namespace = o_namespace r, sa_labels = o_resourceLabels r,
     sa_annotations =
       foldl (\<lambda>m c. let m1 = AList.merge m (cr_serviceAccountAnnotations c)
                    in if aws_irsa (cr_awsCredentials c) \<noteq> []
                       then AList.update ''eks.amazonaws.com/role-arn'' (aws_irsa (cr_awsCredentials c)) m1 else m1)
         [] (o_credentials r)\<rparr>"

definition isKubernetesBackendLine :: "string \<Rightarrow> bool" where
  "isKubernetesBackendLine line \<longleftrightarrow> str_contains line ''backend '' \<and> str_contains line ''kubernetes''"

text \<open>The newline character, the separator of the backend's lines.\<close>

definition newline :: char where
  "newline = char_of (10 :: nat)"

definition allVerbsRule :: "string \<Rightarrow> string \<Rightarrow> PolicyRule" where
  "allVerbsRule apiGroup res =
    \<lparr>pr_verbs = [''*''], pr_apiGroups = [apiGroup], pr_resources = [res], pr_resourceNames = []\<rparr>"

definition backendOverride :: "TaskOptions \<Rightarrow> string" where
  "backendOverride r = (case map_of (o_mainModulePluginData r) ''backend_override.tf'' of None \<Rightarrow> [] | Some s \<Rightarrow> s)"

definition generateRole :: "TaskOptions \<Rightarrow> Role" where
  "generateRole r =
    \<lparr>role_name = o_versionedName r, role_namespace = o_namespace r, role_labels = o_resourceLabels r,
     role_rules =
       [allVerbsRule [] ''configmaps'',
        \<lparr>pr_verbs = [''get''], pr_apiGroups = [''infrakube.galleybytes.com''],
         pr_resources = [o_crdResource r], pr_resourceNames = [o_resourceName r]\<rparr>]
       @ (if backendOverride r \<noteq> [] \<and> list_ex isKubernetesBackendLine (splitChar newline (backendOverride r))
          then [allVerbsRule [] ''secrets'', allVerbsRule ''coordination.k8s.io'' ''leases''] else [])
       @ o_policyRules r\<rparr>"

definition generateRoleBinding :: "TaskOptions \<Rightarrow> RoleBinding" where
  "generateRoleBinding r =
    \<lparr>rb_name = o_versionedName r, rb_namespace = o_namespace r, rb_labels = o_resourceLabels r,
     rb_subject = (''ServiceAccount'', o_serviceAccount r, o_namespace r),
     rb_roleRef = (''Role'', o_versionedName r, ''rbac.authorization.k8s.io'')\<rparr>"

definition generatePVC :: "TaskOptions \<Rightarrow> string \<Rightarrow> string option \<Rightarrow> PVC" where
  "generatePVC r quantity storageClassName =
    \<lparr>pvc_name = o_prefixedName r, pvc_namespace = o_namespace r, pvc_labels = o_resourceLabels r,
     pvc_accessModes = [''ReadWriteOnce''], pvc_storageClassName = storageClassName, pvc_size = quantity\<rparr>"

definition generateSecret :: "string \<Rightarrow> string \<Rightarrow> (string, string) gomap \<Rightarrow> (string, string) gomap \<Rightarrow> Secret" where
  "generateSecret name namespace data labels =
    \<lparr>sec_name = name, sec_namespace = namespace, sec_labels = labels, sec_finalizers = [], sec_data = data\<rparr>"

section \<open>Properties\<close>

lemma checkVolumes_None:
  "checkVolumes task ms vs = None \<longleftrightarrow>
     set (map vol_name vs) \<inter> set prohibitedNames = {} \<and> set (map vol_name vs) \<subseteq> set (map vm_name ms)"
  by (induction vs) auto

lemma checkMounts_None:
  "checkMounts task vs ms = None \<longleftrightarrow> set (map vm_name ms) \<subseteq> set (map vol_name vs)"
  by (induction ms) auto

lemma validateVolume_None:
  "validateVolume r = None \<longleftrightarrow>
     set (map vol_name (o_volumes r)) \<inter> set prohibitedNames = {} \<and>
     set (map vol_name (o_volumes r)) = set (map vm_name (o_volumeMounts r))"
proof -
  have "validateVolume r = None \<longleftrightarrow>
      checkVolumes (o_task r) (o_volumeMounts r) (o_volumes r) = None \<and>
      checkMounts (o_task r) (o_volumes r) (o_volumeMounts r) = None"
    by (simp add: validateVolume_def split: option.split)
  then show ?thesis unfolding checkVolumes_None checkMounts_None by blast
qed

text \<open>The volumes of a task are accepted exactly when none of them has a name the
  controller reserves and the names of the volumes are the names of the mounts.\<close>

theorem validateVolume_iff:
  "validateVolume r = None \<longleftrightarrow>
     set (map vol_name (o_volumes r)) \<inter> set prohibitedNames = {} \<and>
     set (map vol_name (o_volumes r)) = set (map vm_name (o_volumeMounts r))"
  by (rule validateVolume_None)

text \<open>A pod the API server can run: no volume name twice, and no container mounts a
  volume the pod does not have.\<close>

definition pod_volumes_ok :: "Container list \<Rightarrow> Volume list \<Rightarrow> bool" where
  "pod_volumes_ok cs vs \<longleftrightarrow> distinct (map vol_name vs) \<and>
     (\<Union>c \<in> set cs. set (map vm_name (ct_volumeMounts c))) \<subseteq> set (map vol_name vs)"

definition pod_wf :: "Pod \<Rightarrow> bool" where
  "pod_wf p \<longleftrightarrow> pod_volumes_ok (ps_containers (pod_spec p)) (ps_volumes (pod_spec p))"

definition ct_mounts_in :: "Container list \<Rightarrow> Volume list \<Rightarrow> bool" where
  "ct_mounts_in cs vs \<longleftrightarrow> (\<Union>c \<in> set cs. set (map vm_name (ct_volumeMounts c))) \<subseteq> set (map vol_name vs)"

lemma addSidecar_ok:
  assumes "pod_volumes_ok (fst cv) (snd cv)" and "pod_wf p"
  shows "pod_volumes_ok (fst (addSidecar cv p)) (snd (addSidecar cv p))"
proof -
  let ?vs = "ps_volumes (pod_spec p)"
  let ?new = "filter (\<lambda>v. \<not> ListContainsStr (map vol_name (snd cv)) (vol_name v)) ?vs"
  have d: "distinct (map vol_name ?vs)"
    using assms(2) by (simp add: pod_wf_def pod_volumes_ok_def)
  then have "distinct (map vol_name ?new)" by (rule distinct_map_filter)
  moreover have "set (map vol_name (snd cv)) \<inter> set (map vol_name ?new) = {}"
  proof -
    have "A \<inter> set (map vol_name (filter (\<lambda>v. vol_name v \<notin> A) ?vs)) = {}" for A by auto
    then show ?thesis by (simp only: ListContainsStr_iff)
  qed
  moreover have "set (map vol_name ?vs) \<subseteq> set (map vol_name (snd cv @ ?new))" by auto
  moreover have "distinct (map vol_name (snd cv))" "ct_mounts_in (fst cv) (snd cv)"
      "ct_mounts_in (ps_containers (pod_spec p)) ?vs"
    using assms by (simp_all add: pod_volumes_ok_def pod_wf_def ct_mounts_in_def)
  ultimately show ?thesis
    unfolding addSidecar_def pod_volumes_ok_def ct_mounts_in_def Let_def fst_conv snd_conv map_append distinct_append
      set_append UN_Un by blast
qed

lemma foldl_addSidecar_ok:
  "pod_volumes_ok (fst cv) (snd cv) \<Longrightarrow> list_all pod_wf ps \<Longrightarrow>
   pod_volumes_ok (fst (foldl addSidecar cv ps)) (snd (foldl addSidecar cv ps))"
proof (induction ps arbitrary: cv)
  case (Cons p ps)
  then have "pod_volumes_ok (fst (addSidecar cv p)) (snd (addSidecar cv p))"
    by (intro addSidecar_ok) simp_all
  with Cons show ?case by simp
qed simp

lemma task_volumes_ok:
  assumes "validateVolume r = None" and "distinct (map vol_name (o_volumes r))"
  shows "pod_volumes_ok [taskContainer r] (podVolumes r)"
proof -
  have v: "set (map vol_name (o_volumes r)) \<inter> set prohibitedNames = {}"
    "set (map vol_name (o_volumes r)) = set (map vm_name (o_volumeMounts r))"
    using assms(1) unfolding validateVolume_None by blast+
  have "set (map vm_name (podMounts r)) = set (map vol_name (podVolumes r))"
    using v(2) unfolding set_map
    by (cases "usesConfigMapSource r") (simp_all add: podMounts_def podVolumes_def mountAt_def image_Un)
  moreover have "n \<notin> vol_name ` set (o_volumes r)" if "n \<in> set prohibitedNames" for n
    using v(1) that unfolding set_map by blast
  then have "distinct (map vol_name (podVolumes r))"
    using assms(2) by (simp add: podVolumes_def prohibitedNames_def)
  ultimately show ?thesis
    by (simp add: pod_volumes_ok_def taskContainer_def del: set_map)
qed

text \<open>C29: A pod is generated exactly when the task's volumes are accepted, and it is then
  well formed: if the user's volume names are distinct and the sidecar pods are well
  formed, no volume name occurs twice and every mount of every container, sidecars
  included, refers to a volume of the pod.\<close>

theorem generatePod_wf:
  assumes "distinct (map vol_name (o_volumes r))" and "list_all pod_wf (o_sidecarPlugins r)"
  shows "(case generatePod r of Inl e \<Rightarrow> validateVolume r = Some e | Inr p \<Rightarrow> validateVolume r = None \<and> pod_wf p)"
proof (cases "validateVolume r")
  case None
  have "pod_volumes_ok (fst ([taskContainer r], podVolumes r)) (snd ([taskContainer r], podVolumes r))"
    using task_volumes_ok [OF None assms(1)] by simp
  from foldl_addSidecar_ok [OF this assms(2)] None show ?thesis
    by (cases "foldl addSidecar ([taskContainer r], podVolumes r) (o_sidecarPlugins r)")
       (simp add: generatePod_def pod_wf_def)
next
  case (Some e)
  then show ?thesis by (simp add: generatePod_def)
qed

definition exampleOpts :: TaskOptions where
  "exampleOpts = newTaskOptions exampleTf RunPlan 1 [] None [] [] ''ra'' ''cache'' True ''dl'' ''img''"

lemma exampleOpts_volumes: "o_volumes exampleOpts = [] \<and> o_volumeMounts exampleOpts = [] \<and> o_sidecarPlugins exampleOpts = []"
  by (simp add: exampleOpts_def newTaskOptions_def example_defs collectTaskOptions_def initOptionVars_def Let_def
           split: prod.split)

lemma generatePod_wf_witness:
  "\<exists>p. generatePod exampleOpts = Inr p \<and> pod_wf p"
proof -
  have a: "distinct (map vol_name (o_volumes exampleOpts))" "list_all pod_wf (o_sidecarPlugins exampleOpts)"
    by (simp_all add: exampleOpts_volumes)
  have "validateVolume exampleOpts = None"
    by (simp add: validateVolume_def exampleOpts_volumes)
  then show ?thesis using generatePod_wf [OF a] by (auto split: sum.splits)
qed

text \<open>The job of a plugin restarts its pod on failure or never, whatever restart policy
  the spec asks for, and has the pod's name prefix and labels. When the pod cannot be
  generated \<open>generateJob\<close> panics: it dropped the error.\<close>

theorem generateJob_cases:
  "case generateJob r of
     Inl e \<Rightarrow> is_panic e \<and> validateVolume r \<noteq> None
   | Inr j \<Rightarrow> validateVolume r = None \<and>
       ps_restartPolicy (job_template j) = (if o_restartPolicy r \<in> {''Always'', ''OnFailure''} then ''OnFailure'' else ''Never'') \<and>
       job_generateName j = generateNameOf (o_versionedName r) (o_task r) \<and> job_labels j = podLabels r"
  by (auto simp: generateJob_def generatePod_def Let_def split: sum.splits option.splits prod.splits)

text \<open>The role of a task may use secrets and leases without limit exactly when the
  backend has a line with both \<open>backend \<close> and \<open>kubernetes\<close> (or a user's rule grants it);
  the user's policy rules are kept behind the built-in ones.\<close>

theorem generateRole_rules:
  "(\<exists>base. role_rules (generateRole r) = base @ o_policyRules r \<and>
     (allVerbsRule [] ''secrets'' \<in> set base \<longleftrightarrow>
        (\<exists>l \<in> set (splitChar newline (backendOverride r)). isKubernetesBackendLine l)) \<and>
     (allVerbsRule ''coordination.k8s.io'' ''leases'' \<in> set base \<longleftrightarrow> allVerbsRule [] ''secrets'' \<in> set base))"
proof -
  have e: "backendOverride r = [] \<Longrightarrow> \<not> list_ex isKubernetesBackendLine (splitChar newline (backendOverride r))"
    by (simp add: isKubernetesBackendLine_def)
  let ?k = "backendOverride r \<noteq> [] \<and> list_ex isKubernetesBackendLine (splitChar newline (backendOverride r))"
  let ?base = "[allVerbsRule [] ''configmaps'',
        \<lparr>pr_verbs = [''get''], pr_apiGroups = [''infrakube.galleybytes.com''],
         pr_resources = [o_crdResource r], pr_resourceNames = [o_resourceName r]\<rparr>]
       @ (if ?k then [allVerbsRule [] ''secrets'', allVerbsRule ''coordination.k8s.io'' ''leases''] else [])"
  have "role_rules (generateRole r) = ?base @ o_policyRules r"
    by (simp add: generateRole_def)
  moreover have "allVerbsRule [] ''secrets'' \<in> set ?base \<longleftrightarrow> ?k"
    "allVerbsRule ''coordination.k8s.io'' ''leases'' \<in> set ?base \<longleftrightarrow> ?k"
    by (simp_all add: allVerbsRule_def)
  moreover have "?k \<longleftrightarrow> (\<exists>l \<in> set (splitChar newline (backendOverride r)). isKubernetesBackendLine l)"
    using e by (auto simp: list_ex_iff)
  ultimately show ?thesis by (intro exI [of _ ?base]) simp
qed

lemma podLabels_at:
  "map_of (podLabels r) k =
     (if k = ''app.kubernetes.io/instance'' then Some (o_task r)
      else case map_of (o_resourceLabels r) k of Some v \<Rightarrow> Some v | None \<Rightarrow> map_of (o_labels r) k)"
  by (simp add: podLabels_def map_of_merge_at)

end
