(* ===== verification/KubeClient.thy ===== *)
theory KubeClient
  imports PodGen
begin

text \<open>
  The cluster a controller talks to. The client (\<open>controller-runtime\<close>), the API server
  behind it, the clock and the event recorder are outside the repository: they are the
  record \<open>kube\<close> of functions on an arbitrary state \<open>'w\<close> of the world, an argument of
  every operation that uses them. Nothing is assumed of them here; a property that
  needs the documented behaviour of the API server names it as a hypothesis.

  The fields, with the calls of the source they stand for:
  \<^item> \<open>k_exists kind key\<close>: \<open>Client.Get\<close> where the object itself is not used;
  \<^item> \<open>k_get_secret\<close>, \<open>k_get_tf\<close>, \<open>k_get_tofu\<close>: \<open>Client.Get\<close>;
  \<^item> \<open>k_create owner obj\<close>, \<open>k_update owner obj\<close>: \<open>Client.Create\<close> and \<open>Client.Update\<close> of an
    object whose controller reference was set to \<open>owner\<close>; \<open>Create\<close> answers the name of
    the object, which the API server makes for an object with only a \<open>generateName\<close>;
  \<^item> \<open>k_update_tf\<close>, \<open>k_status_update_tf\<close> (and \<open>tofu\<close>): \<open>Client.Update\<close> and
    \<open>Client.Status().Update\<close>, which decode the stored object into their argument;
  \<^item> \<open>k_delete\<close>, \<open>k_delete_all_of\<close>, \<open>k_list\<close>, \<open>k_list_pods\<close>: the calls of these names;
  \<^item> \<open>k_labels_parse\<close>: the error of \<open>labels.Parse\<close>; \<open>k_event\<close>: \<open>Recorder.Event\<close>;
    \<open>k_now\<close>: \<open>time.Now\<close>.
\<close>

text \<open>\<open>kind\<close>, name and uid of the resource a controller reference points to.\<close>

type_synonym owner = "string \<times> string \<times> string"

record 'w kube =
  k_now :: "'w \<Rightarrow> int"
  k_exists :: "kind \<Rightarrow> nsname \<Rightarrow> ('w, unit) io"
  k_get_secret :: "nsname \<Rightarrow> ('w, Secret) io"
  k_update_secret :: "Secret \<Rightarrow> ('w, unit) io"
  k_create :: "owner \<Rightarrow> kobj \<Rightarrow> ('w, string) io"
  k_update :: "owner \<Rightarrow> kobj \<Rightarrow> ('w, unit) io"
  k_delete :: "kind \<Rightarrow> nsname \<Rightarrow> ('w, unit) io"
  k_labels_parse :: "string \<Rightarrow> goerr option"
  k_delete_all_of :: "kind \<Rightarrow> string \<Rightarrow> string \<Rightarrow> string \<Rightarrow> ('w, unit) io"
  k_list :: "kind \<Rightarrow> string \<Rightarrow> string \<Rightarrow> ('w, nsname list) io"
  k_list_pods :: "string \<Rightarrow> string \<Rightarrow> string \<times> string \<Rightarrow> ('w, Pod list) io"
  k_event :: "owner \<Rightarrow> string \<Rightarrow> string \<Rightarrow> string \<Rightarrow> 'w \<Rightarrow> 'w"
  k_get_tf :: "nsname \<Rightarrow> ('w, Terraform) io"
  k_update_tf :: "Terraform \<Rightarrow> ('w, Terraform) io"
  k_status_update_tf :: "Terraform \<Rightarrow> ('w, Terraform) io"
  k_get_tofu :: "nsname \<Rightarrow> ('w, Tofu) io"
  k_update_tofu :: "Tofu \<Rightarrow> ('w, Tofu) io"
  k_status_update_tofu :: "Tofu \<Rightarrow> ('w, Tofu) io"

definition tfOwner :: "Terraform \<Rightarrow> owner" where
  "tfOwner tf = (''Terraform'', tf_name tf, tf_uid tf)"

definition tofuOwner :: "Tofu \<Rightarrow> owner" where
  "tofuOwner tofu = (''Tofu'', to_name tofu, to_uid tofu)"

definition tfKey :: "Terraform \<Rightarrow> nsname" where
  "tfKey tf = (tf_namespace tf, tf_name tf)"

definition tofuKey :: "Tofu \<Rightarrow> nsname" where
  "tofuKey tofu = (to_namespace tofu, to_name tofu)"

section \<open>Fetching with retries\<close>

text \<open>
  The retry loop of \<open>getTfResource\<close> and \<open>getTofuResource\<close>, over the tries that remain:
  not found ends it at once, any other error is tried again while tries remain. With
  no try at all the zero value \<open>z\<close> the source starts from would be returned; the
  callers pass 3 or 10.
\<close>

fun getRetry :: "'r \<Rightarrow> ('w, 'r) io \<Rightarrow> nat \<Rightarrow> ('w, 'r) io" where
  "getRetry z get 0 = io_return z"
| "getRetry z get (Suc n) = (\<lambda>w.
     (case get w of
        (Inr r, w') \<Rightarrow> (Inr r, w')
      | (Inl e, w') \<Rightarrow> (if IsNotFound e \<or> is_panic e \<or> n = 0 then (Inl e, w') else getRetry z get n w')))"

definition getTfResource :: "'w kube \<Rightarrow> nsname \<Rightarrow> nat \<Rightarrow> ('w, Terraform) io" where
  "getTfResource cl key maxRetry = getRetry zeroTf (k_get_tf cl key) maxRetry"

definition getTofuResource :: "'w kube \<Rightarrow> nsname \<Rightarrow> nat \<Rightarrow> ('w, Tofu) io" where
  "getTofuResource cl key maxRetry = getRetry zeroTofu (k_get_tofu cl key) maxRetry"

lemma getRetry_success: "get w = (Inr r, w') \<Longrightarrow> 0 < n \<Longrightarrow> getRetry z get n w = (Inr r, w')"
  by (cases n) auto

lemma getRetry_notfound: "get w = (Inl e, w') \<Longrightarrow> IsNotFound e \<Longrightarrow> 0 < n \<Longrightarrow> getRetry z get n w = (Inl e, w')"
  by (cases n) auto

text \<open>Retrying a call that only reads leaves the state alone.\<close>

lemma getRetry_reads:
  assumes "\<And>v. snd (get v) = v"
  shows "snd (getRetry z get n w) = w"
proof (induction n arbitrary: w)
  case (Suc n)
  obtain r v where g: "get w = (r, v)" by (cases "get w")
  then have "v = w" using assms [of w] by simp
  then show ?case using Suc g by (cases r) simp_all
qed simp

section \<open>Secrets\<close>

definition loadSecret :: "'w kube \<Rightarrow> string \<Rightarrow> string \<Rightarrow> ('w, Secret) io" where
  "loadSecret cl name namespace =
    k_get_secret cl (if namespace = [] then ''default'' else namespace, name)"

definition loadPassword :: "'w kube \<Rightarrow> string \<Rightarrow> string \<Rightarrow> string \<Rightarrow> ('w, string) io" where
  "loadPassword cl key name namespace =
    io_try (k_get_secret cl (namespace, name))
      (\<lambda>e. io_throw (ErrMsg (''could not get secret: '' @ err_text e)))
      (\<lambda>secret. case map_of (sec_data secret) key of
         Some (c # cs) \<Rightarrow> io_return (c # cs)
       | _ \<Rightarrow> io_throw (ErrMsg (''unable to locate '' @ quoted key @ '' in secret: <nil>'')))"

text \<open>
  The script of \<open>createGitAskpass\<close>; \<open>heredoc\<close> strips the common indentation of its text.
\<close>

definition askpassScript :: "string \<Rightarrow> string" where
  "askpassScript token = ''#!/bin/sh'' @ [newline] @ ''exec echo '' @ [CHR 0x22] @ token @ [CHR 0x22] @ [newline]"

definition createGitAskpass :: "'w kube \<Rightarrow> TokenSecretRef \<Rightarrow> ('w, string) io" where
  "createGitAskpass cl tokenSecret =
    io_bind (loadSecret cl (tk_name tokenSecret) (tk_namespace tokenSecret))
      (\<lambda>secret. case map_of (sec_data secret) (tk_key tokenSecret) of
         None \<Rightarrow> io_throw (ErrMsg (''secret '' @ quoted (sec_name secret) @ '' did not contain '' @ quoted ''''))
       | Some token \<Rightarrow> io_return (askpassScript token))"

section \<open>Locking secrets against deletion\<close>

definition lockGitSecretDeletion :: "'w kube \<Rightarrow> string \<Rightarrow> string \<Rightarrow> string \<Rightarrow> ('w, unit) io" where
  "lockGitSecretDeletion cl name namespace finalizerKey =
    io_bind (loadSecret cl name namespace)
      (\<lambda>secret. if finalizerKey \<notin> set (sec_finalizers secret)
         then k_update_secret cl (secret\<lparr>sec_finalizers := sec_finalizers secret @ [finalizerKey]\<rparr>)
         else io_return ())"

definition unlockGitSecretDeletion :: "'w kube \<Rightarrow> string \<Rightarrow> string \<Rightarrow> string \<Rightarrow> ('w, unit) io" where
  "unlockGitSecretDeletion cl name namespace finalizerKey =
    io_bind (loadSecret cl name namespace)
      (\<lambda>secret. if finalizerKey \<in> set (sec_finalizers secret)
         then k_update_secret cl (secret\<lparr>sec_finalizers := removeAll finalizerKey (sec_finalizers secret)\<rparr>)
         else io_return ())"

end
