(* ===== verification/MemCluster.thy ===== *)
theory MemCluster
  imports KubeClient
begin

text \<open>
  A small cluster in memory: one concrete instance of the record \<open>kube\<close>, on which the
  operations can be run. It stores whole objects by kind, namespace and name, names a
  pod without a name after its \<open>generateName\<close>, counts status writes and lets the next
  \<open>m_conflicts\<close> of them fail. Label selectors in text form are not evaluated:
  \<open>DeleteAllOf\<close> deletes nothing and the listings by selector are empty, as in a cluster
  without objects of older generations.
\<close>

record mem =
  m_objs :: "kobj list"
  m_tfs :: "Terraform list"
  m_tofus :: "Tofu list"
  m_events :: "(owner \<times> string \<times> string \<times> string) list"
  m_time :: int
  m_writes :: nat
  m_conflicts :: nat

definition emptyMem :: mem where
  "emptyMem = \<lparr>m_objs = [], m_tfs = [], m_tofus = [], m_events = [], m_time = 100,
     m_writes = 0, m_conflicts = 0\<rparr>"

fun namedObj :: "int \<Rightarrow> kobj \<Rightarrow> kobj" where
  "namedObj t (KPod p) = KPod (if pod_name p = [] then p\<lparr>pod_name := pod_generateName p @ itoa t\<rparr> else p)"
| "namedObj t (KJob j) = KJob (if job_name j = [] then j\<lparr>job_name := job_generateName j @ itoa t\<rparr> else j)"
| "namedObj t ob = ob"

definition hasObj :: "kind \<Rightarrow> nsname \<Rightarrow> mem \<Rightarrow> bool" where
  "hasObj k key w = (\<exists>ob \<in> set (m_objs w). kind_of ob = k \<and> obj_key ob = key)"

definition memCreate :: "owner \<Rightarrow> kobj \<Rightarrow> (mem, string) io" where
  "memCreate ow ob0 = (\<lambda>w. let ob = namedObj (m_time w) ob0 in
     if hasObj (kind_of ob) (obj_key ob) w then (Inl (ErrAlreadyExists (nsname_text (obj_key ob))), w)
     else (Inr (snd (obj_key ob)), w\<lparr>m_objs := m_objs w @ [ob], m_time := m_time w + 1\<rparr>))"

definition memUpdate :: "owner \<Rightarrow> kobj \<Rightarrow> (mem, unit) io" where
  "memUpdate ow ob = (\<lambda>w.
     if hasObj (kind_of ob) (obj_key ob) w
     then (Inr (), w\<lparr>m_objs := map (\<lambda>p. if kind_of p = kind_of ob \<and> obj_key p = obj_key ob then ob else p) (m_objs w)\<rparr>)
     else (Inl (ErrNotFound (nsname_text (obj_key ob))), w))"

definition memDelete :: "kind \<Rightarrow> nsname \<Rightarrow> (mem, unit) io" where
  "memDelete k key = (\<lambda>w.
     if hasObj k key w
     then (Inr (), w\<lparr>m_objs := filter (\<lambda>p. \<not> (kind_of p = k \<and> obj_key p = key)) (m_objs w)\<rparr>)
     else (Inl (ErrNotFound (nsname_text key)), w))"

fun memPods :: "string \<Rightarrow> string \<Rightarrow> string \<times> string \<Rightarrow> kobj list \<Rightarrow> Pod list" where
  "memPods ns gen lab [] = []"
| "memPods ns gen lab (KPod p # obs) =
     (if pod_namespace p = ns \<and> pod_generateName p = gen \<and> map_of (pod_labels p) (fst lab) = Some (snd lab)
      then p # memPods ns gen lab obs else memPods ns gen lab obs)"
| "memPods ns gen lab (ob # obs) = memPods ns gen lab obs"

fun memSecrets :: "kobj list \<Rightarrow> Secret list" where
  "memSecrets [] = []"
| "memSecrets (KSecret s # obs) = s # memSecrets obs"
| "memSecrets (_ # obs) = memSecrets obs"

definition memGet :: "('r \<Rightarrow> nsname) \<Rightarrow> (mem \<Rightarrow> 'r list) \<Rightarrow> nsname \<Rightarrow> (mem, 'r) io" where
  "memGet key rs k = (\<lambda>w. case find (\<lambda>r. key r = k) (rs w) of
      Some r \<Rightarrow> (Inr r, w) | None \<Rightarrow> (Inl (ErrNotFound (nsname_text k)), w))"

definition storeBy :: "('r \<Rightarrow> nsname) \<Rightarrow> 'r \<Rightarrow> 'r list \<Rightarrow> 'r list" where
  "storeBy key r rs = map (\<lambda>q. if key q = key r then r else q) rs"

definition memWrite :: "(mem \<Rightarrow> mem) \<Rightarrow> 'r \<Rightarrow> (mem, 'r) io" where
  "memWrite upd r = (\<lambda>w.
     if 0 < m_conflicts w then (Inl (ErrMsg ''conflict''), w\<lparr>m_conflicts := m_conflicts w - 1, m_writes := m_writes w + 1\<rparr>)
     else (Inr r, (upd w)\<lparr>m_writes := m_writes w + 1\<rparr>))"

definition secKey :: "Secret \<Rightarrow> nsname" where
  "secKey s = (sec_namespace s, sec_name s)"

definition memCluster :: "mem kube" where
  "memCluster = \<lparr>k_now = m_time,
     k_exists = (\<lambda>k key w. if hasObj k key w then (Inr (), w) else (Inl (ErrNotFound (nsname_text key)), w)),
     k_get_secret = memGet secKey (memSecrets \<circ> m_objs),
     k_update_secret = (\<lambda>s. memUpdate ([], [], []) (KSecret s)),
     k_create = memCreate, k_update = memUpdate, k_delete = memDelete,
     k_labels_parse = (\<lambda>s. None),
     k_delete_all_of = (\<lambda>k ns l f. io_return ()),
     k_list = (\<lambda>k ns l. io_return []),
     k_list_pods = (\<lambda>ns gen lab w. (Inr (memPods ns gen lab (m_objs w)), w)),
     k_event = (\<lambda>ow t r m w. w\<lparr>m_events := m_events w @ [(ow, t, r, m)]\<rparr>),
     k_get_tf = memGet tfKey m_tfs,
     k_update_tf = (\<lambda>tf w. (Inr tf, w\<lparr>m_tfs := storeBy tfKey tf (m_tfs w)\<rparr>)),
     k_status_update_tf = (\<lambda>tf. memWrite (\<lambda>w. w\<lparr>m_tfs := storeBy tfKey tf (m_tfs w)\<rparr>) tf),
     k_get_tofu = memGet tofuKey m_tofus,
     k_update_tofu = (\<lambda>tofu w. (Inr tofu, w\<lparr>m_tofus := storeBy tofuKey tofu (m_tofus w)\<rparr>)),
     k_status_update_tofu = (\<lambda>tofu. memWrite (\<lambda>w. w\<lparr>m_tofus := storeBy tofuKey tofu (m_tofus w)\<rparr>) tofu)\<rparr>"

lemmas mem_defs = memCluster_def memCreate_def memUpdate_def memDelete_def memGet_def memWrite_def
  storeBy_def hasObj_def emptyMem_def secKey_def

end
