(* ===== verification/Objects.thy ===== *)
theory Objects
  imports MemCluster
begin

text \<open>
  What both controllers do with the objects around a task's pod, apart from which
  objects they are: look whether an object exists, delete it if it does, create it
  and report the outcome as an event. \<open>store_laws\<close> states the documented behaviour of
  an API server nobody else writes to at the time; \<open>object_maker\<close> is the contract of
  an operation that puts one object in place, interpreted on the operations of both
  controllers in their theories.
\<close>

section \<open>The settings of a controller\<close>

text \<open>
  The fields of \<open>ReconcileTf\<close> and \<open>ReconcileTofu\<close> that \<open>main\<close> sets and nothing changes
  later. The embedded scripts are the package's \<open>go:embed\<close> variables.
\<close>

record reconciler =
  rc_globalEnvFromConfigmapData :: "(string, string) gomap"
  rc_globalEnvFromSecretData :: "(string, string) gomap"
  rc_globalEnvSuffix :: string
  rc_inheritNodeSelector :: bool
  rc_nodeSelectorCacheKey :: string
  rc_inheritAffinity :: bool
  rc_affinityCacheKey :: string
  rc_inheritTolerations :: bool
  rc_tolerationsCacheKey :: string
  rc_requireApprovalImage :: string
  rc_cacheURL :: string
  rc_autoDownload :: bool
  rc_downloadBaseURL :: string
  rc_taskImage :: string
  rc_taskScript :: string
  rc_setupScript :: string
  rc_noopScript :: string

definition exampleReconciler :: reconciler where
  "exampleReconciler = \<lparr>rc_globalEnvFromConfigmapData = [(''LOG'', ''info'')], rc_globalEnvFromSecretData = [],
     rc_globalEnvSuffix = ''env'', rc_inheritNodeSelector = False, rc_nodeSelectorCacheKey = ''node'',
     rc_inheritAffinity = False, rc_affinityCacheKey = ''affinity'', rc_inheritTolerations = False,
     rc_tolerationsCacheKey = ''tolerations'', rc_requireApprovalImage = ''approval'', rc_cacheURL = ''http://cache'',
     rc_autoDownload = True, rc_downloadBaseURL = ''https://releases'', rc_taskImage = ''image'',
     rc_taskScript = ''task'', rc_setupScript = ''setup'', rc_noopScript = ''noop''\<rparr>"

section \<open>Single operations\<close>

text \<open>The pattern of the \<open>check...Exists\<close> functions: only \<open>IsNotFound\<close> is no error.\<close>

definition checkExists :: "'w kube \<Rightarrow> kind \<Rightarrow> nsname \<Rightarrow> ('w, bool) io" where
  "checkExists cl k key =
    io_try (k_exists cl k key)
      (\<lambda>err. if IsNotFound err then io_return False else io_throw err)
      (\<lambda>_. io_return True)"

text \<open>The pattern of the \<open>delete...IfExists\<close> functions.\<close>

definition deleteIfExists :: "'w kube \<Rightarrow> kind \<Rightarrow> string \<Rightarrow> string \<Rightarrow> ('w, unit) io" where
  "deleteIfExists cl k name namespace =
    io_bind (checkExists cl k (namespace, name))
      (\<lambda>found. if found then k_delete cl k (namespace, name) else io_return ())"

definition recordCreateError :: "'w kube \<Rightarrow> owner \<Rightarrow> kind \<Rightarrow> goerr \<Rightarrow> ('w, unit) io" where
  "recordCreateError cl ow k err =
    io_seq [io_modify (k_event cl ow ''Warning'' (kind_name k @ ''CreateError'')
              (''Could not create '' @ kind_name k @ '' '' @ err_text err)),
            io_throw err]"

definition recordCreated :: "'w kube \<Rightarrow> owner \<Rightarrow> kind \<Rightarrow> string \<Rightarrow> ('w, unit) io" where
  "recordCreated cl ow k name =
    io_modify (k_event cl ow ''Normal'' ''SuccessfulCreate''
      (''Created '' @ kind_name k @ '': '' @ quoted name))"

text \<open>\<open>Create\<close> with its two events.\<close>

definition createReported :: "'w kube \<Rightarrow> owner \<Rightarrow> kobj \<Rightarrow> ('w, unit) io" where
  "createReported cl ow ob =
    io_try (k_create cl ow ob) (recordCreateError cl ow (kind_of ob)) (recordCreated cl ow (kind_of ob))"

text \<open>\<open>Create\<close>, or \<open>Update\<close> when the object exists already.\<close>

definition createOrUpdate :: "'w kube \<Rightarrow> owner \<Rightarrow> kobj \<Rightarrow> ('w, unit) io" where
  "createOrUpdate cl ow ob =
    io_try (k_create cl ow ob)
      (\<lambda>err. if IsAlreadyExists err then k_update cl ow ob else io_throw err)
      (\<lambda>_. io_return ())"

text \<open>The pattern of the create functions that replace an older object.\<close>

definition recreate :: "'w kube \<Rightarrow> owner \<Rightarrow> kobj \<Rightarrow> ('w, unit) io" where
  "recreate cl ow ob =
    io_bind (deleteIfExists cl (kind_of ob) (snd (obj_key ob)) (fst (obj_key ob)))
      (\<lambda>_. createReported cl ow ob)"

text \<open>The pattern of the checks in \<open>run\<close>.\<close>

definition requireObject :: "'w kube \<Rightarrow> kind \<Rightarrow> nsname \<Rightarrow> ('w, unit) io" where
  "requireObject cl k key =
    io_bind (checkExists cl k key)
      (\<lambda>found. if found then io_return ()
         else io_throw (ErrMsg (''could not find '' @ kind_name k @ '' '' @ quoted (nsname_text key))))"

section \<open>The API server\<close>

text \<open>
  \<open>view w\<close> are the objects stored in the state \<open>w\<close> of the cluster. While no one else
  writes, \<open>Get\<close> finds exactly what is stored; \<open>Delete\<close> of a stored object removes it;
  \<open>Create\<close> stores an object that is not there yet and answers \<open>AlreadyExists\<close> otherwise;
  \<open>Update\<close> replaces a stored object; events store nothing.
\<close>

definition store_laws :: "'w kube \<Rightarrow> ('w \<Rightarrow> kind \<times> nsname \<Rightarrow> kobj option) \<Rightarrow> bool" where
  "store_laws cl view \<longleftrightarrow>
    (\<forall>k key w. k_exists cl k key w =
       (if view w (k, key) = None then (Inl (ErrNotFound (nsname_text key)), w) else (Inr (), w))) \<and>
    (\<forall>k key w. view w (k, key) \<noteq> None \<longrightarrow>
       (\<exists>w'. k_delete cl k key w = (Inr (), w') \<and> view w' = (view w)((k, key) := None))) \<and>
    (\<forall>ow ob w. snd (obj_key ob) \<noteq> [] \<longrightarrow> view w (kind_of ob, obj_key ob) = None \<longrightarrow>
       (\<exists>w'. k_create cl ow ob w = (Inr (snd (obj_key ob)), w') \<and>
             view w' = (view w)((kind_of ob, obj_key ob) \<mapsto> ob))) \<and>
    (\<forall>ow ob w. snd (obj_key ob) \<noteq> [] \<longrightarrow> view w (kind_of ob, obj_key ob) \<noteq> None \<longrightarrow>
       k_create cl ow ob w = (Inl (ErrAlreadyExists (nsname_text (obj_key ob))), w)) \<and>
    (\<forall>ow ob w. view w (kind_of ob, obj_key ob) \<noteq> None \<longrightarrow>
       (\<exists>w'. k_update cl ow ob w = (Inr (), w') \<and> view w' = (view w)((kind_of ob, obj_key ob) \<mapsto> ob))) \<and>
    (\<forall>ow t r m w. view (k_event cl ow t r m w) = view w)"

lemma store_laws_exists:
  "store_laws cl view \<Longrightarrow> k_exists cl k key w =
     (if view w (k, key) = None then (Inl (ErrNotFound (nsname_text key)), w) else (Inr (), w))"
  by (simp only: store_laws_def)

lemma store_laws_delete:
  assumes "store_laws cl view" and "view w (k, key) \<noteq> None"
  obtains w' where "k_delete cl k key w = (Inr (), w')" and "view w' = (view w)((k, key) := None)"
  using assms unfolding store_laws_def by metis

lemma store_laws_create:
  assumes "store_laws cl view" and "snd (obj_key ob) \<noteq> []" and "view w (kind_of ob, obj_key ob) = None"
  obtains w' where "k_create cl ow ob w = (Inr (snd (obj_key ob)), w')"
    and "view w' = (view w)((kind_of ob, obj_key ob) \<mapsto> ob)"
  using assms unfolding store_laws_def by metis

lemma store_laws_conflict:
  assumes "store_laws cl view" and "snd (obj_key ob) \<noteq> []" and "view w (kind_of ob, obj_key ob) \<noteq> None"
  shows "k_create cl ow ob w = (Inl (ErrAlreadyExists (nsname_text (obj_key ob))), w)"
  using assms unfolding store_laws_def by metis

lemma store_laws_update:
  assumes "store_laws cl view" and "view w (kind_of ob, obj_key ob) \<noteq> None"
  obtains w' where "k_update cl ow ob w = (Inr (), w')"
    and "view w' = (view w)((kind_of ob, obj_key ob) \<mapsto> ob)"
  using assms unfolding store_laws_def by metis

lemma store_laws_event [simp]: "store_laws cl view \<Longrightarrow> view (k_event cl ow t r m w) = view w"
  unfolding store_laws_def by metis

section \<open>What the operations do on such a server\<close>

lemma checkExists_store:
  assumes "store_laws cl view"
  shows "checkExists cl k key w = (Inr (view w (k, key) \<noteq> None), w)"
  by (simp add: checkExists_def io_try_def store_laws_exists [OF assms])

lemma requireObject_store:
  assumes "store_laws cl view" and "view w (k, key) \<noteq> None"
  shows "requireObject cl k key w = (Inr (), w)"
  using assms(2) by (simp add: requireObject_def io_bind_def checkExists_store [OF assms(1)])

lemma deleteIfExists_store:
  assumes "store_laws cl view"
  shows "\<exists>w'. deleteIfExists cl k name ns w = (Inr (), w') \<and> view w' = (view w)((k, (ns, name)) := None)"
proof (cases "view w (k, (ns, name)) = None")
  case True
  then show ?thesis by (auto simp: deleteIfExists_def io_bind_def checkExists_store [OF assms] fun_upd_idem)
next
  case False
  then obtain w' where "k_delete cl k (ns, name) w = (Inr (), w')" "view w' = (view w)((k, (ns, name)) := None)"
    using store_laws_delete [OF assms] by metis
  then show ?thesis using False by (auto simp: deleteIfExists_def io_bind_def checkExists_store [OF assms])
qed

lemma createReported_store:
  assumes "store_laws cl view" and "snd (obj_key ob) \<noteq> []" and "view w (kind_of ob, obj_key ob) = None"
  shows "\<exists>w'. createReported cl ow ob w = (Inr (), w') \<and> view w' = (view w)((kind_of ob, obj_key ob) \<mapsto> ob)"
proof -
  obtain w' where "k_create cl ow ob w = (Inr (snd (obj_key ob)), w')"
      "view w' = (view w)((kind_of ob, obj_key ob) \<mapsto> ob)"
    using store_laws_create [OF assms] by metis
  then show ?thesis using assms(1) by (simp add: createReported_def io_try_def recordCreated_def fun_upd_def)
qed

lemma recreate_store:
  assumes "store_laws cl view" and "snd (obj_key ob) \<noteq> []"
  shows "\<exists>w'. recreate cl ow ob w = (Inr (), w') \<and> view w' = (view w)((kind_of ob, obj_key ob) \<mapsto> ob)"
proof -
  obtain v where d: "deleteIfExists cl (kind_of ob) (snd (obj_key ob)) (fst (obj_key ob)) w = (Inr (), v)"
      "view v = (view w)((kind_of ob, obj_key ob) := None)"
    using deleteIfExists_store [OF assms(1)] by (metis prod.collapse)
  then have "view v (kind_of ob, obj_key ob) = None" by simp
  from createReported_store [OF assms(1,2) this, of ow] obtain w'
    where "createReported cl ow ob v = (Inr (), w')" "view w' = (view v)((kind_of ob, obj_key ob) \<mapsto> ob)"
    by blast
  then show ?thesis using d by (simp add: recreate_def io_bind_def)
qed

lemma createOrUpdate_store:
  assumes "store_laws cl view" and "snd (obj_key ob) \<noteq> []"
  shows "\<exists>w'. createOrUpdate cl ow ob w = (Inr (), w') \<and> view w' = (view w)((kind_of ob, obj_key ob) \<mapsto> ob)"
proof (cases "view w (kind_of ob, obj_key ob) = None")
  case True
  then obtain w' where "k_create cl ow ob w = (Inr (snd (obj_key ob)), w')"
      "view w' = (view w)((kind_of ob, obj_key ob) \<mapsto> ob)"
    using store_laws_create [OF assms] by metis
  then show ?thesis by (simp add: createOrUpdate_def io_try_def)
next
  case False
  obtain w' where "k_update cl ow ob w = (Inr (), w')" "view w' = (view w)((kind_of ob, obj_key ob) \<mapsto> ob)"
    using store_laws_update [OF assms(1) False] by metis
  then show ?thesis using store_laws_conflict [OF assms False]
    by (simp add: createOrUpdate_def io_try_def)
qed

section \<open>The contract of an operation that puts an object in place\<close>

text \<open>
  \<open>does view m F\<close>: from every state \<open>m\<close> succeeds and changes the stored objects by \<open>F\<close>.
\<close>

definition does :: "('w \<Rightarrow> 'v) \<Rightarrow> ('w, unit) io \<Rightarrow> ('v \<Rightarrow> 'v) \<Rightarrow> bool" where
  "does view m F \<longleftrightarrow> (\<forall>w. \<exists>w'. m w = (Inr (), w') \<and> view w' = F (view w))"

named_theorems does_intros \<open>what the operations do on an API server\<close>

lemma does_Nil [does_intros]: "does view (io_seq []) (\<lambda>s. s)"
  by (simp add: does_def)

lemma does_return [does_intros]: "does view (io_return ()) (\<lambda>s. s)"
  by (simp add: does_def)

lemma does_Cons [does_intros]:
  assumes "does view m F" and "does view (io_seq ms) G"
  shows "does view (io_seq (m # ms)) (\<lambda>s. G (F s))"
  unfolding does_def
proof
  fix w
  obtain v where "m w = (Inr (), v)" "view v = F (view w)" using assms(1) by (auto simp: does_def)
  moreover obtain w' where "io_seq ms v = (Inr (), w')" "view w' = G (view v)"
    using assms(2) by (auto simp: does_def)
  ultimately show "\<exists>w'. io_seq (m # ms) w = (Inr (), w') \<and> view w' = G (F (view w))" by auto
qed

lemma does_if [does_intros]:
  "does view m F \<Longrightarrow> does view n G \<Longrightarrow> does view (if b then m else n) (if b then F else G)"
  by simp

lemma does_append:
  assumes "does view (io_seq ms) F" and "does view (io_seq ns) G"
  shows "does view (io_seq (ms @ ns)) (\<lambda>s. G (F s))"
proof -
  have "does view (io_seq [io_seq ms, io_seq ns]) (\<lambda>s. G (F s))"
    by (rule does_Cons [OF assms(1) does_Cons [OF assms(2) does_Nil]])
  moreover have "io_seq [io_seq ms, io_seq ns] w = io_seq (ms @ ns) w" for w
    by (simp add: io_seq_append) (auto split: prod.splits sum.splits)
  ultimately show ?thesis unfolding does_def by metis
qed

lemma does_at:
  assumes "does view m F"
  obtains w' where "m w = (Inr (), w')" and "view w' = F (view w)"
  using assms by (auto simp: does_def)

definition putObj :: "kobj \<Rightarrow> (kind \<times> nsname \<Rightarrow> kobj option) \<Rightarrow> kind \<times> nsname \<Rightarrow> kobj option" where
  "putObj ob s = s((kind_of ob, obj_key ob) \<mapsto> ob)"

text \<open>The same, unless an object of that kind and name is there.\<close>

definition putNewObj :: "kobj \<Rightarrow> (kind \<times> nsname \<Rightarrow> kobj option) \<Rightarrow> kind \<times> nsname \<Rightarrow> kobj option" where
  "putNewObj ob s = (if s (kind_of ob, obj_key ob) = None then putObj ob s else s)"

lemma putObj_at: "putObj ob s k = (if k = (kind_of ob, obj_key ob) then Some ob else s k)"
  by (simp add: putObj_def)

lemma putNewObj_at: "putNewObj ob s k =
    (if k = (kind_of ob, obj_key ob) \<and> s k = None then Some ob else s k)"
  by (auto simp: putNewObj_def putObj_at)

text \<open>
  \<open>make\<close> puts the object \<open>ob\<close> in place on every server that keeps the store laws, and
  touches no other object.
\<close>

locale object_maker =
  fixes make :: "'w kube \<Rightarrow> ('w, unit) io"
    and ob :: kobj
  assumes makes: "store_laws cl view \<Longrightarrow> snd (obj_key ob) \<noteq> [] \<Longrightarrow> does view (make cl) (putObj ob)"
begin

text \<open>It may be repeated: the second time it replaces the object by itself.\<close>

lemma makes_twice:
  assumes "store_laws cl view" and "snd (obj_key ob) \<noteq> []"
  shows "does view (io_seq [make cl, make cl]) (putObj ob)"
proof -
  have "does view (io_seq [make cl, make cl]) (\<lambda>s. putObj ob (putObj ob s))"
    by (intro does_intros makes assms)
  moreover have "(\<lambda>s. putObj ob (putObj ob s)) = putObj ob" by (simp add: putObj_def fun_eq_iff)
  ultimately show ?thesis by metis
qed

text \<open>Afterwards a check for the object succeeds and changes nothing.\<close>

lemma makes_found:
  assumes "store_laws cl view" and "snd (obj_key ob) \<noteq> []"
  shows "\<exists>w'. make cl w = (Inr (), w') \<and> requireObject cl (kind_of ob) (obj_key ob) w' = (Inr (), w')"
proof -
  obtain w' where w': "make cl w = (Inr (), w')" "view w' = putObj ob (view w)"
    using does_at [OF makes [OF assms]] by metis
  then have "view w' (kind_of ob, obj_key ob) \<noteq> None" by (simp add: putObj_at)
  then show ?thesis using w'(1) requireObject_store [OF assms(1)] by blast
qed

end

lemma does_recreate [does_intros]:
  assumes "store_laws cl view" and "snd (obj_key ob) \<noteq> []"
  shows "does view (recreate cl ow ob) (putObj ob)"
  using recreate_store [OF assms] by (simp add: does_def putObj_def)

lemma does_createOrUpdate [does_intros]:
  assumes "store_laws cl view" and "snd (obj_key ob) \<noteq> []"
  shows "does view (createOrUpdate cl ow ob) (putObj ob)"
  using createOrUpdate_store [OF assms] by (simp add: does_def putObj_def)

interpretation made_anew: object_maker "\<lambda>cl. recreate cl ow ob" ob for ow :: owner and ob :: kobj
  by unfold_locales (rule does_recreate)

interpretation made_or_updated: object_maker "\<lambda>cl. createOrUpdate cl ow ob" ob for ow :: owner and ob :: kobj
  by unfold_locales (rule does_createOrUpdate)

section \<open>The cluster in memory keeps the laws\<close>

fun memView :: "mem \<Rightarrow> kind \<times> nsname \<Rightarrow> kobj option" where
  "memView w (k, key) = find (\<lambda>p. kind_of p = k \<and> obj_key p = key) (m_objs w)"

lemma find_None_set: "find P xs = None \<longleftrightarrow> (\<forall>x \<in> set xs. \<not> P x)"
  by (induction xs) auto

lemma hasObj_view: "hasObj k key w \<longleftrightarrow> memView w (k, key) \<noteq> None"
  by (auto simp: hasObj_def find_None_set)

lemma find_append: "find P (xs @ ys) = (case find P xs of None \<Rightarrow> find P ys | Some x \<Rightarrow> Some x)"
  by (induction xs) auto

lemma namedObj_named: "snd (obj_key ob) \<noteq> [] \<Longrightarrow> namedObj t ob = ob"
  by (cases ob) auto

lemma kind_of_namedObj [simp]: "kind_of (namedObj t ob) = kind_of ob"
  by (cases ob) auto

lemma find_filter_other:
  "find (\<lambda>p. kind_of p = k' \<and> obj_key p = key') (filter (\<lambda>p. \<not> (kind_of p = k \<and> obj_key p = key)) xs) =
     (if k' = k \<and> key' = key then None else find (\<lambda>p. kind_of p = k' \<and> obj_key p = key') xs)"
  by (induction xs) auto

lemma find_replace:
  "find (\<lambda>p. kind_of p = k \<and> obj_key p = key) (map (\<lambda>p. if kind_of p = kind_of ob \<and> obj_key p = obj_key ob then ob else p) xs) =
     (if k = kind_of ob \<and> key = obj_key ob \<and> find (\<lambda>p. kind_of p = k \<and> obj_key p = key) xs \<noteq> None then Some ob
      else find (\<lambda>p. kind_of p = k \<and> obj_key p = key) xs)"
  by (induction xs) auto

lemma memView_eqI: "(\<And>k key. memView w (k, key) = f (k, key)) \<Longrightarrow> memView w = f"
  by (rule ext) auto

lemma mem_store_laws: "store_laws memCluster memView"
  unfolding store_laws_def
proof (intro conjI allI impI)
  fix k key w
  show "k_exists memCluster k key w =
      (if memView w (k, key) = None then (Inl (ErrNotFound (nsname_text key)), w) else (Inr (), w))"
    using hasObj_view [of k key w] by (simp add: memCluster_def del: memView.simps)
next
  fix k key w assume "memView w (k, key) \<noteq> None"
  then have "k_delete memCluster k key w =
      (Inr (), w\<lparr>m_objs := filter (\<lambda>p. \<not> (kind_of p = k \<and> obj_key p = key)) (m_objs w)\<rparr>)"
    using hasObj_view [of k key w] by (simp add: memCluster_def memDelete_def del: memView.simps)
  moreover have "memView (w\<lparr>m_objs := filter (\<lambda>p. \<not> (kind_of p = k \<and> obj_key p = key)) (m_objs w)\<rparr>) =
      (memView w)((k, key) := None)"
    by (rule memView_eqI) (use find_filter_other in simp)
  ultimately show "\<exists>w'. k_delete memCluster k key w = (Inr (), w') \<and> memView w' = (memView w)((k, key) := None)"
    by blast
next
  fix ow ob w assume n: "snd (obj_key ob) \<noteq> []" "memView w (kind_of ob, obj_key ob) = None"
  then have "k_create memCluster ow ob w =
      (Inr (snd (obj_key ob)), w\<lparr>m_objs := m_objs w @ [ob], m_time := m_time w + 1\<rparr>)"
    using hasObj_view [of "kind_of ob" "obj_key ob" w]
    by (simp add: memCluster_def memCreate_def namedObj_named Let_def del: memView.simps)
  moreover have "memView (w\<lparr>m_objs := m_objs w @ [ob], m_time := m_time w + 1\<rparr>) =
      (memView w)((kind_of ob, obj_key ob) \<mapsto> ob)"
    by (rule memView_eqI) (use n(2) in \<open>auto simp: find_append split: option.splits\<close>)
  ultimately show "\<exists>w'. k_create memCluster ow ob w = (Inr (snd (obj_key ob)), w') \<and>
      memView w' = (memView w)((kind_of ob, obj_key ob) \<mapsto> ob)" by blast
next
  fix ow ob w assume n: "snd (obj_key ob) \<noteq> []" "memView w (kind_of ob, obj_key ob) \<noteq> None"
  then show "k_create memCluster ow ob w = (Inl (ErrAlreadyExists (nsname_text (obj_key ob))), w)"
    using hasObj_view [of "kind_of ob" "obj_key ob" w]
    by (simp add: memCluster_def memCreate_def namedObj_named Let_def del: memView.simps)
next
  fix ow ob w assume n: "memView w (kind_of ob, obj_key ob) \<noteq> None"
  let ?w = "w\<lparr>m_objs := map (\<lambda>p. if kind_of p = kind_of ob \<and> obj_key p = obj_key ob then ob else p) (m_objs w)\<rparr>"
  have "k_update memCluster ow ob w = (Inr (), ?w)"
    using n hasObj_view [of "kind_of ob" "obj_key ob" w]
    by (simp add: memCluster_def memUpdate_def del: memView.simps)
  moreover have "memView ?w = (memView w)((kind_of ob, obj_key ob) \<mapsto> ob)"
    by (rule memView_eqI) (use n in \<open>simp add: find_replace\<close>)
  ultimately show "\<exists>w'. k_update memCluster ow ob w = (Inr (), w') \<and>
      memView w' = (memView w)((kind_of ob, obj_key ob) \<mapsto> ob)" by blast
next
  fix ow t r m w
  show "memView (k_event memCluster ow t r m w) = memView w"
    by (rule memView_eqI) (simp add: memCluster_def)
qed

end
