(* ===== verification/Address.thy ===== *)
theory Address
  imports TaskOpts
begin

text \<open>
  Module and download addresses (\<open>getForcedGetter\<close>, \<open>sshDetector\<close>, \<open>getParsedAddress\<close> of
  \<open>pkg/controllers/tf_controller.go\<close>), and the JSON texts the controllers put into config
  maps. The two regular expressions are written out as matchers. \<open>go-getter\<close>'s \<open>Detect\<close>
  and \<open>SourceDirSubdir\<close> and the parser and printer of \<open>net/url\<close> are the record \<open>urllib\<close>,
  an argument; nothing is assumed of them.
\<close>

section \<open>The libraries\<close>

text \<open>A parsed URL, as its fields and methods show it to the code.\<close>

record URL =
  u_scheme :: string
  u_host :: string
  u_port :: string          \<comment> \<open>\<open>Port()\<close>\<close>
  u_username :: string      \<comment> \<open>\<open>User.Username()\<close>\<close>
  u_rawQuery :: string
  u_requestURI :: string    \<comment> \<open>\<open>RequestURI()\<close>\<close>
  u_string :: string        \<comment> \<open>\<open>String()\<close>\<close>

type_synonym query = "(string, string list) gomap"

record urllib =
  ul_detect :: "(string \<Rightarrow> goerr + (string \<times> bool)) \<Rightarrow> string \<Rightarrow> string \<Rightarrow> goerr + string"
  ul_sourceDirSubdir :: "string \<Rightarrow> string \<times> string"
  ul_parse :: "string \<Rightarrow> goerr + URL"
  ul_parseQuery :: "string \<Rightarrow> goerr + query"
  ul_encode :: "query \<Rightarrow> string"
  ul_sshURL :: "string \<Rightarrow> string \<Rightarrow> string \<Rightarrow> string \<Rightarrow> string"   \<comment> \<open>user, host, path, raw query\<close>

section \<open>Forced getters\<close>

definition isAlnum :: "char \<Rightarrow> bool" where
  "isAlnum c \<longleftrightarrow> (let n = (of_char c :: nat) in 48 \<le> n \<and> n \<le> 57 \<or> 65 \<le> n \<and> n \<le> 90 \<or> 97 \<le> n \<and> n \<le> 122)"

definition newlineChar :: char where
  "newlineChar = CHR 0x0A"

text \<open>\<open>.+\<close> up to the end of the text: at least one character, none of them a newline.\<close>

definition dotPlus :: "string \<Rightarrow> bool" where
  "dotPlus s \<longleftrightarrow> s \<noteq> [] \<and> newlineChar \<notin> set s"

text \<open>\<open>^([A-Za-z0-9]+)::(.+)$\<close>\<close>

definition forcedMatch :: "string \<Rightarrow> (string \<times> string) option" where
  "forcedMatch s =
    (let f = takeWhile isAlnum s; rest = dropWhile isAlnum s
     in if f \<noteq> [] \<and> hasPrefix rest ''::'' \<and> dotPlus (drop 2 rest) then Some (f, drop 2 rest) else None)"

definition getForcedGetter :: "string \<Rightarrow> string \<times> string" where
  "getForcedGetter src = (case forcedMatch src of Some (forced, src') \<Rightarrow> (forced, src') | None \<Rightarrow> ([], src))"

section \<open>Addresses in the style of scp\<close>

text \<open>\<open>([^:]+):/?(.+)$\<close>: host and path.\<close>

definition hostPathMatch :: "string \<Rightarrow> (string \<times> string) option" where
  "hostPathMatch s =
    (let host = takeWhile (\<lambda>c. c \<noteq> CHR '':'') s; rest = drop (length host) s
     in if host = [] \<or> rest = [] then None
        else let p = tl rest in
          if hasPrefix p ''/'' \<and> dotPlus (tl p) then Some (host, tl p)
          else if dotPlus p then Some (host, p)
          else None)"

text \<open>\<open>^(?:([^@]+)@)?([^:]+):/?(.+)$\<close>, the user first, as the expression prefers it.\<close>

definition sshMatch :: "string \<Rightarrow> (string \<times> string \<times> string) option" where
  "sshMatch s =
    (let user = takeWhile (\<lambda>c. c \<noteq> CHR ''@'') s; rest = drop (length user) s;
         withUser = (if user = [] \<or> rest = [] then None else hostPathMatch (tl rest))
     in case withUser of
          Some (h, p) \<Rightarrow> Some (user, h, p)
        | None \<Rightarrow> map_option (\<lambda>(h, p). ([], h, p)) (hostPathMatch s))"

definition sshDetect :: "urllib \<Rightarrow> string \<Rightarrow> goerr + (string \<times> bool)" where
  "sshDetect ul src =
    (case sshMatch src of
       None \<Rightarrow> Inr ([], False)
     | Some (user, host, path) \<Rightarrow>
         let qidx = length (takeWhile (\<lambda>c. c \<noteq> CHR ''?'') path) in
         if qidx < length path
         then (case ul_parseQuery ul (drop (qidx + 1) path) of
                 Inl err \<Rightarrow> Inl (ErrMsg (''error parsing GitHub SSH URL: '' @ err_text err))
               | Inr q \<Rightarrow> Inr (ul_sshURL ul user host (take qidx path) (ul_encode ul q), True))
         else Inr (ul_sshURL ul user host path [], True))"

section \<open>Parsing an address\<close>

fun splitDoubleSlash :: "string \<Rightarrow> string list" where
  "splitDoubleSlash [] = [[]]"
| "splitDoubleSlash [c] = [[c]]"
| "splitDoubleSlash (c # d # s) =
     (if c = CHR ''/'' \<and> d = CHR ''/'' then [] # splitDoubleSlash s
      else (case splitDoubleSlash (d # s) of [] \<Rightarrow> [[c]] | x # xs \<Rightarrow> (c # x) # xs))"

text \<open>\<open>strings.Split(s, "?")[0]\<close>\<close>

definition beforeQuery :: "string \<Rightarrow> string" where
  "beforeQuery s = hd (splitChar (CHR ''?'') s)"

definition queryGet :: "query \<Rightarrow> string \<Rightarrow> string" where
  "queryGet q key = (case map_of q key of Some (v # _) \<Rightarrow> v | _ \<Rightarrow> [])"

text \<open>The scheme: what the URL says, what the host says, what the user forces; the last wins.\<close>

definition addressScheme :: "URL \<Rightarrow> (string, string) gomap \<Rightarrow> string \<Rightarrow> string" where
  "addressScheme u scmMap forcedDetect =
    (let s0 = u_scheme u;
         s1 = (if ListContainsStr [''github.com''] (u_host u) then ''git'' else s0);
         s2 = (if ListContainsStr (map fst scmMap) (u_host u)
               then (case map_of scmMap (u_host u) of Some t \<Rightarrow> t | None \<Rightarrow> []) else s1)
     in if forcedDetect \<noteq> [] then forcedDetect else s2)"

definition addressPort :: "URL \<Rightarrow> string" where
  "addressPort u =
    (if u_port u = [] then (if u_scheme u = ''ssh'' then ''22'' else if u_scheme u = ''https'' then ''443'' else [])
     else u_port u)"

definition getParsedAddress :: "urllib \<Rightarrow> string \<Rightarrow> string \<Rightarrow> bool \<Rightarrow> (string, string) gomap \<Rightarrow> goerr + ParsedAddress" where
  "getParsedAddress ul address path useAsVar scmMap =
    (case ul_detect ul (sshDetect ul) address ''moduleDir'' of
       Inl err \<Rightarrow> Inl err
     | Inr output \<Rightarrow>
        let (forcedDetect, result) = getForcedGetter output;
            (urlSource, filesSource) = ul_sourceDirSubdir ul result
        in case ul_parse ul urlSource of
             Inl err \<Rightarrow> Inl err
           | Inr parsedURL \<Rightarrow>
             (case ul_parseQuery ul (u_rawQuery parsedURL) of
                Inl err \<Rightarrow> Inl err
              | Inr y \<Rightarrow>
                 let hash = (if queryGet y ''ref'' = [] then ''master'' else queryGet y ''ref'');
                     files = splitDoubleSlash filesSource
                 in Inr \<lparr>pa_detectedScheme = addressScheme parsedURL scmMap forcedDetect,
                      pa_path = path, pa_useAsVar = useAsVar, pa_url = u_string parsedURL,
                      pa_files = (if files = [[]] then [''.''] else files),
                      pa_hash = hash, pa_urlScheme = u_scheme parsedURL,
                      pa_uri = beforeQuery (u_requestURI parsedURL), pa_host = u_host parsedURL,
                      pa_port = addressPort parsedURL, pa_user = u_username parsedURL,
                      pa_repo = beforeQuery (u_string parsedURL)\<rparr>))"

section \<open>JSON\<close>

text \<open>
  \<open>json.Marshal\<close> of the types it is used on. Quotes, backslashes, control characters
  and the three characters of HTML are escaped; bytes above ASCII are copied, as they
  are in valid UTF-8.
\<close>

definition hexDigit :: "nat \<Rightarrow> char" where
  "hexDigit n = (if n < 10 then char_of (48 + n) else char_of (87 + n))"

definition jsonChar :: "char \<Rightarrow> string" where
  "jsonChar c =
    (let n = (of_char c :: nat); u = [CHR 0x5C, CHR ''u'', CHR ''0'', CHR ''0'', hexDigit (n div 16), hexDigit (n mod 16)] in
     if n = 34 \<or> n = 92 then [CHR 0x5C, c]
     else if n = 10 then [CHR 0x5C, CHR ''n'']
     else if n = 13 then [CHR 0x5C, CHR ''r'']
     else if n = 9 then [CHR 0x5C, CHR ''t'']
     else if n = 8 then [CHR 0x5C, CHR ''b'']
     else if n = 12 then [CHR 0x5C, CHR ''f'']
     else if n < 32 \<or> n = 38 \<or> n = 60 \<or> n = 62 then u
     else [c])"

definition jsonString :: "string \<Rightarrow> string" where
  "jsonString s = [CHR 0x22] @ concat (map jsonChar s) @ [CHR 0x22]"

definition jsonField :: "string \<times> string \<Rightarrow> string" where
  "jsonField kv = jsonString (fst kv) @ '':'' @ snd kv"

definition jsonObject :: "(string \<times> string) list \<Rightarrow> string" where
  "jsonObject fs = ''{'' @ str_join (map jsonField fs) '','' @ ''}''"

definition jsonArray :: "string list \<Rightarrow> string" where
  "jsonArray xs = ''['' @ str_join xs '','' @ '']''"

definition configMapSelectorJSON :: "ConfigMapSelector \<Rightarrow> string" where
  "configMapSelectorJSON c =
    jsonObject ([(''name'', jsonString (cms_name c))] @
      (if cms_key c = [] then [] else [(''key'', jsonString (cms_key c))]))"

definition parsedAddressJSON :: "ParsedAddress \<Rightarrow> string" where
  "parsedAddressJSON p = jsonObject
    [(''detect'', jsonString (pa_detectedScheme p)), (''path'', jsonString (pa_path p)),
     (''useAsVar'', bool_text (pa_useAsVar p)), (''url'', jsonString (pa_url p)),
     (''files'', jsonArray (map jsonString (pa_files p))), (''hash'', jsonString (pa_hash p)),
     (''protocol'', jsonString (pa_urlScheme p)), (''uri'', jsonString (pa_uri p)),
     (''host'', jsonString (pa_host p)), (''port'', jsonString (pa_port p)),
     (''user'', jsonString (pa_user p)), (''repo'', jsonString (pa_repo p))]"

section \<open>Properties\<close>

lemma takeWhile_append_stop:
  "(\<forall>c \<in> set xs. P c) \<Longrightarrow> \<not> P y \<Longrightarrow> takeWhile P (xs @ y # ys) = xs \<and> dropWhile P (xs @ y # ys) = y # ys"
  by (induction xs) auto

lemma takeWhile_until: "y \<notin> set xs \<Longrightarrow> takeWhile (\<lambda>c. c \<noteq> y) (xs @ y # ys) = xs"
  by (induction xs) auto

text \<open>A forced getter is split off and nothing else: \<open>f::src\<close> with an alphanumeric \<open>f\<close> gives back
  \<open>f\<close> and \<open>src\<close>, whatever \<open>src\<close> contains.\<close>

theorem getForcedGetter_forced:
  assumes "f \<noteq> []" and "\<forall>c \<in> set f. isAlnum c" and "src \<noteq> []" and "newlineChar \<notin> set src"
  shows "getForcedGetter (f @ ''::'' @ src) = (f, src)"
proof -
  have "\<not> isAlnum CHR '':''" by (simp add: isAlnum_def Let_def)
  then have "takeWhile isAlnum (f @ CHR '':'' # CHR '':'' # src) = f"
      "dropWhile isAlnum (f @ CHR '':'' # CHR '':'' # src) = CHR '':'' # CHR '':'' # src"
    using takeWhile_append_stop [of f isAlnum "CHR '':''" "CHR '':'' # src"] assms(2) by blast+
  then show ?thesis using assms(1,3,4)
    by (simp add: getForcedGetter_def forcedMatch_def dotPlus_def hasPrefix_def Let_def numeral_2_eq_2)
qed

lemma getForcedGetter_forced_witness:
  "getForcedGetter (''git'' @ ''::'' @ ''https://example.com/a.git'') = (''git'', ''https://example.com/a.git'')"
  by (rule getForcedGetter_forced) (simp_all add: isAlnum_def newlineChar_def)

lemma splitDoubleSlash_ne [simp]: "splitDoubleSlash s \<noteq> []"
  by (induction s rule: splitDoubleSlash.induct) (auto split: list.splits)

lemma str_join_first: "str_join ((c # x) # xs) sep = c # str_join (x # xs) sep"
  by (cases xs) auto

text \<open>The files of an address are its subdirectory cut at the double slashes: joined again they are
  the subdirectory, so no part of it is lost or duplicated.\<close>

theorem files_join: "str_join (splitDoubleSlash s) ''//'' = s"
proof (induction s rule: splitDoubleSlash.induct)
  case (3 c d s)
  show ?case
  proof (cases "c = CHR ''/'' \<and> d = CHR ''/''")
    case True
    obtain x xs where "splitDoubleSlash s = x # xs" using splitDoubleSlash_ne by (metis list.exhaust)
    then show ?thesis using True 3(1) by simp
  next
    case False
    obtain x xs where "splitDoubleSlash (d # s) = x # xs" using splitDoubleSlash_ne by (metis list.exhaust)
    then show ?thesis using False 3(2) str_join_first [of c x xs] by auto
  qed
qed simp_all

lemma hostPathMatch_colon:
  assumes "host \<noteq> []" and "CHR '':'' \<notin> set host" and "dotPlus path" and "\<not> hasPrefix path ''/''"
  shows "hostPathMatch (host @ CHR '':'' # path) = Some (host, path)"
proof -
  show ?thesis using takeWhile_until [OF assms(2), of path] assms(1,3,4)
    by (simp add: hostPathMatch_def Let_def)
qed

lemma sshMatch_no_user:
  assumes "CHR ''@'' \<notin> set s"
  shows "sshMatch s = map_option (\<lambda>(h, p). ([], h, p)) (hostPathMatch s)"
proof -
  have "takeWhile (\<lambda>c. c \<noteq> CHR ''@'') s = s" using assms by (auto simp: takeWhile_eq_all_conv)
  show ?thesis unfolding sshMatch_def Let_def \<open>takeWhile _ s = s\<close> by simp
qed

text \<open>An address \<open>user@host:path\<close> is read as written, and one without a user gets the empty user.\<close>

theorem sshMatch_scp:
  assumes "user \<noteq> []" and "CHR ''@'' \<notin> set user" and "host \<noteq> []" and "CHR '':'' \<notin> set host"
    and "CHR ''@'' \<notin> set host" and "dotPlus path" and "CHR ''@'' \<notin> set path" and "\<not> hasPrefix path ''/''"
  shows "sshMatch (user @ ''@'' @ host @ '':'' @ path) = Some (user, host, path) \<and>
    sshMatch (host @ '':'' @ path) = Some ([], host, path)"
proof -
  note hp = hostPathMatch_colon [OF assms(3,4,6,8)]
  have "takeWhile (\<lambda>c. c \<noteq> CHR ''@'') (user @ CHR ''@'' # host @ CHR '':'' # path) = user"
    by (rule takeWhile_until [OF assms(2)])
  then have "sshMatch (user @ CHR ''@'' # host @ CHR '':'' # path) = Some (user, host, path)"
    using hp assms(1) by (simp add: sshMatch_def Let_def)
  moreover have "CHR ''@'' \<notin> set (host @ CHR '':'' # path)" using assms(5,7) by simp
  ultimately show ?thesis using hp sshMatch_no_user by simp
qed

lemma sshMatch_scp_witness:
  "sshMatch (''git'' @ ''@'' @ ''example.com'' @ '':'' @ ''org/repo.git'') = Some (''git'', ''example.com'', ''org/repo.git'')"
  using sshMatch_scp [of "''git''" "''example.com''" "''org/repo.git''"]
  by (simp add: dotPlus_def newlineChar_def hasPrefix_def)

end
