(* ===== verification/Controller.thy ===== *)
theory Controller
  imports Objects Address
begin

text \<open>
  The state one reconciliation works on, for either controller: the cluster, the
  process's cache (\<open>go-cache\<close>, a map whose entries never expire here), the goroutines
  started, and the resource the pointer \<open>tf\<close> (or \<open>tofu\<close>) points to, which the steps
  change in place and which survives an error. Then what both controllers share: the
  node selectors taken over from the controller's own deployment
  (\<open>cacheNodeSelectors\<close>, \<open>getNodeSelectorsFromCache\<close>), deferred calls, and the parts of
  \<open>setupAndRun\<close> and of the ssh configuration that do not depend on the resource type.
\<close>

section \<open>State\<close>

datatype cached =
    CachedText string                       \<comment> \<open>the owner of a reconcile lock\<close>
  | CachedAffinity "opaque option"
  | CachedNodeSelector "(string, string) gomap"
  | CachedTolerations "opaque list"

datatype goroutine =
    ReapPlugins owner nsname nat            \<comment> \<open>\<open>reapPlugins(tf, attempt)\<close>\<close>
  | ReapOldGenerationPods owner nsname nat  \<comment> \<open>\<open>backgroundReapOldGenerationPods(tf, attempt)\<close>\<close>
  | CreateJob owner TaskOptions             \<comment> \<open>the function literal of \<open>createPluginJob\<close>\<close>

record ('w, 'r) rstate =
  r_cluster :: 'w
  r_cache :: "(string, cached) gomap"
  r_spawned :: "goroutine list"
  r_res :: 'r

text \<open>An operation of the client, run in the larger state.\<close>

definition on_cluster :: "('w, 'a) io \<Rightarrow> (('w, 'r) rstate, 'a) io" where
  "on_cluster m = (\<lambda>s. case m (r_cluster s) of (r, w') \<Rightarrow> (r, s\<lparr>r_cluster := w'\<rparr>))"

definition get_state :: "('s \<Rightarrow> 'a) \<Rightarrow> ('s, 'a) io" where
  "get_state f = (\<lambda>s. (Inr (f s), s))"

definition spawn :: "goroutine \<Rightarrow> (('w, 'r) rstate, unit) io" where
  "spawn g = io_modify (\<lambda>s. s\<lparr>r_spawned := r_spawned s @ [g]\<rparr>)"

definition cacheSet :: "string \<Rightarrow> cached \<Rightarrow> (('w, 'r) rstate, unit) io" where
  "cacheSet k v = io_modify (\<lambda>s. s\<lparr>r_cache := AList.update k v (r_cache s)\<rparr>)"

definition cacheDelete :: "string \<Rightarrow> (('w, 'r) rstate, unit) io" where
  "cacheDelete k = io_modify (\<lambda>s. s\<lparr>r_cache := AList.delete k (r_cache s)\<rparr>)"

definition setRes :: "'r \<Rightarrow> (('w, 'r) rstate, unit) io" where
  "setRes x = io_modify (\<lambda>s. s\<lparr>r_res := x\<rparr>)"

definition modifyRes :: "('r \<Rightarrow> 'r) \<Rightarrow> (('w, 'r) rstate, unit) io" where
  "modifyRes f = io_modify (\<lambda>s. s\<lparr>r_res := f (r_res s)\<rparr>)"

text \<open>
  \<open>defer d\<close> followed by \<open>m\<close>: \<open>d\<close> runs when \<open>m\<close> returns, also by an error or a panic. Its
  own error is dropped, its panic goes on.
\<close>

definition io_finally :: "('s, 'a) io \<Rightarrow> ('s, 'b) io \<Rightarrow> ('s, 'a) io" where
  "io_finally m d = (\<lambda>s. case m s of (r, s') \<Rightarrow>
     (case d s' of
        (Inl e, s'') \<Rightarrow> (if is_panic e then Inl e else r, s'')
      | (Inr _, s'') \<Rightarrow> (r, s'')))"

lemma on_cluster_run: "m (r_cluster s) = (r, w') \<Longrightarrow> on_cluster m s = (r, s\<lparr>r_cluster := w'\<rparr>)"
  by (simp add: on_cluster_def)

lemma get_state_run [simp, io_simps]: "get_state f s = (Inr (f s), s)"
  by (simp add: get_state_def)

lemma spawn_run [simp, io_simps]: "spawn g s = (Inr (), s\<lparr>r_spawned := r_spawned s @ [g]\<rparr>)"
  by (simp add: spawn_def)

lemma cacheSet_run [simp, io_simps]: "cacheSet k v s = (Inr (), s\<lparr>r_cache := AList.update k v (r_cache s)\<rparr>)"
  by (simp add: cacheSet_def)

lemma cacheDelete_run [simp, io_simps]: "cacheDelete k s = (Inr (), s\<lparr>r_cache := AList.delete k (r_cache s)\<rparr>)"
  by (simp add: cacheDelete_def)

lemma setRes_run [simp, io_simps]: "setRes x s = (Inr (), s\<lparr>r_res := x\<rparr>)"
  by (simp add: setRes_def)

lemma modifyRes_run [simp, io_simps]: "modifyRes f s = (Inr (), s\<lparr>r_res := f (r_res s)\<rparr>)"
  by (simp add: modifyRes_def)

section \<open>Invariants of state-passing code\<close>

text \<open>\<open>keeps P m\<close>: every run of \<open>m\<close>, failing or not, keeps \<open>P\<close>.\<close>

definition keeps :: "('s \<Rightarrow> bool) \<Rightarrow> ('s, 'a) io \<Rightarrow> bool" where
  "keeps P m \<longleftrightarrow> (\<forall>s. P s \<longrightarrow> P (snd (m s)))"

named_theorems keeps_intros \<open>what composed operations keep\<close>

lemma keeps_return [keeps_intros]: "keeps P (io_return x)"
  by (simp add: keeps_def)

lemma keeps_throw [keeps_intros]: "keeps P (io_throw e)"
  by (simp add: keeps_def)

lemma keeps_get_state [keeps_intros]: "keeps P (get_state f)"
  by (simp add: keeps_def)

lemma keeps_bind [keeps_intros]:
  "keeps P m \<Longrightarrow> (\<And>x. keeps P (f x)) \<Longrightarrow> keeps P (io_bind m f)"
  by (fastforce simp: keeps_def io_bind_def split: prod.splits sum.splits)

lemma keeps_try [keeps_intros]:
  "keeps P m \<Longrightarrow> (\<And>e. keeps P (h e)) \<Longrightarrow> (\<And>x. keeps P (f x)) \<Longrightarrow> keeps P (io_try m h f)"
  by (fastforce simp: keeps_def io_try_def split: prod.splits sum.splits)

lemma keeps_if [keeps_intros]:
  "(b \<Longrightarrow> keeps P m) \<Longrightarrow> (\<not> b \<Longrightarrow> keeps P n) \<Longrightarrow> keeps P (if b then m else n)"
  by simp

lemma keeps_bool [keeps_intros]:
  "keeps P m \<Longrightarrow> keeps P n \<Longrightarrow> keeps P (case b of True \<Rightarrow> m | False \<Rightarrow> n)"
  by (cases b) auto

lemma keeps_option [keeps_intros]:
  "keeps P m \<Longrightarrow> (\<And>x. keeps P (f x)) \<Longrightarrow> keeps P (case opt of None \<Rightarrow> m | Some x \<Rightarrow> f x)"
  by (cases opt) auto

lemma keeps_sum [keeps_intros]:
  "(\<And>e. keeps P (f e)) \<Longrightarrow> (\<And>x. keeps P (g x)) \<Longrightarrow> keeps P (case r of Inl e \<Rightarrow> f e | Inr x \<Rightarrow> g x)"
  by (cases r) auto

lemma keeps_list [keeps_intros]:
  "keeps P m \<Longrightarrow> (\<And>x xs. keeps P (f x xs)) \<Longrightarrow> keeps P (case l of [] \<Rightarrow> m | x # xs \<Rightarrow> f x xs)"
  by (cases l) auto

lemma keeps_prod [keeps_intros]:
  "(\<And>x y. keeps P (f x y)) \<Longrightarrow> keeps P (case p of (x, y) \<Rightarrow> f x y)"
  by (cases p) auto

lemma keeps_state: "(\<And>t. keeps P (m t)) \<Longrightarrow> keeps P (\<lambda>s. m s s)"
  by (simp add: keeps_def)

lemma keeps_seq_Nil [keeps_intros]: "keeps P (io_seq [])"
  by (simp add: keeps_def)

lemma keeps_seq_Cons [keeps_intros]: "keeps P m \<Longrightarrow> keeps P (io_seq ms) \<Longrightarrow> keeps P (io_seq (m # ms))"
  by (fastforce simp: keeps_def split: prod.splits sum.splits)

lemma keeps_seq: "(\<And>m. m \<in> set ms \<Longrightarrow> keeps P m) \<Longrightarrow> keeps P (io_seq ms)"
  by (induction ms) (auto simp del: io_seq.simps intro: keeps_seq_Nil keeps_seq_Cons)

lemma keeps_for [keeps_intros]: "(\<And>x. keeps P (body x)) \<Longrightarrow> keeps P (io_for xs body)"
  unfolding io_for_def by (rule keeps_seq) auto

lemma keeps_finally [keeps_intros]: "keeps P m \<Longrightarrow> keeps P d \<Longrightarrow> keeps P (io_finally m d)"
  by (fastforce simp: keeps_def io_finally_def split: prod.splits sum.splits)

lemma keeps_modify: "(\<And>s. P s \<Longrightarrow> P (g s)) \<Longrightarrow> keeps P (io_modify g)"
  by (simp add: keeps_def)

lemma keepsD: "keeps P m \<Longrightarrow> P s \<Longrightarrow> m s = (r, s') \<Longrightarrow> P s'"
  by (metis keeps_def snd_conv)

text \<open>What does not look at a part of the state keeps everything about the rest.\<close>

definition on_cache :: "((string, cached) gomap \<Rightarrow> bool) \<Rightarrow> ('w, 'r) rstate \<Rightarrow> bool" where
  "on_cache P s = P (r_cache s)"

lemma keeps_cache_on_cluster [keeps_intros]: "keeps (on_cache P) (on_cluster m)"
  by (simp add: keeps_def on_cache_def on_cluster_def split: prod.splits)

lemma keeps_cache_spawn [keeps_intros]: "keeps (on_cache P) (spawn g)"
  by (simp add: keeps_def on_cache_def)

lemma keeps_cache_setRes [keeps_intros]: "keeps (on_cache P) (setRes x)" "keeps (on_cache P) (modifyRes f)"
  by (simp_all add: keeps_def on_cache_def)

section \<open>Node selectors of the controller's deployment\<close>

text \<open>
  The control plane: the owner references (kind and name) of a pod and of a replica
  set, the affinity, node selector and tolerations of a deployment, and the two
  environment variables.
\<close>

record 'w controlPlane =
  cp_podNamespace :: string
  cp_podName :: string
  cp_pod_owners :: "nsname \<Rightarrow> ('w, (string \<times> string) list) io"
  cp_replicaSet_owners :: "nsname \<Rightarrow> ('w, (string \<times> string) list) io"
  cp_deployment :: "nsname \<Rightarrow> ('w, opaque option \<times> (string, string) gomap \<times> opaque list) io"

text \<open>Every failure on the way is logged and ends the function without an error.\<close>

definition orGiveUp :: "('s, 'a) io \<Rightarrow> ('a \<Rightarrow> ('s, unit) io) \<Rightarrow> ('s, unit) io" where
  "orGiveUp m f = io_try m (\<lambda>_. io_return ()) f"

definition singleOwner :: "string \<Rightarrow> (string \<times> string) list \<Rightarrow> string option" where
  "singleOwner kindName owners =
    (case owners of [(k, name)] \<Rightarrow> if k = kindName then Some name else None | _ \<Rightarrow> None)"

definition cacheIf :: "bool \<Rightarrow> string \<Rightarrow> cached \<Rightarrow> (('w, 'r) rstate, unit) io" where
  "cacheIf b k v = (if b then cacheSet k v else io_return ())"

definition selectorsCached :: "reconciler \<Rightarrow> (string, cached) gomap \<Rightarrow> bool" where
  "selectorsCached rc cache \<longleftrightarrow>
    (rc_inheritAffinity rc \<longrightarrow> map_of cache (rc_affinityCacheKey rc) \<noteq> None) \<and>
    (rc_inheritNodeSelector rc \<longrightarrow> map_of cache (rc_nodeSelectorCacheKey rc) \<noteq> None) \<and>
    (rc_inheritTolerations rc \<longrightarrow> map_of cache (rc_tolerationsCacheKey rc) \<noteq> None)"

definition cacheNodeSelectors :: "'w controlPlane \<Rightarrow> reconciler \<Rightarrow> (('w, 'r) rstate, unit) io" where
  "cacheNodeSelectors cp rc = (\<lambda>s.
    (if \<not> rc_inheritAffinity rc \<and> \<not> rc_inheritNodeSelector rc \<and> \<not> rc_inheritTolerations rc then io_return ()
     else if selectorsCached rc (r_cache s) then io_return ()
     else if cp_podNamespace cp = [] then io_return ()
     else if cp_podName cp = [] then io_return ()
     else
       orGiveUp (on_cluster (cp_pod_owners cp (cp_podNamespace cp, cp_podName cp))) (\<lambda>podOwners.
       case singleOwner ''ReplicaSet'' podOwners of None \<Rightarrow> io_return () | Some replicaSetName \<Rightarrow>
       orGiveUp (on_cluster (cp_replicaSet_owners cp (cp_podNamespace cp, replicaSetName))) (\<lambda>rsOwners.
       case singleOwner ''Deployment'' rsOwners of None \<Rightarrow> io_return () | Some deploymentName \<Rightarrow>
       orGiveUp (on_cluster (cp_deployment cp (cp_podNamespace cp, deploymentName))) (\<lambda>(affinity, nodeSelector, tolerations).
       io_seq
         [cacheIf (rc_inheritAffinity rc) (rc_affinityCacheKey rc) (CachedAffinity affinity),
          cacheIf (rc_inheritNodeSelector rc) (rc_nodeSelectorCacheKey rc) (CachedNodeSelector nodeSelector),
          cacheIf (rc_inheritTolerations rc) (rc_tolerationsCacheKey rc) (CachedTolerations tolerations)])))) s)"

text \<open>The type assertions on what the cache holds panic when the type is another.\<close>

fun sum_bind :: "'e + 'a \<Rightarrow> ('a \<Rightarrow> 'e + 'b) \<Rightarrow> 'e + 'b" where
  "sum_bind (Inl e) f = Inl e"
| "sum_bind (Inr x) f = f x"

definition badAssertion :: goerr where
  "badAssertion = ErrPanic ''interface conversion''"

definition getNodeSelectorsFromCache :: "reconciler \<Rightarrow> (string, cached) gomap
    \<Rightarrow> goerr + (opaque option \<times> (string, string) gomap \<times> opaque list)" where
  "getNodeSelectorsFromCache rc cache =
    sum_bind (case (if rc_inheritAffinity rc then map_of cache (rc_affinityCacheKey rc) else None) of
        Some (CachedAffinity a) \<Rightarrow> Inr a | None \<Rightarrow> Inr None | _ \<Rightarrow> Inl badAssertion) (\<lambda>affinity.
    sum_bind (case (if rc_inheritNodeSelector rc then map_of cache (rc_nodeSelectorCacheKey rc) else None) of
        Some (CachedNodeSelector n) \<Rightarrow> Inr n | None \<Rightarrow> Inr [] | _ \<Rightarrow> Inl badAssertion) (\<lambda>nodeSelector.
    sum_bind (case (if rc_inheritTolerations rc then map_of cache (rc_tolerationsCacheKey rc) else None) of
        Some (CachedTolerations t) \<Rightarrow> Inr t | None \<Rightarrow> Inr [] | _ \<Rightarrow> Inl badAssertion) (\<lambda>tolerations.
    Inr (affinity, nodeSelector, tolerations))))"

text \<open>
  The cache is well typed for a controller: its three keys differ from each other and
  from every lock, and hold values of their types.
\<close>

definition lockSuffix :: string where
  "lockSuffix = ''-reconcile-lock''"

definition keysOk :: "reconciler \<Rightarrow> bool" where
  "keysOk rc \<longleftrightarrow> distinct [rc_affinityCacheKey rc, rc_nodeSelectorCacheKey rc, rc_tolerationsCacheKey rc] \<and>
    (\<forall>k \<in> {rc_affinityCacheKey rc, rc_nodeSelectorCacheKey rc, rc_tolerationsCacheKey rc}. \<not> hasSuffix k lockSuffix)"

definition cacheTyped :: "reconciler \<Rightarrow> (string, cached) gomap \<Rightarrow> bool" where
  "cacheTyped rc cache \<longleftrightarrow>
    (\<forall>v. map_of cache (rc_affinityCacheKey rc) = Some v \<longrightarrow> (\<exists>a. v = CachedAffinity a)) \<and>
    (\<forall>v. map_of cache (rc_nodeSelectorCacheKey rc) = Some v \<longrightarrow> (\<exists>n. v = CachedNodeSelector n)) \<and>
    (\<forall>v. map_of cache (rc_tolerationsCacheKey rc) = Some v \<longrightarrow> (\<exists>t. v = CachedTolerations t)) \<and>
    (\<forall>k v. hasSuffix k lockSuffix \<longrightarrow> map_of cache k = Some v \<longrightarrow> (\<exists>ow. v = CachedText ow))"

lemma cacheTyped_lock:
  assumes "keysOk rc" and "cacheTyped rc cache" and "hasSuffix k lockSuffix"
  shows "cacheTyped rc (AList.update k (CachedText ow) cache)" and "cacheTyped rc (AList.delete k cache)"
  using assms unfolding cacheTyped_def keysOk_def by auto

lemma cacheTyped_keys:
  assumes "keysOk rc" and "cacheTyped rc cache"
  shows "cacheTyped rc (AList.update (rc_affinityCacheKey rc) (CachedAffinity a) cache)"
    and "cacheTyped rc (AList.update (rc_nodeSelectorCacheKey rc) (CachedNodeSelector n) cache)"
    and "cacheTyped rc (AList.update (rc_tolerationsCacheKey rc) (CachedTolerations t) cache)"
  using assms unfolding cacheTyped_def keysOk_def by auto

lemma getNodeSelectors_typed:
  assumes "cacheTyped rc cache"
  shows "\<exists>r. getNodeSelectorsFromCache rc cache = Inr r"
  using assms unfolding cacheTyped_def getNodeSelectorsFromCache_def
  by (auto split: option.splits)

lemma cacheIf_run: "cacheIf b k v s = (Inr (), if b then s\<lparr>r_cache := AList.update k v (r_cache s)\<rparr> else s)"
  by (simp add: cacheIf_def)

lemma keeps_cacheIf [keeps_intros]:
  "(\<And>c. P c \<Longrightarrow> P (AList.update k v c)) \<Longrightarrow> keeps (on_cache P) (cacheIf b k v)"
  by (simp add: keeps_def on_cache_def cacheIf_run)

lemma keeps_orGiveUp [keeps_intros]:
  "keeps P m \<Longrightarrow> (\<And>x. keeps P (f x)) \<Longrightarrow> keeps P (orGiveUp m f)"
  unfolding orGiveUp_def by (intro keeps_intros)

lemma cacheNodeSelectors_keeps:
  assumes "\<And>a c. P c \<Longrightarrow> P (AList.update (rc_affinityCacheKey rc) (CachedAffinity a) c)"
    and "\<And>n c. P c \<Longrightarrow> P (AList.update (rc_nodeSelectorCacheKey rc) (CachedNodeSelector n) c)"
    and "\<And>t c. P c \<Longrightarrow> P (AList.update (rc_tolerationsCacheKey rc) (CachedTolerations t) c)"
  shows "keeps (on_cache P) (cacheNodeSelectors cp rc)"
  unfolding cacheNodeSelectors_def by (rule keeps_state) (intro keeps_intros assms)

end
