(* ===== verification/StageMachine.thy ===== *)
theory StageMachine
  imports TaskFlow
begin

text \<open>
  What \<open>checkSetNewStage\<close> of either controller promises, apart from the type of the
  resource: \<open>stage_law\<close> lists the only ways a resource may get a new stage, after the
  rules in the comment of \<open>checkSetNewStage\<close>. \<open>stage_trace\<close> is the life of one
  resource under a controller that moves its stages; the locale \<open>stage_controller\<close>
  is the contract both controllers are shown to keep, and its lemmas are what
  follows from the contract alone.
\<close>

section \<open>The law\<close>

text \<open>The first tasks a retry, a new generation or a restart may lead to.\<close>

definition entryTasks :: "TaskName list" where
  "entryTasks = [RunSetup, RunInit, RunSetupDelete, RunInitDelete]"

text \<open>
  \<open>stage_law g cur st\<close>: a resource of generation \<open>g\<close> whose current stage is \<open>cur\<close> may get
  the new stage \<open>st\<close>.
\<close>

inductive stage_law :: "int \<Rightarrow> Stage \<Rightarrow> Stage \<Rightarrow> bool" where
  Retry: "stg_generation cur = g \<Longrightarrow> stg_generation st = g \<Longrightarrow> stg_state st = StateInitializing \<Longrightarrow>
    stg_taskType st \<in> set entryTasks \<Longrightarrow> stage_law g cur st"
| NewGeneration: "stg_generation cur \<noteq> g \<Longrightarrow> stg_generation st = g \<Longrightarrow> stg_state st = StateInitializing \<Longrightarrow>
    stg_taskType st \<in> {RunSetup, RunSetupDelete} \<Longrightarrow>
    \<not> (stg_interruptible cur = CanNotBeInterrupt \<and> stg_state cur = StateInProgress) \<Longrightarrow> stage_law g cur st"
| Next: "stg_generation cur = g \<Longrightarrow> stg_generation st = g \<Longrightarrow> stg_state cur = StateComplete \<Longrightarrow>
    stg_taskType cur \<noteq> RunNil \<Longrightarrow> set defaultTasks \<subseteq> set c \<Longrightarrow>
    stg_taskType st = nextTask (stg_taskType cur) c \<Longrightarrow>
    stg_state st = (if stg_taskType st = RunNil then StateComplete else StateInitializing) \<Longrightarrow>
    stage_law g cur st"
| Restart: "stg_generation cur = g \<Longrightarrow> stg_generation st = g \<Longrightarrow> stg_state cur = StateFailed \<Longrightarrow>
    set defaultTasks \<subseteq> set c \<Longrightarrow> stg_state st = StateInitializing \<Longrightarrow>
    stg_taskType cur = RunApply \<and> stg_taskType st = nextTask RunPostInit c \<or>
    stg_taskType cur = RunApplyDelete \<and> stg_taskType st = nextTask RunPostInitDelete c \<Longrightarrow>
    stage_law g cur st"

inductive_cases stage_lawE: "stage_law g cur st"

section \<open>The tasks behind a plan\<close>

text \<open>For each of the tasks that act on a plan, the plan and the tasks in between.\<close>

definition planOf :: "TaskName \<Rightarrow> TaskName option" where
  "planOf t =
    (if t \<in> {RunPostPlan, RunPreApply, RunApply} then Some RunPlan
     else if t \<in> {RunPostPlanDelete, RunPreApplyDelete, RunApplyDelete} then Some RunPlanDelete
     else None)"

text \<open>The scripts a resource may have run between a plan and its apply.\<close>

definition between :: "TaskName \<Rightarrow> TaskName list" where
  "between p =
    (if p = RunPlan then [RunPostPlan, RunPreApply]
     else if p = RunPlanDelete then [RunPostPlanDelete, RunPreApplyDelete] else [])"

lemma planOf_between: "t \<in> set (between p) \<Longrightarrow> planOf t = Some p"
  by (auto simp: between_def planOf_def split: if_splits)

lemma planOf_entry: "t \<in> set entryTasks \<Longrightarrow> planOf t = None"
  by (auto simp: planOf_def entryTasks_def)

text \<open>
  The successor of a task lies behind its plan only if the task is that plan or lies
  between it and the apply: the built-in tasks cannot be configured away.
\<close>

lemma planOf_nextTask:
  assumes "set defaultTasks \<subseteq> set c" and "planOf (nextTask t c) = Some p"
  shows "t = p \<or> t \<in> set (between p)"
proof -
  have d: "RunSetup \<in> set c" "RunInit \<in> set c" "RunPlan \<in> set c" "RunApply \<in> set c"
    "RunSetupDelete \<in> set c" "RunInitDelete \<in> set c" "RunPlanDelete \<in> set c" "RunApplyDelete \<in> set c"
    using assms(1) by (auto simp: defaultTasks_def)
  have "\<forall>t \<in> set tasksInOrder. \<forall>p. planOf (nextTask t c) = Some p \<longrightarrow> t = p \<or> t \<in> set (between p)"
    using d by (simp add: nextTask_def order_defs planOf_def between_def)
  moreover have "\<forall>t \<in> set deleteTasksInOrder. \<forall>p. planOf (nextTask t c) = Some p \<longrightarrow> t = p \<or> t \<in> set (between p)"
    using d by (simp add: nextTask_def order_defs planOf_def between_def)
  moreover have "planOf (nextTask t c) = None" if "t \<notin> set tasksInOrder" "t \<notin> set deleteTasksInOrder"
    using that by (simp add: nextTask_def planOf_def)
  ultimately show ?thesis using assms(2) by (metis option.distinct(1))
qed

lemma planOf_restart:
  assumes "set defaultTasks \<subseteq> set c"
  shows "planOf (nextTask RunPostInit c) = None" and "planOf (nextTask RunPostInitDelete c) = None"
proof -
  have "\<not> (t = p \<or> t \<in> set (between p))" if "planOf u = Some p" "t = RunPostInit \<or> t = RunPostInitDelete" for t u p
    using that by (auto simp: planOf_def between_def split: if_splits)
  then show "planOf (nextTask RunPostInit c) = None" "planOf (nextTask RunPostInitDelete c) = None"
    using planOf_nextTask [OF assms] by (metis not_Some_eq)+
qed

section \<open>The life of a resource\<close>

text \<open>
  The current stage, and before it the stages the resource has left, latest first,
  each as it was when it was left. A step is either a move of the controller
  (\<open>adv\<close>) or anything that keeps the stage's generation and task: the controller
  recording the state of the pod, a user changing the resource, another
  reconciliation.
\<close>

inductive stage_step :: "(Stage \<Rightarrow> Stage \<Rightarrow> bool) \<Rightarrow> Stage \<times> Stage list \<Rightarrow> Stage \<times> Stage list \<Rightarrow> bool"
  for adv where
  Advance: "adv cur st \<Longrightarrow> stage_step adv (cur, hist) (st, cur # hist)"
| Observe: "stg_generation cur' = stg_generation cur \<Longrightarrow> stg_taskType cur' = stg_taskType cur \<Longrightarrow>
    stage_step adv (cur, hist) (cur', hist)"

inductive stage_trace :: "(Stage \<Rightarrow> Stage \<Rightarrow> bool) \<Rightarrow> Stage \<times> Stage list \<Rightarrow> bool" for adv where
  Start: "stg_taskType st = RunSetup \<Longrightarrow> stage_trace adv (st, [])"
| Step: "stage_trace adv s \<Longrightarrow> stage_step adv s s' \<Longrightarrow> stage_trace adv s'"

text \<open>
  The stages a resource has left end, latest first, with scripts between plan and
  apply and the plan \<open>p\<close> itself, all completed and of generation \<open>g\<close>.
\<close>

fun plan_done :: "TaskName \<Rightarrow> int \<Rightarrow> Stage list \<Rightarrow> bool" where
  "plan_done p g [] = False"
| "plan_done p g (m # hist) \<longleftrightarrow>
     stg_state m = StateComplete \<and> stg_generation m = g \<and>
     (stg_taskType m = p \<or> stg_taskType m \<in> set (between p) \<and> plan_done p g hist)"

text \<open>The current task, where it acts on a plan, acts on one that was made for it.\<close>

definition planned :: "Stage \<times> Stage list \<Rightarrow> bool" where
  "planned s =
    (case planOf (stg_taskType (fst s)) of None \<Rightarrow> True
     | Some p \<Rightarrow> plan_done p (stg_generation (fst s)) (snd s))"

locale stage_controller =
  fixes adv :: "Stage \<Rightarrow> Stage \<Rightarrow> bool"
  assumes lawful: "adv cur st \<Longrightarrow> \<exists>g. stage_law g cur st"
begin

lemma advance_plan:
  assumes "adv cur st" and "planOf (stg_taskType st) = Some p"
  shows "stg_state cur = StateComplete \<and> stg_generation cur = stg_generation st \<and>
    (stg_taskType cur = p \<or> stg_taskType cur \<in> set (between p))"
proof -
  obtain g where "stage_law g cur st" using lawful [OF assms(1)] by blast
  then show ?thesis
  proof (cases rule: stage_law.cases)
    case Retry
    then show ?thesis using assms(2) planOf_entry by simp
  next
    case NewGeneration
    then show ?thesis using assms(2) planOf_entry [of "stg_taskType st"] by (auto simp: entryTasks_def)
  next
    case (Next c)
    then show ?thesis using planOf_nextTask [of c "stg_taskType cur" p] assms(2) by simp
  next
    case (Restart c)
    then show ?thesis using planOf_restart [of c] assms(2) by (metis not_Some_eq)
  qed
qed

lemma planned_step:
  assumes "planned s" and "stage_step adv s s'"
  shows "planned s'"
  using assms(2,1)
proof cases
  case (Observe cur' cur hist)
  then show ?thesis using assms(1) by (simp add: planned_def split: option.splits)
next
  case (Advance cur st hist)
  show ?thesis
  proof (cases "planOf (stg_taskType st)")
    case None
    then show ?thesis using Advance by (simp add: planned_def)
  next
    case (Some p)
    note a = advance_plan [OF Advance(3) Some]
    have "stg_taskType cur \<in> set (between p) \<Longrightarrow> plan_done p (stg_generation cur) hist"
      using assms(1) Advance(1) planOf_between by (simp add: planned_def)
    then show ?thesis using a Some Advance(2) by (auto simp: planned_def)
  qed
qed

lemma trace_planned: "stage_trace adv s \<Longrightarrow> planned s"
proof (induction rule: stage_trace.induct)
  case (Start st)
  then show ?case by (simp add: planned_def planOf_def)
next
  case (Step s s')
  then show ?case using planned_step by blast
qed

text \<open>The same for the two applies, written out.\<close>

lemma trace_apply:
  assumes "stage_trace adv (cur, hist)" and "stg_taskType cur = RunApply"
  shows "plan_done RunPlan (stg_generation cur) hist"
  using trace_planned [OF assms(1)] assms(2) by (simp add: planned_def planOf_def)

lemma trace_apply_delete:
  assumes "stage_trace adv (cur, hist)" and "stg_taskType cur = RunApplyDelete"
  shows "plan_done RunPlanDelete (stg_generation cur) hist"
  using trace_planned [OF assms(1)] assms(2) by (simp add: planned_def planOf_def)

end

end
