(* ===== verification/TfStage.thy ===== *)
theory TfStage
  imports MemCluster StageMachine
begin

text \<open>
  How a \<open>Terraform\<close> resource moves from stage to stage
  (\<open>pkg/controllers/tf_controller.go\<close>): \<open>newStage\<close>, \<open>checkSetNewStage\<close>, the marks
  \<open>reconcile\<close> sets before it asks for a new stage (deletion, retry), the finalizers
  and the locks on git secrets. \<open>checkSetNewStage\<close> implements \<open>stage_law\<close>, and the
  locale \<open>stage_controller\<close> is interpreted on it.
\<close>

section \<open>Changing parts of a resource\<close>

text \<open>Assignments \<open>tf.Status.X = v\<close> through the pointer.\<close>

definition tfSetStatus :: "Terraform \<Rightarrow> TerraformStatus \<Rightarrow> Terraform" where
  "tfSetStatus tf s = tf\<lparr>tf_status := s\<rparr>"

definition tfSetPhase :: "Terraform \<Rightarrow> StatusPhase \<Rightarrow> Terraform" where
  "tfSetPhase tf p = tf\<lparr>tf_status := (tf_status tf)\<lparr>tfst_phase := p\<rparr>\<rparr>"

definition tfSetStage :: "Terraform \<Rightarrow> Stage \<Rightarrow> Terraform" where
  "tfSetStage tf st = tf\<lparr>tf_status := (tf_status tf)\<lparr>tfst_stage := st\<rparr>\<rparr>"

definition tfSetPlugins :: "Terraform \<Rightarrow> TaskName list \<Rightarrow> Terraform" where
  "tfSetPlugins tf ps = tf\<lparr>tf_status := (tf_status tf)\<lparr>tfst_pluginsStarted := ps\<rparr>\<rparr>"

abbreviation tfStage :: "Terraform \<Rightarrow> Stage" where
  "tfStage tf \<equiv> tfst_stage (tf_status tf)"

abbreviation tfPhase :: "Terraform \<Rightarrow> StatusPhase" where
  "tfPhase tf \<equiv> tfst_phase (tf_status tf)"

lemmas tfSet_defs = tfSetStatus_def tfSetPhase_def tfSetStage_def tfSetPlugins_def

section \<open>New stages\<close>

definition newStage :: "int \<Rightarrow> Terraform \<Rightarrow> TaskName \<Rightarrow> string \<Rightarrow> Interruptible \<Rightarrow> StageState \<Rightarrow> Stage \<times> Terraform" where
  "newStage now tf taskType reason interruptible stageState =
    (let tf' = (if reason = ''GENERATION_CHANGE'' then tfSetPhase (tfSetPlugins tf []) PhaseInitializing else tf);
         startTime = now;
         stopTime = (if stageState = StateComplete then startTime else 0)
     in (\<lparr>stg_generation = tf_generation tf', stg_state = stageState, stg_taskType = taskType,
          stg_interruptible = interruptible, stg_reason = reason, stg_startTime = startTime,
          stg_stopTime = stopTime, stg_message = [], stg_podName = [], stg_podUID = []\<rparr>, tf'))"

text \<open>The last lines of \<open>checkSetNewStage\<close>: a new stage, or nil.\<close>

definition setNewStage :: "'w kube \<Rightarrow> Terraform \<Rightarrow> TaskName \<Rightarrow> string \<Rightarrow> Interruptible \<Rightarrow> StageState
    \<Rightarrow> ('w, Stage option \<times> Terraform) io" where
  "setNewStage cl tf podType reason interruptible stageState = (\<lambda>w.
    let (st, tf') = newStage (k_now cl w) tf podType reason interruptible stageState
    in (Inr (Some st, tf'), w))"

definition noNewStage :: "Terraform \<Rightarrow> ('w, Stage option \<times> Terraform) io" where
  "noNewStage tf = io_return (None, tf)"

definition deletePhases :: "string list" where
  "deletePhases = [PhaseDeleted, PhaseInitDelete, PhaseDeleting]"

text \<open>The branch of a failed apply: the workflow restarts when its pod is gone.\<close>

definition restartWhenPodGone :: "'w kube \<Rightarrow> Terraform \<Rightarrow> string \<Rightarrow> TaskName \<Rightarrow> TaskName list
    \<Rightarrow> ('w, Stage option \<times> Terraform) io" where
  "restartWhenPodGone cl tf reason after configuredTasks =
    io_try (k_exists cl PodKind (tf_namespace tf, stg_podName (tfStage tf)))
      (\<lambda>err. if IsNotFound err
         then let podType = nextTask after configuredTasks
              in setNewStage cl tf podType reason (isTaskInterruptable podType) StateInitializing
         else noNewStage tf)
      (\<lambda>_. noNewStage tf)"

definition checkSetNewStage :: "'w kube \<Rightarrow> bool \<Rightarrow> Terraform \<Rightarrow> ('w, Stage option \<times> Terraform) io" where
  "checkSetNewStage cl isRetry tf =
    (let configuredTasks = getConfiguredTasks (Some (tfs_taskOptions (tf_spec tf)));
         isToBeDeletedOrIsDeleting = ListContainsStr deletePhases (tfPhase tf);
         initDelete = (tfPhase tf = PhaseInitDelete);
         currentStage = tfStage tf;
         currentStageCanNotBeInterrupted = (stg_interruptible currentStage = CanNotBeInterrupt);
         currentStageIsRunning = (stg_state currentStage = StateInProgress);
         isNewGeneration = (stg_generation currentStage \<noteq> tf_generation tf)
     in
     if isRetry \<and> \<not> isToBeDeletedOrIsDeleting \<and> \<not> isNewGeneration then
       (case tfst_retryEventReason (tf_status tf) of
          None \<Rightarrow> io_throw (ErrPanic ''nil pointer dereference'')
        | Some reason \<Rightarrow>
            let podType = (if hasSuffix reason ''.setup'' then RunSetup else RunInit)
            in setNewStage cl tf podType reason (isTaskInterruptable podType) StateInitializing)
     else if isRetry \<and> isToBeDeletedOrIsDeleting \<and> \<not> isNewGeneration then
       (case tfst_retryEventReason (tf_status tf) of
          None \<Rightarrow> io_throw (ErrPanic ''nil pointer dereference'')
        | Some reason \<Rightarrow>
            let podType = (if hasSuffix reason ''.setup'' then RunSetupDelete else RunInitDelete)
            in setNewStage cl tf podType reason (isTaskInterruptable podType) StateInitializing)
     else if currentStageCanNotBeInterrupted \<and> currentStageIsRunning then noNewStage tf
     else if isNewGeneration \<and> \<not> isToBeDeletedOrIsDeleting then
       setNewStage cl tf RunSetup ''GENERATION_CHANGE'' CanBeInterrupt StateInitializing
     else if isNewGeneration \<and> initDelete then
       setNewStage cl tf RunSetupDelete ''TF_RESOURCE_DELETED'' CanNotBeInterrupt StateInitializing
     else if isNewGeneration \<and> isToBeDeletedOrIsDeleting then
       setNewStage cl tf RunSetupDelete ''TF_RESOURCE_DELETED'' CanBeInterrupt StateInitializing
     else if stg_state currentStage = StateComplete then
       (if stg_taskType currentStage = RunNil then noNewStage tf
        else let podType = nextTask (stg_taskType currentStage) configuredTasks;
                 stageState = (if podType = RunNil then StateComplete else StateInitializing)
             in setNewStage cl tf podType (''COMPLETED_'' @ toUpper (stg_taskType currentStage))
                  (isTaskInterruptable podType) stageState)
     else if stg_state currentStage = StateFailed then
       (if stg_taskType currentStage = RunApply then
          restartWhenPodGone cl tf ''RESTARTED_WORKFLOW'' RunPostInit configuredTasks
        else if stg_taskType currentStage = RunApplyDelete then
          restartWhenPodGone cl tf ''RESTARTED_DELETE_WORKFLOW'' RunPostInitDelete configuredTasks
        else noNewStage tf)
     else noNewStage tf)"

section \<open>Deletion and retry marks\<close>

text \<open>
  The two assignments of \<open>reconcile\<close> before \<open>checkSetNewStage\<close>; the answer of the
  second is the variable \<open>retry\<close>.
\<close>

definition markDeletion :: "Terraform \<Rightarrow> Terraform" where
  "markDeletion tf =
    (if tf_deletionTimestamp tf \<noteq> None \<and> \<not> ListContainsStr [PhaseDeleting, PhaseInitDelete, PhaseDeleted] (tfPhase tf)
     then tfSetPhase tf PhaseInitDelete else tf)"

definition changeCause :: string where
  "changeCause = ''kubernetes.io/change-cause''"

definition markRetry :: "int \<Rightarrow> Terraform \<Rightarrow> bool \<times> Terraform" where
  "markRetry now tf =
    (case map_of (tf_labels tf) changeCause of
       None \<Rightarrow> (False, tf)
     | Some label \<Rightarrow>
         let retry = (case tfst_retryEventReason (tf_status tf) of None \<Rightarrow> True | Some r \<Rightarrow> r \<noteq> label)
         in if retry
            then (True, tfSetStatus tf ((tf_status tf)\<lparr>tfst_retryEventReason := Some label,
                    tfst_retryTimestamp := Some now, tfst_phase := PhaseInitializing\<rparr>))
            else (False, tf))"

section \<open>Lemmas\<close>

lemma newStage_stage:
  "fst (newStage now tf t r i s) = \<lparr>stg_generation = tf_generation tf, stg_state = s, stg_taskType = t,
     stg_interruptible = i, stg_reason = r, stg_startTime = now,
     stg_stopTime = (if s = StateComplete then now else 0), stg_message = [], stg_podName = [], stg_podUID = []\<rparr>"
  by (simp add: newStage_def tfSet_defs Let_def)

lemma newStage_resource:
  "snd (newStage now tf t r i s) =
     (if r = ''GENERATION_CHANGE'' then tfSetPhase (tfSetPlugins tf []) PhaseInitializing else tf)"
  by (simp add: newStage_def Let_def)

lemma setNewStage_Inr:
  "setNewStage cl tf t r i s w = (Inr (so, tf'), w') \<longleftrightarrow>
     w' = w \<and> so = Some (fst (newStage (k_now cl w) tf t r i s)) \<and> tf' = snd (newStage (k_now cl w) tf t r i s)"
  by (auto simp: setNewStage_def split: prod.splits)

lemma noNewStage_Inr [simp]: "noNewStage tf w = (Inr (so, tf'), w') \<longleftrightarrow> so = None \<and> tf' = tf \<and> w' = w"
  by (auto simp: noNewStage_def)

lemma restart_Inr:
  assumes "restartWhenPodGone cl tf reason after c w = (Inr (Some st, tf'), w')"
  shows "(\<exists>e. k_exists cl PodKind (tf_namespace tf, stg_podName (tfStage tf)) w = (Inl e, w') \<and> IsNotFound e) \<and>
    st = fst (newStage (k_now cl w') tf (nextTask after c) reason (isTaskInterruptable (nextTask after c)) StateInitializing) \<and>
    tf' = snd (newStage (k_now cl w') tf (nextTask after c) reason (isTaskInterruptable (nextTask after c)) StateInitializing)"
  using assms unfolding restartWhenPodGone_def io_try_def Let_def
  by (auto simp: setNewStage_Inr split: prod.splits sum.splits if_splits)

lemmas check_branches = checkSetNewStage_def Let_def setNewStage_Inr newStage_stage

text \<open>
  The branches of \<open>checkSetNewStage\<close> that answer a new stage. \<open>tfDeleting\<close> is the source's
  \<open>isToBeDeletedOrIsDeleting\<close>.
\<close>

definition tfDeleting :: "Terraform \<Rightarrow> bool" where
  "tfDeleting tf = ListContainsStr deletePhases (tfPhase tf)"

lemma checkSetNewStage_cases:
  assumes "checkSetNewStage cl isRetry tf w = (Inr (Some st, tf'), w')"
  obtains (retry) reason where "isRetry" and "stg_generation (tfStage tf) = tf_generation tf"
      and "tfst_retryEventReason (tf_status tf) = Some reason" and "stg_reason st = reason"
      and "stg_taskType st = (if tfDeleting tf
             then if hasSuffix reason ''.setup'' then RunSetupDelete else RunInitDelete
             else if hasSuffix reason ''.setup'' then RunSetup else RunInit)"
      and "stg_state st = StateInitializing"
    | (generation) "stg_generation (tfStage tf) \<noteq> tf_generation tf"
      and "\<not> (stg_interruptible (tfStage tf) = CanNotBeInterrupt \<and> stg_state (tfStage tf) = StateInProgress)"
      and "stg_taskType st = (if tfDeleting tf then RunSetupDelete else RunSetup)"
      and "stg_reason st = (if tfDeleting tf then ''TF_RESOURCE_DELETED'' else ''GENERATION_CHANGE'')"
      and "stg_state st = StateInitializing"
    | (completed) "stg_generation (tfStage tf) = tf_generation tf"
      and "stg_state (tfStage tf) = StateComplete" and "stg_taskType (tfStage tf) \<noteq> RunNil"
      and "stg_taskType st = nextTask (stg_taskType (tfStage tf)) (getConfiguredTasks (Some (tfs_taskOptions (tf_spec tf))))"
      and "stg_state st = (if stg_taskType st = RunNil then StateComplete else StateInitializing)"
      and "stg_reason st = ''COMPLETED_'' @ toUpper (stg_taskType (tfStage tf))" and "w' = w"
    | (restart) e t where "stg_generation (tfStage tf) = tf_generation tf"
      and "stg_state (tfStage tf) = StateFailed"
      and "k_exists cl PodKind (tf_namespace tf, stg_podName (tfStage tf)) w = (Inl e, w')" and "IsNotFound e"
      and "stg_taskType (tfStage tf) = RunApply \<and> t = RunPostInit \<or>
           stg_taskType (tfStage tf) = RunApplyDelete \<and> t = RunPostInitDelete"
      and "stg_taskType st = nextTask t (getConfiguredTasks (Some (tfs_taskOptions (tf_spec tf))))"
      and "stg_state st = StateInitializing"
proof -
  consider (c1) "isRetry" "stg_generation (tfStage tf) = tf_generation tf"
    | (c2) "stg_generation (tfStage tf) \<noteq> tf_generation tf"
    | (c3) "\<not> isRetry" "stg_generation (tfStage tf) = tf_generation tf"
    by blast
  then show thesis
  proof cases
    case c1
    then show thesis using assms retry
      by (cases "tfst_retryEventReason (tf_status tf)") (auto simp: check_branches tfDeleting_def split: if_splits)
  next
    case c2
    have d: "''initializing-delete'' \<in> set deletePhases" by (simp add: deletePhases_def)
    show thesis
      by (rule generation [OF c2]; use assms c2 d in
          \<open>auto simp: check_branches tfDeleting_def split: if_splits\<close>)
  next
    case c3
    note u = assms [unfolded checkSetNewStage_def Let_def]
    show thesis
    proof (cases "stg_state (tfStage tf) = StateComplete")
      case True
      then show thesis using u c3 completed
        by (auto simp: setNewStage_Inr newStage_stage split: if_splits)
    next
      case False
      then obtain r t where "stg_state (tfStage tf) = StateFailed"
         "stg_taskType (tfStage tf) = RunApply \<and> t = RunPostInit \<or>
          stg_taskType (tfStage tf) = RunApplyDelete \<and> t = RunPostInitDelete"
         "restartWhenPodGone cl tf r t (getConfiguredTasks (Some (tfs_taskOptions (tf_spec tf)))) w =
            (Inr (Some st, tf'), w')"
        using u c3 by (auto split: if_splits)
      then show thesis using restart_Inr restart c3 by (fastforce simp: newStage_stage)
    qed
  qed
qed

lemma setNewStage_stamp:
  assumes "setNewStage cl tf t r i s w = (Inr (Some st, tf'), w')"
  shows "stg_generation st = tf_generation tf \<and> stg_podName st = [] \<and> stg_message st = []"
  using assms by (simp add: setNewStage_Inr newStage_stage)

lemma restart_stamp:
  assumes "restartWhenPodGone cl tf reason after c w = (Inr (Some st, tf'), w')"
  shows "stg_generation st = tf_generation tf \<and> stg_podName st = [] \<and> stg_message st = []"
  using restart_Inr [OF assms] by (simp add: newStage_stage)

lemma checkSetNewStage_stamp:
  assumes "checkSetNewStage cl isRetry tf w = (Inr (Some st, tf'), w')"
  shows "stg_generation st = tf_generation tf \<and> stg_podName st = [] \<and> stg_message st = []"
  using assms unfolding checkSetNewStage_def Let_def
  by (simp split: if_splits option.splits; elim setNewStage_stamp restart_stamp)

text \<open>\<open>checkSetNewStage\<close> implements the law of \<open>StageMachine\<close>.\<close>

lemma checkSetNewStage_lawful:
  assumes "checkSetNewStage cl isRetry tf w = (Inr (Some st, tf'), w')"
  shows "stage_law (tf_generation tf) (tfStage tf) st"
proof -
  let ?c = "getConfiguredTasks (Some (tfs_taskOptions (tf_spec tf)))"
  note stamp = checkSetNewStage_stamp [OF assms] and core = defaultTasks_configured
  show ?thesis
    using assms
  proof (cases rule: checkSetNewStage_cases)
    case (retry reason)
    then show ?thesis using stamp by (intro stage_law.Retry) (auto simp: entryTasks_def)
  next
    case generation
    then show ?thesis using stamp by (intro stage_law.NewGeneration) auto
  next
    case completed
    then show ?thesis using stamp core by (intro stage_law.Next [where c = ?c]) auto
  next
    case (restart e t)
    then show ?thesis using stamp core by (intro stage_law.Restart [where c = ?c]) auto
  qed
qed

text \<open>The moves of this controller: any resource, any cluster, any state of it.\<close>

definition tfAdvance :: "'w kube \<Rightarrow> Stage \<Rightarrow> Stage \<Rightarrow> bool" where
  "tfAdvance cl cur st \<longleftrightarrow> (\<exists>isRetry tf w tf' w'. tfStage tf = cur \<and>
     checkSetNewStage cl isRetry tf w = (Inr (Some st, tf'), w'))"

interpretation tf_stages: stage_controller "tfAdvance cl" for cl :: "'w kube"
  by unfold_locales (auto simp: tfAdvance_def dest: checkSetNewStage_lawful)

section \<open>Properties\<close>

text \<open>Every stage \<open>checkSetNewStage\<close> answers is one the law allows, carries the generation
  of the resource, and starts without a pod: a retry or a new generation leads to an
  entry task, a completed stage to the next configured task, a failed apply whose pod
  is gone back to the tasks before the plan, and nothing else to any stage.\<close>

theorem checkSetNewStage_implements_law:
  assumes "checkSetNewStage cl isRetry tf w = (Inr (Some st, tf'), w')"
  shows "stage_law (tf_generation tf) (tfStage tf) st \<and> stg_generation st = tf_generation tf \<and> stg_podName st = []"
  using checkSetNewStage_lawful [OF assms] checkSetNewStage_stamp [OF assms] by simp

definition exampleStage :: "TaskName \<Rightarrow> StageState \<Rightarrow> Stage" where
  "exampleStage t s = \<lparr>stg_generation = 1, stg_state = s, stg_taskType = t,
     stg_interruptible = isTaskInterruptable t, stg_reason = [], stg_startTime = 100, stg_stopTime = 0,
     stg_message = [], stg_podName = [], stg_podUID = []\<rparr>"

definition exampleAt :: "TaskName \<Rightarrow> StageState \<Rightarrow> Terraform" where
  "exampleAt t s = tfSetStage exampleTf (exampleStage t s)"

lemmas example_stage_defs = exampleAt_def exampleStage_def tfSet_defs example_defs

lemma exampleAt_stage [simp]: "tfStage (exampleAt t s) = exampleStage t s"
  by (simp add: exampleAt_def tfSetStage_def)

lemma exampleAt_next:
  assumes "t \<noteq> RunNil" and "nextTask t defaultTasks \<noteq> RunNil"
  shows "checkSetNewStage cl False (exampleAt t StateComplete) w =
     (Inr (Some (fst (newStage (k_now cl w) (exampleAt t StateComplete) (nextTask t defaultTasks)
        (''COMPLETED_'' @ toUpper t) (isTaskInterruptable (nextTask t defaultTasks)) StateInitializing)),
        exampleAt t StateComplete), w)"
proof -
  have "getConfiguredTasks (Some (tfs_taskOptions (tf_spec (exampleAt t StateComplete)))) = defaultTasks"
    by (simp add: example_stage_defs getConfiguredTasks_def)
  moreover have "tf_generation (exampleAt t StateComplete) = 1" by (simp add: example_stage_defs)
  moreover have "(''COMPLETED_'' @ toUpper t) \<noteq> ''GENERATION_CHANGE''" by simp
  ultimately show ?thesis using assms
    by (simp add: checkSetNewStage_def Let_def exampleStage_def setNewStage_def newStage_def)
qed

lemma checkSetNewStage_implements_law_witness:
  "\<exists>st. checkSetNewStage memCluster False (exampleAt RunPlan StateComplete) emptyMem =
       (Inr (Some st, exampleAt RunPlan StateComplete), emptyMem) \<and>
     stg_taskType st = RunApply \<and> stage_law 1 (exampleStage RunPlan StateComplete) st"
proof -
  have n: "nextTask RunPlan defaultTasks = RunApply" by (simp add: nextTask_def order_defs defaultTasks_def)
  note e = exampleAt_next [of RunPlan memCluster emptyMem, unfolded n]
  show ?thesis
    using e checkSetNewStage_implements_law [of memCluster False "exampleAt RunPlan StateComplete" emptyMem]
    by (simp add: newStage_stage) (simp add: example_stage_defs)
qed

text \<open>Nothing is applied without a plan. Whatever the cluster and the users do to a resource,
  when its stage is \<open>apply\<close> then the stages it left last are \<open>plan\<close> and possibly the scripts
  between plan and apply, each of them completed and of the generation of the \<open>apply\<close>;
  and the same for the destroy workflow.\<close>

theorem tf_apply_needs_plan:
  assumes "stage_trace (tfAdvance cl) (cur, hist)"
  shows "(stg_taskType cur = RunApply \<longrightarrow> plan_done RunPlan (stg_generation cur) hist) \<and>
    (stg_taskType cur = RunApplyDelete \<longrightarrow> plan_done RunPlanDelete (stg_generation cur) hist)"
  using tf_stages.trace_apply [OF assms] tf_stages.trace_apply_delete [OF assms] by blast

text \<open>A step of the witness: the stage of a task completes and the next one starts.\<close>

lemma example_trace_step:
  assumes "stage_trace (tfAdvance memCluster) (exampleStage t StateComplete, hist)"
    and "t \<noteq> RunNil" and "nextTask t defaultTasks = u" and "u \<noteq> RunNil"
  shows "stage_trace (tfAdvance memCluster) (exampleStage u StateComplete, exampleStage t StateComplete # hist)"
proof -
  let ?st = "fst (newStage (k_now memCluster emptyMem) (exampleAt t StateComplete) u (''COMPLETED_'' @ toUpper t)
        (isTaskInterruptable u) StateInitializing)"
  have "tfAdvance memCluster (exampleStage t StateComplete) ?st"
    unfolding tfAdvance_def using exampleAt_next [of t memCluster emptyMem] assms(2-4) exampleAt_stage by blast
  then have "stage_trace (tfAdvance memCluster) (?st, exampleStage t StateComplete # hist)"
    using assms(1) stage_trace.Step stage_step.Advance by blast
  moreover have "stage_step (tfAdvance memCluster) (?st, exampleStage t StateComplete # hist)
      (exampleStage u StateComplete, exampleStage t StateComplete # hist)"
    by (rule stage_step.Observe) (simp_all add: newStage_stage example_stage_defs)
  ultimately show ?thesis using stage_trace.Step by blast
qed

lemma tf_apply_needs_plan_witness:
  "stage_trace (tfAdvance memCluster) (exampleStage RunApply StateComplete,
     [exampleStage RunPlan StateComplete, exampleStage RunInit StateComplete, exampleStage RunSetup StateComplete]) \<and>
   plan_done RunPlan 1 [exampleStage RunPlan StateComplete, exampleStage RunInit StateComplete, exampleStage RunSetup StateComplete]"
proof -
  have "stage_trace (tfAdvance memCluster) (exampleStage RunSetup StateComplete, [])"
    by (rule stage_trace.Start) (simp add: exampleStage_def)
  note a = example_trace_step [OF this, of RunInit]
  have a: "stage_trace (tfAdvance memCluster) (exampleStage RunInit StateComplete, [exampleStage RunSetup StateComplete])"
    by (rule a) (simp_all add: nextTask_def order_defs defaultTasks_def)
  note b = example_trace_step [OF a, of RunPlan]
  have b: "stage_trace (tfAdvance memCluster) (exampleStage RunPlan StateComplete,
     [exampleStage RunInit StateComplete, exampleStage RunSetup StateComplete])"
    by (rule b) (simp_all add: nextTask_def order_defs defaultTasks_def)
  note c = example_trace_step [OF b, of RunApply]
  have c: "stage_trace (tfAdvance memCluster) (exampleStage RunApply StateComplete,
     [exampleStage RunPlan StateComplete, exampleStage RunInit StateComplete, exampleStage RunSetup StateComplete])"
    by (rule c) (simp_all add: nextTask_def order_defs defaultTasks_def)
  show ?thesis using tf_apply_needs_plan [OF c] c by (simp add: exampleStage_def)
qed







text \<open>A retry label set on a resource that is being destroyed sends it back into the create
  workflow: the retry overwrites the phase before \<open>checkSetNewStage\<close> looks at it, so the
  branch that would retry the destroy workflow is never taken.\<close>

theorem retry_leaves_destroy_workflow:
  assumes "markRetry now (markDeletion tf) = (True, tf2)" and "stg_generation (tfStage tf) = tf_generation tf"
    and "checkSetNewStage cl True tf2 w = (Inr (Some st, tf3), w')"
  shows "stg_taskType st \<in> {RunInit, RunSetup} \<and> tfPhase tf2 = PhaseInitializing"
proof -
  have m: "tfStage (markDeletion tf) = tfStage tf" "tf_generation (markDeletion tf) = tf_generation tf"
    by (simp_all add: markDeletion_def tfSetPhase_def)
  have t: "tfPhase tf2 = PhaseInitializing" "tfStage tf2 = tfStage tf" "tf_generation tf2 = tf_generation tf"
    using assms(1) m by (auto simp: markRetry_def Let_def tfSetStatus_def split: option.splits if_splits)
  then have d: "\<not> tfDeleting tf2" by (simp add: tfDeleting_def deletePhases_def)
  have "stg_taskType st \<in> {RunInit, RunSetup}"
    using assms(2,3) t(2,3) d
    by (cases "tfst_retryEventReason (tf_status tf2)")
       (auto simp: check_branches tfDeleting_def split: if_splits)
  then show ?thesis using t by simp
qed

definition exampleRetryDelete :: Terraform where
  "exampleRetryDelete = (tfSetPhase (exampleAt RunInitDelete ''Running'') PhaseDeleting)
     \<lparr>tf_deletionTimestamp := Some 7, tf_labels := [(changeCause, ''again'')]\<rparr>"

lemma retry_leaves_destroy_workflow_witness:
  "\<exists>tf2 st tf3. markRetry 8 (markDeletion exampleRetryDelete) = (True, tf2) \<and>
     checkSetNewStage memCluster True tf2 emptyMem = (Inr (Some st, tf3), emptyMem) \<and>
     stg_taskType st \<in> {RunInit, RunSetup}"
proof -
  obtain tf2 where m: "markRetry 8 (markDeletion exampleRetryDelete) = (True, tf2)"
      "tfst_retryEventReason (tf_status tf2) = Some ''again''" "tfPhase tf2 = PhaseInitializing"
      "tfStage tf2 = exampleStage RunInitDelete ''Running''" "tf_generation tf2 = 1"
    by (simp add: exampleRetryDelete_def markDeletion_def markRetry_def changeCause_def example_stage_defs)
  have g: "stg_generation (tfStage exampleRetryDelete) = tf_generation exampleRetryDelete"
    by (simp add: exampleRetryDelete_def example_stage_defs)
  obtain st tf3 where c: "checkSetNewStage memCluster True tf2 emptyMem = (Inr (Some st, tf3), emptyMem)"
    using m(2-5)
    by (simp add: checkSetNewStage_def Let_def deletePhases_def exampleStage_def setNewStage_def case_prod_beta)
  show ?thesis using m(1) c retry_leaves_destroy_workflow [OF m(1) g c] by blast
qed

end
