(* ===== verification/TfStatus.thy ===== *)
theory TfStatus
  imports TfStage
begin

text \<open>
  Writing a \<open>Terraform\<close> resource back (\<open>pkg/controllers/tf_controller.go\<close>): the
  finalizer of the resource, the finalizers that lock its git secrets, and
  \<open>updateStatusWithRetry\<close>, which writes the status up to ten times and reads it back
  up to ten times after each write.
\<close>

section \<open>The finalizer\<close>

definition tfFinalizer :: string where
  "tfFinalizer = ''finalizer.infrakube.galleybytes.com''"

definition tfSetFinalizers :: "Terraform \<Rightarrow> string list \<Rightarrow> Terraform" where
  "tfSetFinalizers tf fs = tf\<lparr>tf_finalizers := fs\<rparr>"

text \<open>
  The answer of \<open>updateFinalizer\<close> and the resource it leaves; \<open>None\<close> where \<open>ListRemoveStr\<close>
  panics.
\<close>

definition updateFinalizer :: "Terraform \<Rightarrow> (bool \<times> Terraform) option" where
  "updateFinalizer tf =
    (let finalizers = tf_finalizers tf;
         remove = map_option (\<lambda>fs. (True, tfSetFinalizers tf fs)) (ListRemoveStr finalizers tfFinalizer)
     in
     if tfPhase tf = PhaseDeleted \<and> ListContainsStr finalizers tfFinalizer then remove
     else if tfs_ignoreDelete (tf_spec tf) \<and> 0 < length finalizers \<and> ListContainsStr finalizers tfFinalizer then remove
     else if \<not> tfs_ignoreDelete (tf_spec tf) \<and> \<not> ListContainsStr finalizers tfFinalizer
       then Some (True, tfSetFinalizers tf (finalizers @ [tfFinalizer]))
     else Some (False, tf))"

section \<open>The locks on git secrets\<close>

record gitSecret =
  gs_name :: string
  gs_namespace :: string
  gs_shoudBeLocked :: bool

text \<open>
  One \<open>SCMAuthMethod\<close> of a resource of namespace \<open>ns\<close>: its \<open>Git\<close> pointer and the pointers
  to the secret references are read without a check; \<open>None\<close> is the panic.
\<close>

definition tokenSecret :: "string \<Rightarrow> bool \<Rightarrow> TokenSecretRef \<Rightarrow> gitSecret" where
  "tokenSecret ns ignoreDelete ref =
    \<lparr>gs_name = tk_name ref,
     gs_namespace = (if tk_namespace ref = [] then ns else tk_namespace ref),
     gs_shoudBeLocked = (tk_lockSecretDeletion ref \<and> \<not> ignoreDelete)\<rparr>"

definition sshKeySecret :: "string \<Rightarrow> bool \<Rightarrow> SSHKeySecretRef \<Rightarrow> gitSecret" where
  "sshKeySecret ns ignoreDelete ref =
    \<lparr>gs_name = sk_name ref,
     gs_namespace = (if sk_namespace ref = [] then ns else sk_namespace ref),
     gs_shoudBeLocked = (sk_lockSecretDeletion ref \<and> \<not> ignoreDelete)\<rparr>"

definition httpsSecrets :: "string \<Rightarrow> bool \<Rightarrow> GitSCM \<Rightarrow> gitSecret list option" where
  "httpsSecrets ns ignoreDelete git =
    (case git_https git of None \<Rightarrow> Some []
     | Some h \<Rightarrow> map_option (\<lambda>ref. [tokenSecret ns ignoreDelete ref]) (ghttps_tokenSecretRef h))"

definition sshSecrets :: "string \<Rightarrow> bool \<Rightarrow> GitSCM \<Rightarrow> gitSecret list option" where
  "sshSecrets ns ignoreDelete git =
    (case git_ssh git of None \<Rightarrow> Some []
     | Some h \<Rightarrow> map_option (\<lambda>ref. [sshKeySecret ns ignoreDelete ref]) (gssh_sshKeySecretRef h))"

definition gitSecretsOf :: "string \<Rightarrow> bool \<Rightarrow> SCMAuthMethod \<Rightarrow> gitSecret list option" where
  "gitSecretsOf ns ignoreDelete m =
    (case scm_git m of
       None \<Rightarrow> None
     | Some git \<Rightarrow>
        (case (httpsSecrets ns ignoreDelete git, sshSecrets ns ignoreDelete git) of
           (Some https, Some ssh) \<Rightarrow> Some (https @ ssh)
         | _ \<Rightarrow> None))"

fun collectGitSecrets :: "string \<Rightarrow> bool \<Rightarrow> SCMAuthMethod list \<Rightarrow> gitSecret list option" where
  "collectGitSecrets ns ignoreDelete [] = Some []"
| "collectGitSecrets ns ignoreDelete (m # ms) =
     (case gitSecretsOf ns ignoreDelete m of
        None \<Rightarrow> None
      | Some s \<Rightarrow> map_option (\<lambda>rest. s @ rest) (collectGitSecrets ns ignoreDelete ms))"

definition getGitSecrets :: "Terraform \<Rightarrow> gitSecret list option" where
  "getGitSecrets tf = collectGitSecrets (tf_namespace tf) (tfs_ignoreDelete (tf_spec tf)) (tfs_scmAuthMethods (tf_spec tf))"

definition secretFinalizerKey :: "string \<Rightarrow> string" where
  "secretFinalizerKey resourceName = TruncateResourceName (''finalizer.infrakube.galleybytes.com/'' @ resourceName) 53"

text \<open>The loop over the secrets, for a resource of a name and a phase.\<close>

definition lockGitSecrets :: "'w kube \<Rightarrow> string \<Rightarrow> StatusPhase \<Rightarrow> gitSecret list \<Rightarrow> ('w, unit) io" where
  "lockGitSecrets cl resourceName phase secrets = io_for secrets (\<lambda>m.
     if gs_shoudBeLocked m \<and> phase \<noteq> PhaseDeleted
     then lockGitSecretDeletion cl (gs_name m) (gs_namespace m) (secretFinalizerKey resourceName)
     else unlockGitSecretDeletion cl (gs_name m) (gs_namespace m) (secretFinalizerKey resourceName))"

definition updateSecretFinalizer :: "'w kube \<Rightarrow> Terraform \<Rightarrow> ('w, unit) io" where
  "updateSecretFinalizer cl tf =
    (case getGitSecrets tf of
       None \<Rightarrow> io_throw (ErrPanic ''nil pointer dereference'')
     | Some secrets \<Rightarrow> lockGitSecrets cl (tf_name tf) (tfPhase tf) secrets)"

section \<open>Writing the resource\<close>

text \<open>\<open>update\<close>: the resource as it is afterwards.\<close>

definition updateTf :: "'w kube \<Rightarrow> Terraform \<Rightarrow> ('w, Terraform) io" where
  "updateTf cl tf =
    io_try (k_update_tf cl tf)
      (\<lambda>err. io_throw (ErrMsg (''failed to update tf resource: '' @ err_text err))) io_return"

text \<open>The comparison of the confirming loop of \<open>updateStatusWithRetry\<close>.\<close>

definition statusConfirmed :: "TerraformStatus \<Rightarrow> TerraformStatus \<Rightarrow> bool" where
  "statusConfirmed have desired \<longleftrightarrow>
    TaskListsAreEqual (tfst_pluginsStarted have) (tfst_pluginsStarted desired) \<and>
    StageIsEqual (tfst_stage have) (tfst_stage desired) = [] \<and>
    tfst_phase have = tfst_phase desired \<and>
    tfst_podNamePrefix have = tfst_podNamePrefix desired"

text \<open>The confirming loop, over the rounds that remain; its answer is \<open>isUpdateConfirmed\<close>.\<close>

fun confirmStatus :: "'w kube \<Rightarrow> nsname \<Rightarrow> TerraformStatus \<Rightarrow> nat \<Rightarrow> ('w, bool) io" where
  "confirmStatus cl key desired 0 = io_return False"
| "confirmStatus cl key desired (Suc j) =
     io_try (getTfResource cl key 10)
       (\<lambda>err. io_throw (ErrMsg (''failed to get latest tf while validating status: '' @ err_text err)))
       (\<lambda>tf. if statusConfirmed (tf_status tf) desired then io_return True else confirmStatus cl key desired j)"

text \<open>
  The rounds of the writing loop after the first: read the resource, put the desired
  status into it, write, confirm. \<open>updateErr\<close> is the error of the last write. The
  pauses between the rounds do not show in the result.
\<close>

definition updateResult :: "goerr option \<Rightarrow> ('w, unit) io" where
  "updateResult updateErr =
    (case updateErr of
       Some err \<Rightarrow> io_throw (ErrMsg (''failed to update tf status: '' @ err_text err))
     | None \<Rightarrow> io_return ())"

fun updateStatusRounds :: "'w kube \<Rightarrow> nsname \<Rightarrow> TerraformStatus \<Rightarrow> nat \<Rightarrow> goerr option \<Rightarrow> ('w, unit) io" where
  "updateStatusRounds cl key desired 0 updateErr = updateResult updateErr"
| "updateStatusRounds cl key desired (Suc i) updateErr =
     io_try (getTfResource cl key 10)
       (\<lambda>err. io_throw (ErrMsg (''failed to get latest tf while updating status: '' @ err_text err)))
       (\<lambda>tf. io_try (k_status_update_tf cl (tfSetStatus tf desired))
          (\<lambda>err. updateStatusRounds cl key desired i (Some err))
          (\<lambda>_. io_bind (confirmStatus cl key desired 10)
             (\<lambda>confirmed. if confirmed then io_return () else updateStatusRounds cl key desired i None)))"

text \<open>
  \<open>updateStatusWithRetry\<close>. The first write goes through the caller's pointer, so on
  success the caller's resource is what the API server answered. Every caller but one
  passes \<open>&tf.Status\<close> as the desired status (\<open>alias\<close>), which then is that answer's
  status; the other passes a copy. The caller goes on with its resource also when an
  error is returned, so the result is the error, if any, with the resource.
\<close>

definition withResource :: "Terraform \<Rightarrow> ('w, unit) io \<Rightarrow> ('w, goerr option \<times> Terraform) io" where
  "withResource tf m = io_try m (\<lambda>err. io_return (Some err, tf)) (\<lambda>_. io_return (None, tf))"

definition updateStatusWithRetry :: "'w kube \<Rightarrow> bool \<Rightarrow> Terraform \<Rightarrow> TerraformStatus
    \<Rightarrow> ('w, goerr option \<times> Terraform) io" where
  "updateStatusWithRetry cl alias tf desiredStatus =
    io_try (k_status_update_tf cl tf)
      (\<lambda>err. withResource tf (updateStatusRounds cl (tfKey tf) desiredStatus 9 (Some err)))
      (\<lambda>tf'. let desired = (if alias then tf_status tf' else desiredStatus) in
         withResource tf' (io_bind (confirmStatus cl (tfKey tf) desired 10)
           (\<lambda>confirmed. if confirmed then io_return () else updateStatusRounds cl (tfKey tf) desired 9 None)))"

text \<open>The usual call \<open>updateStatusWithRetry(ctx, tf, &tf.Status, logger)\<close>.\<close>

definition saveStatus :: "'w kube \<Rightarrow> Terraform \<Rightarrow> ('w, goerr option \<times> Terraform) io" where
  "saveStatus cl tf = updateStatusWithRetry cl True tf (tf_status tf)"

section \<open>Lemmas\<close>

lemma confirm_first:
  assumes "k_get_tf cl key w = (Inr tf, w')" and "statusConfirmed (tf_status tf) desired" and "0 < n"
  shows "confirmStatus cl key desired n w = (Inr True, w')"
proof -
  have "getTfResource cl key 10 w = (Inr tf, w')"
    using assms(1) by (simp add: getTfResource_def getRetry_success)
  then show ?thesis using assms(2,3) by (cases n) (simp_all add: io_try_def)
qed

lemma saveStatus_first:
  assumes "k_status_update_tf cl tf w = (Inr tf', w')"
    and "k_get_tf cl (tfKey tf) w' = (Inr got, w'')"
    and "statusConfirmed (tf_status got) (tf_status tf')"
  shows "saveStatus cl tf w = (Inr (None, tf'), w'')"
  using assms confirm_first [OF assms(2,3), of 10]
  by (simp add: saveStatus_def updateStatusWithRetry_def withResource_def io_try_def io_bind_def Let_def)

text \<open>What the two loops cost: \<open>c\<close> counts status writes.\<close>

lemma getTf_count:
  assumes "\<And>key v. c (snd (k_get_tf cl key v)) = c v"
  shows "c (snd (getTfResource cl key n w)) = c w"
  unfolding getTfResource_def
proof (induction n arbitrary: w)
  case (Suc n)
  obtain r v where g: "k_get_tf cl key w = (r, v)" by (cases "k_get_tf cl key w")
  then have "c v = c w" using assms [of key w] by simp
  then show ?case using Suc g by (cases r) simp_all
qed simp

lemma confirm_count:
  assumes "\<And>key v. c (snd (k_get_tf cl key v)) = c v"
  shows "c (snd (confirmStatus cl key desired n w)) = c w"
proof (induction n arbitrary: w)
  case (Suc n)
  obtain r v where g: "getTfResource cl key 10 w = (r, v)" by (cases "getTfResource cl key 10 w")
  then have "c v = c w" using getTf_count [of c cl key 10 w, OF assms] by simp
  then show ?case using Suc g by (cases r) (simp_all add: io_try_def)
qed simp

lemma rounds_count:
  fixes c :: "'w \<Rightarrow> nat"
  assumes get: "\<And>key v. c (snd (k_get_tf cl key v)) = c v"
    and upd: "\<And>tf v. c (snd (k_status_update_tf cl tf v)) \<le> c v + 1"
  shows "c (snd (updateStatusRounds cl key desired n ue w)) \<le> c w + n"
proof (induction n arbitrary: ue w)
  case 0
  then show ?case by (simp add: updateResult_def split: option.splits)
next
  case (Suc n)
  obtain r v where g: "getTfResource cl key 10 w = (r, v)" by (cases "getTfResource cl key 10 w")
  have cv: "c v = c w" using getTf_count [of c cl key 10 w, OF get] g by simp
  show ?case
  proof (cases r)
    case (Inl e)
    then show ?thesis using g cv by (simp add: io_try_def)
  next
    case (Inr tf)
    obtain r2 v2 where u: "k_status_update_tf cl (tfSetStatus tf desired) v = (r2, v2)"
      by (cases "k_status_update_tf cl (tfSetStatus tf desired) v")
    have cv2: "c v2 \<le> c w + 1" using upd [of "tfSetStatus tf desired" v] u cv by simp
    obtain r3 v3 where f: "confirmStatus cl key desired 10 v2 = (r3, v3)"
      by (cases "confirmStatus cl key desired 10 v2")
    have cv3: "c v3 = c v2" using confirm_count [of c cl key desired 10 v2, OF get] f by simp
    have "c (snd (updateStatusRounds cl key desired n ue' v')) \<le> c w + Suc n" if "c v' \<le> c w + 1" for ue' v'
      using Suc.IH [of ue' v'] that by simp
    then show ?thesis using g Inr u f cv2 cv3
      by (cases r2; cases r3) (simp_all add: io_try_def io_bind_def)
  qed
qed

section \<open>Properties\<close>

lemma ListRemoveStr_filter:
  assumes "count_list xs s \<le> 1"
  shows "ListRemoveStr xs s = Some (filter (\<lambda>x. x \<noteq> s) xs)"
proof (cases "s \<in> set xs")
  case True
  then have "count_list xs s = 1" using assms count_list_0_iff [of xs s] by linarith
  then obtain ys zs where "xs = ys @ s # zs" "s \<notin> set ys" "s \<notin> set zs" by (rule count_list_1_split)
  moreover have "filter (\<lambda>x. x \<noteq> s) ys = ys" "filter (\<lambda>x. x \<noteq> s) zs = zs"
    using \<open>s \<notin> set ys\<close> \<open>s \<notin> set zs\<close> by (metis (mono_tags) filter_True)+
  ultimately show ?thesis using ListRemoveStr_once [of s ys zs] by simp
next
  case False
  then have "filter (\<lambda>x. x \<noteq> s) xs = xs" by (metis (mono_tags) filter_True)
  then show ?thesis using ListRemoveStr_absent [OF False] by simp
qed

lemma updateFinalizer_cases:
  assumes "count_list (tf_finalizers tf) tfFinalizer \<le> 1"
  shows "updateFinalizer tf = Some
    (let fs = tf_finalizers tf; has = tfFinalizer \<in> set fs in
     if has \<and> (tfPhase tf = PhaseDeleted \<or> tfs_ignoreDelete (tf_spec tf))
       then (True, tfSetFinalizers tf (filter (\<lambda>f. f \<noteq> tfFinalizer) fs))
     else if \<not> has \<and> \<not> tfs_ignoreDelete (tf_spec tf) then (True, tfSetFinalizers tf (fs @ [tfFinalizer]))
     else (False, tf))"
  using ListRemoveStr_filter [OF assms] by (auto simp: updateFinalizer_def Let_def)

text \<open>The finalizer of a resource that is not yet destroyed settles in one step: afterwards the
  finalizer is there exactly when the resource wants its destroy workflow
  (\<open>ignoreDelete\<close> off), the finalizers of others are kept in their order, and a second
  \<open>updateFinalizer\<close> changes nothing, so \<open>reconcile\<close> writes the resource at most once for it.\<close>

theorem updateFinalizer_settles:
  assumes "count_list (tf_finalizers tf) tfFinalizer \<le> 1" and "tfPhase tf \<noteq> PhaseDeleted"
  shows "\<exists>b tf'. updateFinalizer tf = Some (b, tf') \<and> updateFinalizer tf' = Some (False, tf') \<and>
    (tfFinalizer \<in> set (tf_finalizers tf') \<longleftrightarrow> \<not> tfs_ignoreDelete (tf_spec tf)) \<and>
    filter (\<lambda>f. f \<noteq> tfFinalizer) (tf_finalizers tf') = filter (\<lambda>f. f \<noteq> tfFinalizer) (tf_finalizers tf) \<and>
    (b \<longleftrightarrow> tf' \<noteq> tf)"
proof -
  obtain b tf' where u: "updateFinalizer tf = Some (b, tf')"
    using updateFinalizer_cases [OF assms(1)] by (metis surj_pair)
  have s: "tf_spec tf' = tf_spec tf" "tfPhase tf' = tfPhase tf"
      "tfFinalizer \<in> set (tf_finalizers tf') \<longleftrightarrow> \<not> tfs_ignoreDelete (tf_spec tf)"
      "filter (\<lambda>f. f \<noteq> tfFinalizer) (tf_finalizers tf') = filter (\<lambda>f. f \<noteq> tfFinalizer) (tf_finalizers tf)"
    using u updateFinalizer_cases [OF assms(1)] assms(2)
    by (auto simp: Let_def tfSetFinalizers_def split: if_splits)
  have "updateFinalizer tf' = Some (False, tf')"
    using s assms(2) by (auto simp: updateFinalizer_def Let_def)
  moreover have "tfSetFinalizers tf fs \<noteq> tf" if "fs \<noteq> tf_finalizers tf" for fs
  proof
    assume "tfSetFinalizers tf fs = tf"
    from arg_cong [OF this, of tf_finalizers] that show False by (simp add: tfSetFinalizers_def)
  qed
  moreover have "filter (\<lambda>f. f \<noteq> tfFinalizer) (tf_finalizers tf) \<noteq> tf_finalizers tf"
    if "tfFinalizer \<in> set (tf_finalizers tf)" using that by (metis (mono_tags) filter_id_conv)
  ultimately have "updateFinalizer tf' = Some (False, tf')" "b \<longleftrightarrow> tf' \<noteq> tf"
    using u updateFinalizer_cases [OF assms(1)] assms(2) by (auto simp: Let_def split: if_splits)
  then show ?thesis using u s by blast
qed

lemma updateFinalizer_settles_witness:
  "\<exists>b tf'. updateFinalizer (exampleTf\<lparr>tf_finalizers := [''other'']\<rparr>) = Some (b, tf') \<and>
     updateFinalizer tf' = Some (False, tf') \<and> tfFinalizer \<in> set (tf_finalizers tf')"
proof -
  have h: "count_list (tf_finalizers (exampleTf\<lparr>tf_finalizers := [''other'']\<rparr>)) tfFinalizer \<le> 1"
      "tfPhase (exampleTf\<lparr>tf_finalizers := [''other'']\<rparr>) \<noteq> PhaseDeleted"
      "\<not> tfs_ignoreDelete (tf_spec (exampleTf\<lparr>tf_finalizers := [''other'']\<rparr>))"
    by (simp_all add: example_defs tfFinalizer_def)
  show ?thesis using updateFinalizer_settles [OF h(1,2)] h(3) by blast
qed

text \<open>A destroyed resource does not settle: \<open>updateFinalizer\<close> first removes its finalizer, and if
  the resource is still there at the next reconciliation (another finalizer holds it) it
  adds the finalizer again.\<close>

theorem deleted_finalizer_comes_back:
  assumes "count_list (tf_finalizers tf) tfFinalizer = 1" and "tfPhase tf = PhaseDeleted"
    and "\<not> tfs_ignoreDelete (tf_spec tf)"
  shows "\<exists>tf1 tf2. updateFinalizer tf = Some (True, tf1) \<and> tfFinalizer \<notin> set (tf_finalizers tf1) \<and>
    updateFinalizer tf1 = Some (True, tf2) \<and> tfFinalizer \<in> set (tf_finalizers tf2)"
proof -
  have c: "count_list (tf_finalizers tf) tfFinalizer \<le> 1" using assms(1) by simp
  have m: "tfFinalizer \<in> set (tf_finalizers tf)"
    using assms(1) by (metis count_notin zero_neq_one)
  show ?thesis
    using updateFinalizer_cases [OF c] m assms(2,3)
    by (auto simp: Let_def tfSetFinalizers_def updateFinalizer_def)
qed

lemma deleted_finalizer_comes_back_witness:
  "\<exists>tf1 tf2. updateFinalizer (tfSetPhase exampleTf PhaseDeleted) = Some (True, tf1) \<and>
     tfFinalizer \<notin> set (tf_finalizers tf1) \<and> updateFinalizer tf1 = Some (True, tf2) \<and>
     tfFinalizer \<in> set (tf_finalizers tf2)"
  by (rule deleted_finalizer_comes_back) (simp_all add: tfSetPhase_def example_defs tfFinalizer_def)

text \<open>C33: Writing a status costs at most ten status writes, whatever the cluster answers, and reads
  beside them nothing is written.\<close>

theorem updateStatusWithRetry_writes:
  fixes c :: "'w \<Rightarrow> nat"
  assumes get: "\<And>key v. c (snd (k_get_tf cl key v)) = c v"
    and upd: "\<And>tf v. c (snd (k_status_update_tf cl tf v)) \<le> c v + 1"
  shows "c (snd (updateStatusWithRetry cl alias tf desired w)) \<le> c w + 10"
proof -
  obtain r v where u: "k_status_update_tf cl tf w = (r, v)" by (cases "k_status_update_tf cl tf w")
  have cv: "c v \<le> c w + 1" using upd [of tf w] u by simp
  have R: "c (snd (updateStatusRounds cl key ds 9 ue v')) \<le> c w + 10" if "c v' \<le> c w + 1" for key ds ue v'
    using rounds_count [of c cl key ds 9 ue v', OF get upd] that by simp
  have W: "c (snd (withResource tf0 m v')) = c (snd (m v'))" for tf0 m v'
    by (cases "m v'"; cases "fst (m v')") (simp_all add: withResource_def io_try_def split: if_splits)
  show ?thesis
  proof (cases r)
    case (Inl e)
    then show ?thesis using u cv R [OF cv] W by (simp add: updateStatusWithRetry_def io_try_def)
  next
    case (Inr tf')
    let ?d = "if alias then tf_status tf' else desired"
    obtain b v' where f: "confirmStatus cl (tfKey tf) ?d 10 v = (b, v')"
      by (cases "confirmStatus cl (tfKey tf) ?d 10 v")
    have "c v' \<le> c w + 1" using confirm_count [of c cl "tfKey tf" ?d 10 v, OF get] f cv by simp
    then show ?thesis using u f R [of v'] W Inr
      by (cases b) (simp_all add: updateStatusWithRetry_def io_try_def io_bind_def Let_def)
  qed
qed

lemma updateStatusWithRetry_writes_witness:
  "m_writes (snd (saveStatus memCluster exampleTf emptyMem)) \<le> m_writes emptyMem + 10"
  unfolding saveStatus_def
  by (rule updateStatusWithRetry_writes) (simp_all add: mem_defs split: option.splits)

text \<open>A status the API server stores is saved by the first write: when the write succeeds and
  the resource read back shows the status the server answered, \<open>updateStatusWithRetry\<close>
  returns without an error and the caller holds the server's answer.\<close>

theorem saveStatus_stored:
  assumes "k_status_update_tf cl tf w = (Inr tf', w')" and "k_get_tf cl (tfKey tf) w' = (Inr got, w'')"
    and "statusConfirmed (tf_status got) (tf_status tf')"
  shows "saveStatus cl tf w = (Inr (None, tf'), w'')"
  by (rule saveStatus_first [OF assms])

definition exampleMem :: mem where
  "exampleMem = emptyMem\<lparr>m_tfs := [exampleTf]\<rparr>"

lemma saveStatus_stored_witness:
  "\<exists>w'. saveStatus memCluster (tfSetPhase exampleTf PhaseRunning) exampleMem =
     (Inr (None, tfSetPhase exampleTf PhaseRunning), w') \<and> m_tfs w' = [tfSetPhase exampleTf PhaseRunning]"
proof -
  let ?tf = "tfSetPhase exampleTf PhaseRunning" and ?w = "exampleMem\<lparr>m_tfs := [tfSetPhase exampleTf PhaseRunning], m_writes := 1\<rparr>"
  have "k_status_update_tf memCluster ?tf exampleMem = (Inr ?tf, ?w)"
    by (simp add: mem_defs exampleMem_def tfKey_def tfSetPhase_def)
  moreover have "k_get_tf memCluster (tfKey ?tf) ?w = (Inr ?tf, ?w)"
    by (simp add: mem_defs)
  moreover have "statusConfirmed (tf_status ?tf) (tf_status ?tf)"
    by (simp add: statusConfirmed_def StageIsEqual_def)
  ultimately show ?thesis using saveStatus_stored [of memCluster ?tf exampleMem ?tf ?w ?tf ?w] by simp
qed

text \<open>A status that is never seen again counts as saved: when every write succeeds and every
  read shows a status that differs, all ten rounds run and \<open>updateStatusWithRetry\<close> still
  returns no error.\<close>

theorem unconfirmed_status_counts_as_saved:
  assumes "\<And>tf v. k_status_update_tf cl tf v = (Inr tf, v)"
    and "\<And>key v. k_get_tf cl key v = (Inr stale, v)"
    and "\<not> statusConfirmed (tf_status stale) (tf_status tf)"
  shows "saveStatus cl tf w = (Inr (None, tf), w)"
proof -
  have g: "getTfResource cl key 10 v = (Inr stale, v)" for key v
    by (simp add: getTfResource_def getRetry_success assms(2))
  have c: "confirmStatus cl key (tf_status tf) n v = (Inr False, v)" for key n v
    by (induction n) (simp_all add: io_try_def g assms(3))
  have "updateStatusRounds cl key (tf_status tf) n None v = (Inr (), v)" for key n v
    by (induction n) (simp_all add: updateResult_def io_try_def io_bind_def g assms(1) c)
  then show ?thesis
    by (simp add: saveStatus_def updateStatusWithRetry_def withResource_def io_try_def io_bind_def assms(1) c)
qed

definition staleCluster :: "unit kube" where
  "staleCluster = \<lparr>k_now = (\<lambda>_. 0), k_exists = (\<lambda>_ _. io_return ()), k_get_secret = (\<lambda>_. io_throw (ErrNotFound [])),
     k_update_secret = (\<lambda>_. io_return ()), k_create = (\<lambda>_ _. io_return []), k_update = (\<lambda>_ _. io_return ()),
     k_delete = (\<lambda>_ _. io_return ()), k_labels_parse = (\<lambda>_. None), k_delete_all_of = (\<lambda>_ _ _ _. io_return ()),
     k_list = (\<lambda>_ _ _. io_return []), k_list_pods = (\<lambda>_ _ _. io_return []), k_event = (\<lambda>_ _ _ _ w. w),
     k_get_tf = (\<lambda>_. io_return exampleTf), k_update_tf = io_return, k_status_update_tf = io_return,
     k_get_tofu = (\<lambda>_. io_throw (ErrNotFound [])), k_update_tofu = io_return, k_status_update_tofu = io_return\<rparr>"

lemma unconfirmed_status_counts_as_saved_witness:
  "saveStatus staleCluster (tfSetPhase exampleTf PhaseDeleted) () = (Inr (None, tfSetPhase exampleTf PhaseDeleted), ())"
  by (rule unconfirmed_status_counts_as_saved [where stale = exampleTf])
     (simp_all add: staleCluster_def io_return_def statusConfirmed_def tfSetPhase_def example_defs)

text \<open>A destroyed resource whose git secret is gone is never released: while the secret cannot be
  found, \<open>updateSecretFinalizer\<close> fails, and it comes before the removal of the finalizer.
  The same error is returned whether or not the secret was ever to be locked.\<close>

theorem missing_secret_blocks_release:
  assumes "getGitSecrets tf = Some (m # ms)" and "tfPhase tf = PhaseDeleted"
    and "k_get_secret cl (if gs_namespace m = [] then ''default'' else gs_namespace m, gs_name m) w = (Inl e, w')"
  shows "updateSecretFinalizer cl tf w = (Inl e, w')"
  using assms
  by (simp add: updateSecretFinalizer_def lockGitSecrets_def io_for_def unlockGitSecretDeletion_def loadSecret_def io_bind_def)

definition exampleGitTf :: Terraform where
  "exampleGitTf = exampleTf\<lparr>tf_spec := exampleTfSpec\<lparr>tfs_scmAuthMethods :=
     [\<lparr>scm_host = ''github.com'', scm_git = Some \<lparr>git_ssh = None, git_https = Some
        \<lparr>ghttps_requireProxy = False, ghttps_tokenSecretRef =
           Some \<lparr>tk_name = ''token'', tk_namespace = [], tk_key = [], tk_lockSecretDeletion = False\<rparr>\<rparr>\<rparr>\<rparr>]\<rparr>\<rparr>"

lemma missing_secret_blocks_release_witness:
  "\<exists>e. updateSecretFinalizer memCluster (tfSetPhase exampleGitTf PhaseDeleted) emptyMem = (Inl e, emptyMem)"
proof -
  let ?m = "\<lparr>gs_name = ''token'', gs_namespace = ''default'', gs_shoudBeLocked = False\<rparr>"
  have a: "getGitSecrets (tfSetPhase exampleGitTf PhaseDeleted) = Some [?m]"
    by (simp add: exampleGitTf_def getGitSecrets_def gitSecretsOf_def httpsSecrets_def sshSecrets_def tokenSecret_def tfSetPhase_def example_defs Let_def)
  have b: "tfPhase (tfSetPhase exampleGitTf PhaseDeleted) = PhaseDeleted" by (simp add: tfSetPhase_def)
  have c: "k_get_secret memCluster
      (if gs_namespace ?m = [] then ''default'' else gs_namespace ?m, gs_name ?m) emptyMem =
      (Inl (ErrNotFound (nsname_text (''default'', ''token''))), emptyMem)"
    by (simp add: mem_defs)
  show ?thesis by (rule exI) (rule missing_secret_blocks_release [OF a b c])
qed

text \<open>Resources share the finalizer that locks a git secret: its name keeps only the first 17
  characters of the resource's name and nothing of its namespace, so of two resources
  whose names start alike, one that is destroyed unlocks the secret of the other.\<close>

theorem secretFinalizerKey_shared:
  assumes "take 17 a = take 17 b" and "17 < length a" and "17 < length b"
  shows "secretFinalizerKey a = secretFinalizerKey b"
proof -
  have "take 53 (''finalizer.infrakube.galleybytes.com/'' @ a) = take 53 (''finalizer.infrakube.galleybytes.com/'' @ b)"
    using assms(1) by simp
  moreover have "53 < length (''finalizer.infrakube.galleybytes.com/'' @ a)"
      "53 < length (''finalizer.infrakube.galleybytes.com/'' @ b)" using assms(2,3) by simp_all
  ultimately show ?thesis by (simp only: secretFinalizerKey_def TruncateResourceName_def if_True)
qed

lemma secretFinalizerKey_shared_witness:
  "secretFinalizerKey ''production-network-a'' = secretFinalizerKey ''production-network-b''"
  by (rule secretFinalizerKey_shared) simp_all

end
