(* ===== verification/TfResources.thy ===== *)
theory TfResources
  imports Objects TfStatus
begin

text \<open>
  The objects around the pods of a \<open>Terraform\<close> resource
  (\<open>pkg/controllers/tf_controller.go\<close>): the global environment, the volume claim, the
  secrets, config map, role, role binding and service account of a generation, the
  task's pod, the plugin jobs, and \<open>run\<close>, which creates the objects in the first stage of
  a generation and only checks for them in the later ones. Every create function is
  an \<open>object_maker\<close>.
\<close>

section \<open>The global environment\<close>

definition envFromName :: "reconciler \<Rightarrow> string \<Rightarrow> string" where
  "envFromName rc resourceName = resourceName @ ''-'' @ rc_globalEnvSuffix rc"

definition envConfigMap :: "reconciler \<Rightarrow> string \<Rightarrow> string \<Rightarrow> kobj" where
  "envConfigMap rc name namespace =
    KConfigMap \<lparr>cm_name = envFromName rc name, cm_namespace = namespace, cm_labels = [],
      cm_data = rc_globalEnvFromConfigmapData rc\<rparr>"

definition envSecret :: "reconciler \<Rightarrow> string \<Rightarrow> string \<Rightarrow> kobj" where
  "envSecret rc name namespace =
    KSecret \<lparr>sec_name = envFromName rc name, sec_namespace = namespace, sec_labels = [], sec_finalizers = [],
      sec_data = rc_globalEnvFromSecretData rc\<rparr>"

definition createEnvFromSources :: "'w kube \<Rightarrow> reconciler \<Rightarrow> Terraform \<Rightarrow> ('w, unit) io" where
  "createEnvFromSources cl rc tf =
    io_seq
      [if 0 < length (rc_globalEnvFromConfigmapData rc)
       then createOrUpdate cl (tfOwner tf) (envConfigMap rc (tf_name tf) (tf_namespace tf)) else io_return (),
       if 0 < length (rc_globalEnvFromSecretData rc)
       then createOrUpdate cl (tfOwner tf) (envSecret rc (tf_name tf) (tf_namespace tf)) else io_return ()]"

definition listEnvFromSources :: "reconciler \<Rightarrow> Terraform \<Rightarrow> EnvFromSource list" where
  "listEnvFromSources rc tf =
    (if 0 < length (rc_globalEnvFromConfigmapData rc) then [ConfigMapRef (envFromName rc (tf_name tf))] else []) @
    (if 0 < length (rc_globalEnvFromSecretData rc) then [SecretRef (envFromName rc (tf_name tf))] else [])"

section \<open>The volume claim\<close>

definition checkPersistentVolumeClaimExists :: "'w kube \<Rightarrow> nsname \<Rightarrow> ('w, bool) io" where
  "checkPersistentVolumeClaimExists cl = checkExists cl PVCKind"

text \<open>An error of the check is dropped: the function then returns without a claim.\<close>

definition createPVC :: "'w kube \<Rightarrow> Terraform \<Rightarrow> TaskOptions \<Rightarrow> ('w, unit) io" where
  "createPVC cl tf runOpts =
    io_try (checkPersistentVolumeClaimExists cl (o_namespace runOpts, o_prefixedName runOpts))
      (\<lambda>_. io_return ())
      (\<lambda>found. if found then io_return ()
         else
           let persistentVolumeSize = (case tfs_persistentVolumeSize (tf_spec tf) of None \<Rightarrow> ''2Gi'' | Some q \<Rightarrow> q)
           in createReported cl (tfOwner tf)
                (KPVC (generatePVC runOpts persistentVolumeSize (tfs_storageClassName (tf_spec tf)))))"

section \<open>The objects of a generation\<close>

definition checkConfigMapExists :: "'w kube \<Rightarrow> nsname \<Rightarrow> ('w, bool) io" where
  "checkConfigMapExists cl = checkExists cl ConfigMapKind"

definition deleteConfigMapIfExists :: "'w kube \<Rightarrow> string \<Rightarrow> string \<Rightarrow> ('w, unit) io" where
  "deleteConfigMapIfExists cl = deleteIfExists cl ConfigMapKind"

definition createConfigMap :: "'w kube \<Rightarrow> Terraform \<Rightarrow> TaskOptions \<Rightarrow> ('w, unit) io" where
  "createConfigMap cl tf runOpts =
    (let resource = generateConfigMap runOpts in
     io_bind (deleteConfigMapIfExists cl (cm_name resource) (cm_namespace resource))
       (\<lambda>_. createReported cl (tfOwner tf) (KConfigMap resource)))"

definition checkSecretExists :: "'w kube \<Rightarrow> nsname \<Rightarrow> ('w, bool) io" where
  "checkSecretExists cl = checkExists cl SecretKind"

definition deleteSecretIfExists :: "'w kube \<Rightarrow> string \<Rightarrow> string \<Rightarrow> ('w, unit) io" where
  "deleteSecretIfExists cl = deleteIfExists cl SecretKind"

text \<open>The secret \<open>createSecret\<close> creates: the labels are copied before some are left out.\<close>

definition secretOf :: "string \<Rightarrow> string \<Rightarrow> (string, string) gomap \<Rightarrow> string list \<Rightarrow> TaskOptions \<Rightarrow> Secret" where
  "secretOf name namespace data labelsToOmit runOpts =
    generateSecret name namespace data
      (foldl (\<lambda>labels labelKey. AList.delete labelKey labels) (o_resourceLabels runOpts) labelsToOmit)"

definition createSecret :: "'w kube \<Rightarrow> Terraform \<Rightarrow> string \<Rightarrow> string \<Rightarrow> (string, string) gomap \<Rightarrow> bool
    \<Rightarrow> string list \<Rightarrow> TaskOptions \<Rightarrow> ('w, unit) io" where
  "createSecret cl tf name namespace data recr labelsToOmit runOpts =
    (let resource = secretOf name namespace data labelsToOmit runOpts in
     io_seq
       [if recr then deleteSecretIfExists cl (sec_name resource) (sec_namespace resource) else io_return (),
        io_try (k_create cl (tfOwner tf) (KSecret resource))
          (\<lambda>err. if \<not> recr \<and> IsAlreadyExists err then io_return ()
             else recordCreateError cl (tfOwner tf) SecretKind err)
          (recordCreated cl (tfOwner tf) SecretKind)])"

definition checkServiceAccountExists :: "'w kube \<Rightarrow> nsname \<Rightarrow> ('w, bool) io" where
  "checkServiceAccountExists cl = checkExists cl ServiceAccountKind"

definition deleteServiceAccountIfExists :: "'w kube \<Rightarrow> string \<Rightarrow> string \<Rightarrow> ('w, unit) io" where
  "deleteServiceAccountIfExists cl = deleteIfExists cl ServiceAccountKind"

definition createServiceAccount :: "'w kube \<Rightarrow> Terraform \<Rightarrow> TaskOptions \<Rightarrow> ('w, unit) io" where
  "createServiceAccount cl tf runOpts =
    (let resource = generateServiceAccount runOpts in
     io_bind (deleteServiceAccountIfExists cl (sa_name resource) (sa_namespace resource))
       (\<lambda>_. createReported cl (tfOwner tf) (KServiceAccount resource)))"

definition checkRoleExists :: "'w kube \<Rightarrow> nsname \<Rightarrow> ('w, bool) io" where
  "checkRoleExists cl = checkExists cl RoleKind"

definition deleteRoleIfExists :: "'w kube \<Rightarrow> string \<Rightarrow> string \<Rightarrow> ('w, unit) io" where
  "deleteRoleIfExists cl = deleteIfExists cl RoleKind"

definition createRole :: "'w kube \<Rightarrow> Terraform \<Rightarrow> TaskOptions \<Rightarrow> ('w, unit) io" where
  "createRole cl tf runOpts =
    (let resource = generateRole runOpts in
     io_bind (deleteRoleIfExists cl (role_name resource) (role_namespace resource))
       (\<lambda>_. createReported cl (tfOwner tf) (KRole resource)))"

definition checkRoleBindingExists :: "'w kube \<Rightarrow> nsname \<Rightarrow> ('w, bool) io" where
  "checkRoleBindingExists cl = checkExists cl RoleBindingKind"

definition deleteRoleBindingIfExists :: "'w kube \<Rightarrow> string \<Rightarrow> string \<Rightarrow> ('w, unit) io" where
  "deleteRoleBindingIfExists cl = deleteIfExists cl RoleBindingKind"

definition createRoleBinding :: "'w kube \<Rightarrow> Terraform \<Rightarrow> TaskOptions \<Rightarrow> ('w, unit) io" where
  "createRoleBinding cl tf runOpts =
    (let resource = generateRoleBinding runOpts in
     io_bind (deleteRoleBindingIfExists cl (rb_name resource) (rb_namespace resource))
       (\<lambda>_. createReported cl (tfOwner tf) (KRoleBinding resource)))"

section \<open>Pods and jobs\<close>

definition createPod :: "'w kube \<Rightarrow> Terraform \<Rightarrow> TaskOptions \<Rightarrow> ('w, unit) io" where
  "createPod cl tf runOpts =
    (case generatePod runOpts of
       Inl err \<Rightarrow> io_seq [io_modify (k_event cl (tfOwner tf) ''Warning'' (kind_name PodKind @ ''CreateError'') (err_text err)),
                          io_throw err]
     | Inr resource \<Rightarrow> createReported cl (tfOwner tf) (KPod resource))"

definition createJob :: "'w kube \<Rightarrow> Terraform \<Rightarrow> TaskOptions \<Rightarrow> ('w, unit) io" where
  "createJob cl tf runOpts =
    (case generateJob runOpts of
       Inl err \<Rightarrow> io_throw err
     | Inr resource \<Rightarrow> createReported cl (tfOwner tf) (KJob resource))"

section \<open>Running a stage\<close>

text \<open>The first branch of \<open>run\<close>.\<close>

definition outputsLabelsToOmit :: "TaskOptions \<Rightarrow> string list" where
  "outputsLabelsToOmit runOpts =
    (if o_stripGenerationLabelOnOutputsSecret runOpts then [tfLabelPrefix @ ''generation''] else [])"

definition createObjects :: "'w kube \<Rightarrow> reconciler \<Rightarrow> Terraform \<Rightarrow> TaskOptions \<Rightarrow> ('w, unit) io" where
  "createObjects cl rc tf runOpts = io_seq
    ([createEnvFromSources cl rc tf,
      createPVC cl tf runOpts,
      createSecret cl tf (o_versionedName runOpts) (o_namespace runOpts) (o_secretData runOpts) True [] runOpts,
      createConfigMap cl tf runOpts,
      createRoleBinding cl tf runOpts,
      createRole cl tf runOpts] @
     (if tfs_serviceAccount (tf_spec tf) = [] then [createServiceAccount cl tf runOpts] else []) @
     [createSecret cl tf (o_outputsSecretName runOpts) (o_namespace runOpts) [] False
        (outputsLabelsToOmit runOpts) runOpts])"

text \<open>The second branch.\<close>

definition checkObjects :: "'w kube \<Rightarrow> TaskOptions \<Rightarrow> ('w, unit) io" where
  "checkObjects cl runOpts =
    (let versionedKey = (o_namespace runOpts, o_versionedName runOpts) in
     io_seq
      [requireObject cl PVCKind (o_namespace runOpts, o_prefixedName runOpts),
       requireObject cl ConfigMapKind versionedKey,
       requireObject cl SecretKind versionedKey,
       requireObject cl RoleBindingKind versionedKey,
       requireObject cl RoleKind versionedKey,
       requireObject cl ServiceAccountKind (o_namespace runOpts, o_serviceAccount runOpts)])"

definition run :: "'w kube \<Rightarrow> reconciler \<Rightarrow> Terraform \<Rightarrow> TaskOptions \<Rightarrow> bool \<Rightarrow> bool \<Rightarrow> ('w, unit) io" where
  "run cl rc tf runOpts isNewGeneration isFirstInstall = io_seq
    [if isFirstInstall \<or> isNewGeneration then createObjects cl rc tf runOpts else checkObjects cl runOpts,
     createPod cl tf runOpts]"

section \<open>Lemmas\<close>

lemmas create_defs = createConfigMap_def createServiceAccount_def createRole_def createRoleBinding_def
  deleteConfigMapIfExists_def deleteServiceAccountIfExists_def deleteRoleIfExists_def
  deleteRoleBindingIfExists_def recreate_def Let_def

lemma create_is_recreate:
  "createConfigMap cl tf r = recreate cl (tfOwner tf) (KConfigMap (generateConfigMap r))"
  "createServiceAccount cl tf r = recreate cl (tfOwner tf) (KServiceAccount (generateServiceAccount r))"
  "createRole cl tf r = recreate cl (tfOwner tf) (KRole (generateRole r))"
  "createRoleBinding cl tf r = recreate cl (tfOwner tf) (KRoleBinding (generateRoleBinding r))"
  by (simp_all add: create_defs)

interpretation tf_configMap: object_maker "\<lambda>cl. createConfigMap cl tf r" "KConfigMap (generateConfigMap r)"
    for tf :: Terraform and r :: TaskOptions
  by unfold_locales (simp add: create_is_recreate made_anew.makes)

interpretation tf_serviceAccount: object_maker "\<lambda>cl. createServiceAccount cl tf r" "KServiceAccount (generateServiceAccount r)"
    for tf :: Terraform and r :: TaskOptions
  by unfold_locales (simp add: create_is_recreate made_anew.makes)

interpretation tf_role: object_maker "\<lambda>cl. createRole cl tf r" "KRole (generateRole r)"
    for tf :: Terraform and r :: TaskOptions
  by unfold_locales (simp add: create_is_recreate made_anew.makes)

interpretation tf_roleBinding: object_maker "\<lambda>cl. createRoleBinding cl tf r" "KRoleBinding (generateRoleBinding r)"
    for tf :: Terraform and r :: TaskOptions
  by unfold_locales (simp add: create_is_recreate made_anew.makes)

lemma createSecret_recreate:
  "createSecret cl tf name ns data True om r = recreate cl (tfOwner tf) (KSecret (secretOf name ns data om r))"
  by (rule ext)
     (simp add: createSecret_def recreate_def createReported_def deleteSecretIfExists_def io_bind_def io_try_def
        Let_def split: prod.splits sum.splits)

interpretation tf_secret: object_maker "\<lambda>cl. createSecret cl tf name ns data True om r" "KSecret (secretOf name ns data om r)"
    for tf :: Terraform and name ns :: string and data :: "(string, string) gomap" and om :: "string list" and r :: TaskOptions
  by unfold_locales (simp add: createSecret_recreate made_anew.makes)

lemma createSecret_new:
  assumes "store_laws cl view" and "name \<noteq> []"
  shows "does view (createSecret cl tf name ns data False om r) (putNewObj (KSecret (secretOf name ns data om r)))"
  unfolding does_def
proof
  fix w
  let ?s = "KSecret (secretOf name ns data om r)"
  have n: "snd (obj_key ?s) \<noteq> []" using assms(2) by (simp add: secretOf_def generateSecret_def)
  show "\<exists>w'. createSecret cl tf name ns data False om r w = (Inr (), w') \<and> view w' = putNewObj ?s (view w)"
  proof (cases "view w (kind_of ?s, obj_key ?s) = None")
    case True
    from store_laws_create [OF assms(1) n True] obtain w' where
      "k_create cl (tfOwner tf) ?s w = (Inr (snd (obj_key ?s)), w')" "view w' = putObj ?s (view w)"
      unfolding putObj_def by metis
    then show ?thesis using True assms(1)
      by (simp add: createSecret_def Let_def io_try_def recordCreated_def putNewObj_def)
  next
    case False
    then show ?thesis using store_laws_conflict [OF assms(1) n False]
      by (auto simp: createSecret_def Let_def io_try_def putNewObj_def)
  qed
qed

lemma createPVC_new:
  assumes "store_laws cl view" and "o_prefixedName r \<noteq> []"
  shows "\<exists>q sc. does view (createPVC cl tf r) (putNewObj (KPVC (generatePVC r q sc)))"
proof -
  define p where "p = KPVC (generatePVC r
     (case tfs_persistentVolumeSize (tf_spec tf) of None \<Rightarrow> ''2Gi'' | Some q \<Rightarrow> q) (tfs_storageClassName (tf_spec tf)))"
  have k: "kind_of p = PVCKind" "obj_key p = (o_namespace r, o_prefixedName r)"
    by (simp_all add: p_def generatePVC_def)
  have n: "snd (obj_key p) \<noteq> []" using assms(2) k by simp
  have c: "createPVC cl tf r w = (if view w (PVCKind, (o_namespace r, o_prefixedName r)) \<noteq> None then (Inr (), w)
      else createReported cl (tfOwner tf) p w)" for w
    by (simp add: createPVC_def checkPersistentVolumeClaimExists_def io_try_def checkExists_store [OF assms(1)]
          Let_def p_def)
  have "\<exists>w'. createPVC cl tf r w = (Inr (), w') \<and> view w' = putNewObj p (view w)" for w
  proof (cases "view w (PVCKind, (o_namespace r, o_prefixedName r)) = None")
    case True
    then have v: "view w (kind_of p, obj_key p) = None" using k by simp
    obtain w' where "createReported cl (tfOwner tf) p w = (Inr (), w')"
        "view w' = (view w)((kind_of p, obj_key p) \<mapsto> p)"
      using createReported_store [OF assms(1) n v] by blast
    then show ?thesis using True v c by (simp add: putNewObj_def putObj_def)
  next
    case False
    then show ?thesis using k c by (auto simp: putNewObj_def)
  qed
  then have "does view (createPVC cl tf r) (putNewObj p)" by (simp add: does_def)
  then show ?thesis unfolding p_def by blast
qed

section \<open>Properties\<close>

lemma createEnv_does:
  assumes "store_laws cl view" and "tf_name tf \<noteq> []"
  shows "\<exists>F. does view (createEnvFromSources cl rc tf) F"
proof -
  have n: "snd (obj_key (envConfigMap rc (tf_name tf) (tf_namespace tf))) \<noteq> []"
     "snd (obj_key (envSecret rc (tf_name tf) (tf_namespace tf))) \<noteq> []"
    by (simp_all add: envConfigMap_def envSecret_def envFromName_def)
  show ?thesis unfolding createEnvFromSources_def
    by (rule exI, rule does_Cons [OF does_if [OF does_createOrUpdate [OF assms(1) n(1)] does_return]
          does_Cons [OF does_if [OF does_createOrUpdate [OF assms(1) n(2)] does_return] does_Nil]])
qed

definition generatedNames :: "TaskOptions \<Rightarrow> bool" where
  "generatedNames r \<longleftrightarrow> o_prefixedName r \<noteq> [] \<and> o_versionedName r \<noteq> [] \<and> o_serviceAccount r \<noteq> [] \<and>
    o_outputsSecretName r \<noteq> []"

text \<open>The objects \<open>createObjects\<close> leaves, for a resource without a service account of its own.\<close>

definition objectsInPlace :: "TaskOptions \<Rightarrow> (kind \<times> nsname \<Rightarrow> kobj option) \<Rightarrow> bool" where
  "objectsInPlace r s \<longleftrightarrow>
    (\<forall>ob \<in> set [KConfigMap (generateConfigMap r), KRoleBinding (generateRoleBinding r), KRole (generateRole r),
               KServiceAccount (generateServiceAccount r),
               KSecret (secretOf (o_versionedName r) (o_namespace r) (o_secretData r) [] r)].
       s (kind_of ob, obj_key ob) = Some ob) \<and>
    s (PVCKind, (o_namespace r, o_prefixedName r)) \<noteq> None \<and>
    s (SecretKind, (o_namespace r, o_outputsSecretName r)) \<noteq> None"

lemmas generated_defs = generateConfigMap_def generateRoleBinding_def generateRole_def generateServiceAccount_def
  secretOf_def generateSecret_def generatePVC_def

text \<open>The steps of \<open>createObjects\<close>, whatever labels the outputs secret goes without.\<close>

abbreviation objectSteps :: "'w kube \<Rightarrow> reconciler \<Rightarrow> Terraform \<Rightarrow> TaskOptions \<Rightarrow> string list \<Rightarrow> ('w, unit) io list" where
  "objectSteps cl rc tf r om \<equiv>
     [createEnvFromSources cl rc tf, createPVC cl tf r,
      createSecret cl tf (o_versionedName r) (o_namespace r) (o_secretData r) True [] r,
      createConfigMap cl tf r, createRoleBinding cl tf r, createRole cl tf r, createServiceAccount cl tf r,
      createSecret cl tf (o_outputsSecretName r) (o_namespace r) [] False om r]"

lemma objectSteps_do:
  assumes "store_laws cl view" and "tf_name tf \<noteq> []" and "generatedNames r"
  shows "\<exists>w'. io_seq (objectSteps cl rc tf r om) w = (Inr (), w') \<and> objectsInPlace r (view w')"
proof -
  obtain F where F: "does view (createEnvFromSources cl rc tf) F" using createEnv_does [OF assms(1,2)] by blast
  obtain q sc where P: "does view (createPVC cl tf r) (putNewObj (KPVC (generatePVC r q sc)))"
    using createPVC_new [OF assms(1)] assms(3) unfolding generatedNames_def by blast
  have n: "snd (obj_key (KConfigMap (generateConfigMap r))) \<noteq> []" "snd (obj_key (KRoleBinding (generateRoleBinding r))) \<noteq> []"
     "snd (obj_key (KRole (generateRole r))) \<noteq> []" "snd (obj_key (KServiceAccount (generateServiceAccount r))) \<noteq> []"
     "snd (obj_key (KSecret (secretOf (o_versionedName r) (o_namespace r) (o_secretData r) [] r))) \<noteq> []"
     "o_outputsSecretName r \<noteq> []"
    using assms(3) by (simp_all add: generated_defs generatedNames_def)
  define G where "G = (\<lambda>s. putNewObj (KSecret (secretOf (o_outputsSecretName r) (o_namespace r) [] om r))
      (putObj (KServiceAccount (generateServiceAccount r)) (putObj (KRole (generateRole r))
      (putObj (KRoleBinding (generateRoleBinding r)) (putObj (KConfigMap (generateConfigMap r))
      (putObj (KSecret (secretOf (o_versionedName r) (o_namespace r) (o_secretData r) [] r))
      (putNewObj (KPVC (generatePVC r q sc)) (F s))))))))"
  have d: "does view (io_seq (objectSteps cl rc tf r om)) G"
    unfolding G_def
    by (rule does_Cons [OF F does_Cons [OF P does_Cons [OF tf_secret.makes [OF assms(1) n(5)]
      does_Cons [OF tf_configMap.makes [OF assms(1) n(1)] does_Cons [OF tf_roleBinding.makes [OF assms(1) n(2)]
      does_Cons [OF tf_role.makes [OF assms(1) n(3)] does_Cons [OF tf_serviceAccount.makes [OF assms(1) n(4)]
      does_Cons [OF createSecret_new [OF assms(1) n(6)] does_Nil]]]]]]]])
  have o: "objectsInPlace r (G s)" for s
    unfolding G_def objectsInPlace_def by (simp add: putObj_at putNewObj_at generated_defs)
  obtain w' where "io_seq (objectSteps cl rc tf r om) w = (Inr (), w')" "view w' = G (view w)"
    by (rule does_at [OF d])
  then show ?thesis using o [of "view w"] by auto
qed

lemma createObjects_does:
  assumes "store_laws cl view" and "tf_name tf \<noteq> []" and "generatedNames r" and "tfs_serviceAccount (tf_spec tf) = []"
  shows "\<exists>w'. createObjects cl rc tf r w = (Inr (), w') \<and> objectsInPlace r (view w')"
  using objectSteps_do [OF assms(1-3), of rc "outputsLabelsToOmit r" w] assms(4) by (simp add: createObjects_def)

text \<open>The keys \<open>checkObjects\<close> asks for, in its order.\<close>

definition requiredKeys :: "TaskOptions \<Rightarrow> (kind \<times> nsname) list" where
  "requiredKeys r =
    [(PVCKind, (o_namespace r, o_prefixedName r)), (ConfigMapKind, (o_namespace r, o_versionedName r)),
     (SecretKind, (o_namespace r, o_versionedName r)), (RoleBindingKind, (o_namespace r, o_versionedName r)),
     (RoleKind, (o_namespace r, o_versionedName r)), (ServiceAccountKind, (o_namespace r, o_serviceAccount r))]"

lemma requireObject_missing:
  assumes "store_laws cl view" and "view w (k, key) = None"
  shows "requireObject cl k key w =
    (Inl (ErrMsg (''could not find '' @ kind_name k @ '' '' @ quoted (nsname_text key))), w)"
  using assms(2) by (simp add: requireObject_def io_bind_def checkExists_store [OF assms(1)])

lemma require_all:
  assumes "store_laws cl view"
  shows "io_seq (map (\<lambda>(k, key). requireObject cl k key) keys) w =
    (case find (\<lambda>x. view w x = None) keys of
       None \<Rightarrow> (Inr (), w)
     | Some (k, key) \<Rightarrow> (Inl (ErrMsg (''could not find '' @ kind_name k @ '' '' @ quoted (nsname_text key))), w))"
proof (induction keys)
  case (Cons x keys)
  obtain k key where x: "x = (k, key)" by (cases x)
  show ?case
  proof (cases "view w (k, key) = None")
    case True
    then show ?thesis using x by (simp add: requireObject_missing [OF assms])
  next
    case False
    then show ?thesis using x Cons by (auto simp: requireObject_store [OF assms])
  qed
qed simp

lemma checkObjects_require: "checkObjects cl r = io_seq (map (\<lambda>(k, key). requireObject cl k key) (requiredKeys r))"
  by (simp add: checkObjects_def requiredKeys_def Let_def)

lemma checkObjects_store:
  assumes "store_laws cl view"
  shows "checkObjects cl r w =
    (case find (\<lambda>x. view w x = None) (requiredKeys r) of
       None \<Rightarrow> (Inr (), w)
     | Some (k, key) \<Rightarrow> (Inl (ErrMsg (''could not find '' @ kind_name k @ '' '' @ quoted (nsname_text key))), w))"
  unfolding checkObjects_require by (rule require_all [OF assms])

text \<open>C30: A stage that is not the first of its generation starts no pod, and changes nothing in the
  cluster, unless the claim, the config map, the secret, the role binding, the role and
  the service account of its generation all exist; the error names the first that does
  not.\<close>

theorem no_pod_without_objects:
  assumes "store_laws cl view" and "find (\<lambda>x. view w x = None) (requiredKeys r) = Some (k, key)"
  shows "run cl rc tf r False False w =
    (Inl (ErrMsg (''could not find '' @ kind_name k @ '' '' @ quoted (nsname_text key))), w)"
  using assms(2) by (simp add: run_def checkObjects_store [OF assms(1)])

lemma no_pod_without_objects_witness:
  "\<exists>m. run memCluster exampleReconciler exampleTf exampleOpts False False emptyMem = (Inl (ErrMsg m), emptyMem)"
proof -
  have "find (\<lambda>x. memView emptyMem x = None) (requiredKeys exampleOpts) =
      Some (PVCKind, (o_namespace exampleOpts, o_prefixedName exampleOpts))"
    by (simp add: requiredKeys_def emptyMem_def)
  from no_pod_without_objects [OF mem_store_laws this, of exampleReconciler exampleTf] show ?thesis by blast
qed

text \<open>The options \<open>reconcile\<close> hands to \<open>run\<close>: those of the task with the data of \<open>setupAndRun\<close>.\<close>

definition sameNames :: "TaskOptions \<Rightarrow> TaskOptions \<Rightarrow> bool" where
  "sameNames r r' \<longleftrightarrow> o_namespace r = o_namespace r' \<and> o_prefixedName r = o_prefixedName r' \<and>
    o_versionedName r = o_versionedName r' \<and> o_serviceAccount r = o_serviceAccount r'"

lemma newTaskOptions_names:
  assumes "tfst_podNamePrefix (tf_status tf) \<noteq> []"
  shows "generatedNames (newTaskOptions tf t g env a ns tol ra cu ad du ti)"
  using assms by (simp add: generatedNames_def newTaskOptions_def Let_def tfVersionedName_def case_prod_beta)

lemma newTaskOptions_same:
  "sameNames (newTaskOptions tf t g env a ns tol ra cu ad du ti) (newTaskOptions tf t' g' env' a' ns' tol' ra' cu' ad' du' ti')"
  by (simp add: sameNames_def newTaskOptions_def Let_def case_prod_beta)

lemma objectsInPlace_found:
  assumes "objectsInPlace r s" and "sameNames r r'"
  shows "find (\<lambda>x. s x = None) (requiredKeys r') = None"
  using assms by (simp add: objectsInPlace_def requiredKeys_def sameNames_def generated_defs)

text \<open>The first stage of a generation leaves everything its later stages look for. On an API server
  nobody else writes to, \<open>createObjects\<close> succeeds from every state, replaces the config
  map, the role binding, the role, the service account and the secret by the generated
  ones, keeps an existing claim and outputs secret, and then the check of every other
  task of the same resource succeeds.\<close>

theorem later_stages_find_objects:
  assumes "store_laws cl view" and "tf_name tf \<noteq> []" and "tfst_podNamePrefix (tf_status tf) \<noteq> []"
    and "tfs_serviceAccount (tf_spec tf) = []"
    and "r = (newTaskOptions tf t g env a ns tol ra cu ad du ti)
           \<lparr>o_mainModulePluginData := data, o_secretData := secrets, o_tfModuleParsed := pa, o_sidecarPlugins := sides\<rparr>"
  shows "\<exists>w'. createObjects cl rc tf r w = (Inr (), w') \<and> objectsInPlace r (view w') \<and>
    checkObjects cl (newTaskOptions tf t' g' env' a' ns' tol' ra' cu' ad' du' ti') w' = (Inr (), w')"
proof -
  have "generatedNames r"
    using newTaskOptions_names [OF assms(3), of t g env a ns tol ra cu ad du ti]
    unfolding assms(5) by (simp add: generatedNames_def)
  then obtain w' where w': "createObjects cl rc tf r w = (Inr (), w')" "objectsInPlace r (view w')"
    using createObjects_does [OF assms(1,2) _ assms(4)] by blast
  have "sameNames r (newTaskOptions tf t' g' env' a' ns' tol' ra' cu' ad' du' ti')"
    using newTaskOptions_same [of tf t g env a ns tol ra cu ad du ti t' g' env' a' ns' tol' ra' cu' ad' du' ti']
    unfolding assms(5) by (simp add: sameNames_def)
  from objectsInPlace_found [OF w'(2) this] show ?thesis
    using w' checkObjects_store [OF assms(1)] by auto
qed

lemma later_stages_find_objects_witness:
  "\<exists>w'. createObjects memCluster exampleReconciler exampleTf exampleOpts emptyMem = (Inr (), w') \<and>
     objectsInPlace exampleOpts (memView w') \<and>
     checkObjects memCluster (newTaskOptions exampleTf RunApply 1 [] None [] [] [] [] True [] []) w' = (Inr (), w')"
proof -
  have e: "exampleOpts = (newTaskOptions exampleTf RunPlan 1 [] None [] [] ''ra'' ''cache'' True ''dl'' ''img'')
     \<lparr>o_mainModulePluginData := [], o_secretData := [], o_tfModuleParsed := emptyParsedAddress, o_sidecarPlugins := []\<rparr>"
    unfolding exampleOpts_def newTaskOptions_def Let_def by (simp add: case_prod_beta)
  show ?thesis
    by (rule later_stages_find_objects [OF mem_store_laws _ _ _ e]) (simp_all add: example_defs)
qed

end
