(* ===== verification/TfSetup.thy ===== *)
theory TfSetup
  imports Controller TfResources
begin

text \<open>
  \<open>setupAndRun\<close> of the Terraform controller: it fills the data of the config map and the
  secret of a generation (the module, the scripts, git credentials, the ssh
  configuration, the resources to download) and hands over to \<open>run\<close>.
\<close>

section \<open>The ssh configuration\<close>

definition tabChar :: char where
  "tabChar = CHR 0x09"

definition sshLine :: "string \<Rightarrow> string" where
  "sshLine s = [tabChar] @ s @ [newlineChar]"

definition sshProxyConfig :: "ProxyOpts \<Rightarrow> string" where
  "sshProxyConfig px =
    ''Host proxy'' @ [newlineChar] @ sshLine ''StrictHostKeyChecking no'' @ sshLine ''UserKnownHostsFile=/dev/null'' @
    sshLine (''User '' @ px_user px) @ sshLine (''Hostname '' @ px_host px) @ sshLine ''IdentityFile ~/.ssh/proxy_key''"

definition sshHostConfig :: "string \<Rightarrow> bool \<Rightarrow> string" where
  "sshHostConfig host requireProxy =
    [newlineChar] @ ''Host '' @ host @ [newlineChar] @ sshLine ''StrictHostKeyChecking no'' @
    sshLine ''UserKnownHostsFile=/dev/null'' @ sshLine (''Hostname '' @ host) @ sshLine (''IdentityFile ~/.ssh/'' @ host) @
    (if requireProxy then [tabChar] @ ''ProxyJump proxy'' else [])"

text \<open>The key and namespace of an ssh secret, with the defaults of the source.\<close>

definition sshKeyOf :: "'w kube \<Rightarrow> string \<Rightarrow> SSHKeySecretRef \<Rightarrow> ('w, string) io" where
  "sshKeyOf cl resourceNamespace ref =
    loadPassword cl (if sk_key ref = [] then ''id_rsa'' else sk_key ref) (sk_name ref)
      (if sk_namespace ref = [] then resourceNamespace else sk_namespace ref)"

definition mapAt :: "(string, string) gomap \<Rightarrow> string \<Rightarrow> string" where
  "mapAt m k = (case map_of m k of None \<Rightarrow> [] | Some v \<Rightarrow> v)"

fun sshHosts :: "'w kube \<Rightarrow> string \<Rightarrow> SCMAuthMethod list \<Rightarrow> (string, string) gomap
    \<Rightarrow> ('w, (string, string) gomap) io" where
  "sshHosts cl ns [] data = io_return data"
| "sshHosts cl ns (m # ms) data =
     (case scm_git m of
        None \<Rightarrow> io_throw (ErrPanic ''nil pointer dereference'')
      | Some git \<Rightarrow>
         (case git_ssh git of
            None \<Rightarrow> sshHosts cl ns ms data
          | Some ssh \<Rightarrow>
              let data1 = AList.update ''config''
                    (mapAt data ''config'' @ sshHostConfig (scm_host m) (gssh_requireProxy ssh)) data
              in (case gssh_sshKeySecretRef ssh of
                    None \<Rightarrow> io_throw (ErrPanic ''nil pointer dereference'')
                  | Some ref \<Rightarrow> io_bind (sshKeyOf cl ns ref)
                      (\<lambda>key. sshHosts cl ns ms (AList.update (scm_host m) key data1)))))"

text \<open>The files of \<open>~/.ssh\<close>.\<close>

definition formatJobSSHConfig :: "'w kube \<Rightarrow> Terraform \<Rightarrow> ('w, (string, string) gomap) io" where
  "formatJobSSHConfig cl tf =
    io_bind
      (case tfs_sshTunnel (tf_spec tf) of
         None \<Rightarrow> io_return []
       | Some px \<Rightarrow> io_bind (sshKeyOf cl (tf_namespace tf) (px_sshKeySecretRef px))
           (\<lambda>key. io_return (AList.update ''proxy_key'' key [(''config'', sshProxyConfig px)])))
      (sshHosts cl (tf_namespace tf) (tfs_scmAuthMethods (tf_spec tf)))"

section \<open>The main module\<close>

definition scmMapOf :: "SCMAuthMethod list \<Rightarrow> (string, string) gomap" where
  "scmMapOf ms = foldl (\<lambda>scmMap v. if scm_git v \<noteq> None then AList.update (scm_host v) ''git'' scmMap else scmMap) [] ms"

definition putPluginData :: "string \<Rightarrow> string \<Rightarrow> TaskOptions \<Rightarrow> TaskOptions" where
  "putPluginData k v r = r\<lparr>o_mainModulePluginData := AList.update k v (o_mainModulePluginData r)\<rparr>"

definition putSecretData :: "string \<Rightarrow> string \<Rightarrow> TaskOptions \<Rightarrow> TaskOptions" where
  "putSecretData k v r = r\<lparr>o_secretData := AList.update k v (o_secretData r)\<rparr>"

definition configMapModuleFile :: string where
  "configMapModuleFile = ''.__INFRAKUBE__ConfigMapModule.json''"

definition setupModule :: "urllib \<Rightarrow> Terraform \<Rightarrow> TaskOptions \<Rightarrow> goerr + TaskOptions" where
  "setupModule ul tf runOpts =
    (let m = tfs_module (tf_spec tf); scmMap = scmMapOf (tfs_scmAuthMethods (tf_spec tf)) in
     if mod_inline m \<noteq> [] then Inr (putPluginData ''inline-module.tf'' (mod_inline m) runOpts)
     else (case mod_configMapSeclector_x m of
       Some c \<Rightarrow> Inr (putPluginData configMapModuleFile (configMapSelectorJSON c) runOpts)
     | None \<Rightarrow> (case mod_configMapSelector m of
         Some c \<Rightarrow> Inr (putPluginData configMapModuleFile (configMapSelectorJSON c) runOpts)
       | None \<Rightarrow>
          if mod_source m \<noteq> []
          then sum_bind (getParsedAddress ul (mod_source m) [] False scmMap)
                 (\<lambda>pa. Inr (runOpts\<lparr>o_tfModuleParsed := pa\<rparr>))
          else Inl (ErrMsg ''no tf module detected''))))"

section \<open>The data of a generation\<close>

definition addInlineScripts :: "TaskOption list \<Rightarrow> TaskOptions \<Rightarrow> TaskOptions" where
  "addInlineScripts opts runOpts =
    foldl (\<lambda>r opt. if ss_inline (topt_script opt) \<noteq> []
             then foldl (\<lambda>r affected. if affected = ''*'' then r
                    else putPluginData (''inline-'' @ affected @ ''.sh'') (ss_inline (topt_script opt)) r)
                  r (topt_for opt)
             else r) runOpts opts"

definition defaultScripts :: "reconciler \<Rightarrow> TaskOptions \<Rightarrow> TaskOptions" where
  "defaultScripts rc runOpts =
    putPluginData ''default-noop.sh'' (rc_noopScript rc)
      (putPluginData ''default-setup.sh'' (rc_setupScript rc)
        (putPluginData ''default-tf.sh'' (rc_taskScript rc) runOpts))"

text \<open>The loop that takes the first token for https.\<close>

fun addGitAskpass :: "'w kube \<Rightarrow> SCMAuthMethod list \<Rightarrow> TaskOptions \<Rightarrow> ('w, TaskOptions) io" where
  "addGitAskpass cl [] runOpts = io_return runOpts"
| "addGitAskpass cl (m # ms) runOpts =
     (case scm_git m of
        None \<Rightarrow> io_throw (ErrPanic ''nil pointer dereference'')
      | Some git \<Rightarrow>
         (case git_https git of
            None \<Rightarrow> addGitAskpass cl ms runOpts
          | Some https \<Rightarrow>
              if map_of (o_secretData runOpts) ''gitAskpass'' \<noteq> None then addGitAskpass cl ms runOpts
              else
                (case ghttps_tokenSecretRef https of
                   None \<Rightarrow> io_throw (ErrPanic ''nil pointer dereference'')
                 | Some ref \<Rightarrow>
                     let keyed = (if tk_key ref = [] then ref\<lparr>tk_key := ''token''\<rparr> else ref)
                     in io_bind (createGitAskpass cl keyed)
                          (\<lambda>script. addGitAskpass cl ms (putSecretData ''gitAskpass'' script runOpts)))))"

fun parseDownloads :: "urllib \<Rightarrow> (string, string) gomap \<Rightarrow> ResourceDownload list \<Rightarrow> goerr + ParsedAddress list" where
  "parseDownloads ul scmMap [] = Inr []"
| "parseDownloads ul scmMap (d # ds) =
     sum_bind (getParsedAddress ul (trimSpace (rd_address d)) (rd_path d) (rd_useAsVar d) scmMap)
       (\<lambda>pa. sum_bind (parseDownloads ul scmMap ds) (\<lambda>pas. Inr (pa # pas)))"

definition io_of_sum :: "goerr + 'a \<Rightarrow> ('s, 'a) io" where
  "io_of_sum r = (case r of Inl e \<Rightarrow> io_throw e | Inr x \<Rightarrow> io_return x)"

definition addDownloads :: "urllib \<Rightarrow> Terraform \<Rightarrow> TaskOptions \<Rightarrow> goerr + TaskOptions" where
  "addDownloads ul tf runOpts =
    sum_bind (parseDownloads ul (scmMapOf (tfs_scmAuthMethods (tf_spec tf)))
        (case tfs_setup (tf_spec tf) of None \<Rightarrow> [] | Some su \<Rightarrow> su_resourceDownloads su))
      (\<lambda>items. Inr (putPluginData ''.__INFRAKUBE__ResourceDownloads.json'' (jsonArray (map parsedAddressJSON items)) runOpts))"

text \<open>The block \<open>if isChanged\<close> from the scripts on.\<close>

definition setupGeneration :: "'w kube \<Rightarrow> urllib \<Rightarrow> reconciler \<Rightarrow> Terraform \<Rightarrow> TaskOptions \<Rightarrow> ('w, TaskOptions) io" where
  "setupGeneration cl ul rc tf runOpts =
    io_bind (addGitAskpass cl (tfs_scmAuthMethods (tf_spec tf))
               (addInlineScripts (tfs_taskOptions (tf_spec tf)) (defaultScripts rc runOpts)))
      (\<lambda>r1. io_try (formatJobSSHConfig cl tf)
         (\<lambda>err. io_bind (io_modify (k_event cl (tfOwner tf) ''Warning'' ''SSHConfigError'' (err_text err)))
            (\<lambda>_. io_throw (ErrMsg (''error setting up sshconfig: '' @ err_text err))))
         (\<lambda>ssh. let r2 = r1\<lparr>o_secretData := AList.merge (o_secretData r1) ssh\<rparr> in
            io_bind (io_of_sum (addDownloads ul tf r2))
              (\<lambda>r3. io_return (putPluginData ''backend_override.tf'' (tfs_backend (tf_spec tf)) r3))))"

definition generationChanged :: "string \<Rightarrow> bool" where
  "generationChanged reason \<longleftrightarrow> reason = ''GENERATION_CHANGE'' \<or> reason = ''TF_RESOURCE_DELETED''"

definition firstInstall :: "string \<Rightarrow> bool" where
  "firstInstall reason \<longleftrightarrow> reason = ''TF_RESOURCE_CREATED''"

definition setupAndRun :: "'w kube \<Rightarrow> urllib \<Rightarrow> reconciler \<Rightarrow> TaskOptions \<Rightarrow> (('w, Terraform) rstate, unit) io" where
  "setupAndRun cl ul rc runOpts = (\<lambda>s.
    let tf = r_res s;
        reason = stg_reason (tfStage tf);
        isNewGeneration = generationChanged reason;
        isFirstInstall = firstInstall reason;
        isChanged = (isNewGeneration \<or> isFirstInstall)
    in io_bind (io_of_sum (setupModule ul tf runOpts)) (\<lambda>r1.
       io_bind
         (if isChanged
          then io_try (on_cluster (updateSecretFinalizer cl tf)) (\<lambda>_. io_return ()) io_return
          else io_return ()) (\<lambda>_.
       io_bind (if isChanged then spawn (ReapPlugins (tfOwner tf) (tfKey tf) 0) else io_return ()) (\<lambda>_.
       io_bind (if isChanged then on_cluster (setupGeneration cl ul rc tf r1) else io_return r1) (\<lambda>r2.
       on_cluster (run cl rc tf r2 isNewGeneration isFirstInstall))))) s)"

end
