(* ===== verification/TfReaper.thy ===== *)
theory TfReaper
  imports TfSetup
begin

text \<open>
  What the Terraform controller deletes behind a resource's back: \<open>removeOldPlan\<close> before
  a restarted workflow, and the two background loops that reap the pods, plugins and
  other objects of older generations. A loop sleeps and starts itself again as a new
  goroutine; one round is a function of the attempt, and \<open>reapLoop\<close> is the chain of
  rounds, with the number of rounds as fuel.
\<close>

section \<open>Selectors\<close>

definition resourceNameSelector :: "string \<Rightarrow> string" where
  "resourceNameSelector name = tfLabelPrefix @ ''resourceName='' @ AutoHashLabeler name"

definition notInstance :: "TaskName \<Rightarrow> string" where
  "notInstance t = ''app.kubernetes.io/instance!='' @ t"

definition oldPlanSelector :: "string \<Rightarrow> string \<Rightarrow> int \<Rightarrow> string" where
  "oldPlanSelector name reason generation =
    str_join
      ([tfLabelPrefix @ ''generation=='' @ itoa generation, resourceNameSelector name, ''app.kubernetes.io/instance''] @
       (if reason = ''RESTARTED_WORKFLOW''
        then map notInstance [RunSetup, RunPreInit, RunInit, RunPostInit]
        else if reason = ''RESTARTED_DELETE_WORKFLOW''
        then map notInstance [RunSetupDelete, RunPreInitDelete, RunInitDelete, RunPostInitDelete]
        else [])) '',''"

definition notRunning :: string where
  "notRunning = ''status.phase!=Running''"

definition parsedSelector :: "'w kube \<Rightarrow> string \<Rightarrow> ('w, unit) io" where
  "parsedSelector cl sel = (case k_labels_parse cl sel of None \<Rightarrow> io_return () | Some err \<Rightarrow> io_throw err)"

definition removeOldPlan :: "'w kube \<Rightarrow> string \<Rightarrow> string \<Rightarrow> string \<Rightarrow> int \<Rightarrow> ('w, unit) io" where
  "removeOldPlan cl namespace name reason generation =
    io_bind (parsedSelector cl (oldPlanSelector name reason generation))
      (\<lambda>_. k_delete_all_of cl PodKind namespace (oldPlanSelector name reason generation) notRunning)"

text \<open>Everything of the resource that carries another generation than the current one.\<close>

definition oldGenerationSelector :: "string \<Rightarrow> int \<Rightarrow> string" where
  "oldGenerationSelector name generation =
    str_join [tfLabelPrefix @ ''generation'', tfLabelPrefix @ ''generation!='' @ itoa generation,
      tfLabelPrefix @ ''resourceName'', resourceNameSelector name] '',''"

definition pluginSelector :: "string \<Rightarrow> int \<Rightarrow> string" where
  "pluginSelector name generation = tfLabelPrefix @ ''isPlugin=true,'' @ oldGenerationSelector name generation"

section \<open>One round\<close>

text \<open>
  The answer of a round is whether it starts the next one. Every error is logged and
  ends the round without a next one, unless the code goes on.
\<close>

definition maxAttempts :: nat where
  "maxAttempts = 20"

definition endRound :: "goerr \<Rightarrow> ('w, bool) io" where
  "endRound err = io_return False"

fun deleteKinds :: "'w kube \<Rightarrow> string \<Rightarrow> string \<Rightarrow> kind list \<Rightarrow> ('w, unit) io" where
  "deleteKinds cl ns sel [] = io_return ()"
| "deleteKinds cl ns sel (k # ks) =
     io_try (k_delete_all_of cl k ns sel []) (\<lambda>_. io_return ()) (\<lambda>_. deleteKinds cl ns sel ks)"

definition backgroundReapOldGenerationPods :: "'w kube \<Rightarrow> nsname \<Rightarrow> nat \<Rightarrow> ('w, bool) io" where
  "backgroundReapOldGenerationPods cl key attempt =
    (if maxAttempts < attempt then io_return False
     else
       io_try (getTfResource cl key 3) endRound (\<lambda>tf.
       let sel = oldGenerationSelector (tf_name tf) (tf_generation tf); ns = tf_namespace tf in
       io_try (parsedSelector cl sel) endRound (\<lambda>_.
       io_try (k_delete_all_of cl PodKind ns sel notRunning) endRound (\<lambda>_.
       io_try (k_list cl PodKind ns sel) endRound (\<lambda>pods.
       if 0 < length pods then io_return True
       else io_bind (deleteKinds cl ns sel [ConfigMapKind, SecretKind, RoleKind, RoleBindingKind, ServiceAccountKind])
              (\<lambda>_. io_return False))))))"

text \<open>The errors of the selector, the deletions and the listing of plugins do not end the round.\<close>

definition goOn :: "('w, 'a) io \<Rightarrow> 'a \<Rightarrow> ('w, 'a) io" where
  "goOn m x = io_try m (\<lambda>_. io_return x) io_return"

definition reapPlugins :: "'w kube \<Rightarrow> nsname \<Rightarrow> nat \<Rightarrow> ('w, bool) io" where
  "reapPlugins cl key attempt =
    (if maxAttempts < attempt then io_return False
     else
       io_try (getTfResource cl key 3) endRound (\<lambda>tf.
       let sel = (case k_labels_parse cl (pluginSelector (tf_name tf) (tf_generation tf)) of
                    None \<Rightarrow> pluginSelector (tf_name tf) (tf_generation tf) | Some _ \<Rightarrow> []);
           ns = tf_namespace tf in
       io_bind (goOn (k_delete_all_of cl JobKind ns sel []) ()) (\<lambda>_.
       io_bind (goOn (k_delete_all_of cl PodKind ns sel []) ()) (\<lambda>_.
       io_bind (goOn (k_list cl PodKind ns sel) []) (\<lambda>pods. io_return (0 < length pods))))))"

section \<open>The chain of rounds\<close>

fun reapLoop :: "(nat \<Rightarrow> ('w, bool) io) \<Rightarrow> nat \<Rightarrow> nat \<Rightarrow> ('w, nat option) io" where
  "reapLoop round 0 attempt = io_return None"
| "reapLoop round (Suc fuel) attempt =
     io_bind (round attempt) (\<lambda>again. if again then reapLoop round fuel (Suc attempt) else io_return (Some attempt))"

locale reaper =
  fixes round :: "nat \<Rightarrow> ('w, bool) io"
  assumes gives_up: "maxAttempts < attempt \<Longrightarrow> round attempt w = (Inr False, w)"
begin

text \<open>A chain ends within 22 rounds of attempt 0, or in a panic of the client.\<close>

lemma loop_ends:
  assumes "attempt \<le> Suc maxAttempts" and "Suc maxAttempts - attempt < fuel"
  shows "(\<exists>n w'. reapLoop round fuel attempt w = (Inr (Some n), w') \<and> n \<le> Suc maxAttempts) \<or>
    (\<exists>e w'. reapLoop round fuel attempt w = (Inl e, w'))"
  using assms
proof (induction fuel arbitrary: attempt w)
  case (Suc fuel)
  show ?case
  proof (cases "maxAttempts < attempt")
    case True
    then show ?thesis using gives_up Suc.prems by (simp add: io_bind_def)
  next
    case False
    then have p: "Suc attempt \<le> Suc maxAttempts" "Suc maxAttempts - Suc attempt < fuel"
      using Suc.prems by simp_all
    obtain r w' where r: "round attempt w = (r, w')" by (cases "round attempt w")
    show ?thesis
    proof (cases r)
      case (Inl e)
      then show ?thesis using r by (simp add: io_bind_def)
    next
      case (Inr again)
      then show ?thesis using r Suc.IH [OF p, of w'] Suc.prems by (simp add: io_bind_def)
    qed
  qed
qed simp

end

interpretation tf_pod_reaper: reaper "backgroundReapOldGenerationPods cl key" for cl :: "'w kube" and key :: nsname
  by unfold_locales (simp add: backgroundReapOldGenerationPods_def)

interpretation tf_plugin_reaper: reaper "reapPlugins cl key" for cl :: "'w kube" and key :: nsname
  by unfold_locales (simp add: reapPlugins_def)

end
