(* ===== verification/TfReconcile.thy ===== *)
theory TfReconcile
  imports TfReaper
begin

text \<open>
  One reconciliation of a \<open>Terraform\<close> resource (\<open>Reconcile\<close> and \<open>reconcile\<close> of
  \<open>pkg/controllers/tf_controller.go\<close>), from the lock to the status of the pod, with the
  plugins. Each early return of the source is a branch; the parts of the function are
  definitions of their own, in the order of the source.
\<close>

section \<open>Results\<close>

datatype Result = Done | Requeue | RequeueAfter int

type_synonym 'w tfio = "(('w, Terraform) rstate, Result) io"
type_synonym 'w tfproc = "(('w, Terraform) rstate, unit) io"

text \<open>\<open>updateStatusWithRetry(ctx, tf, &tf.Status, logger)\<close> on the resource of the state.\<close>

definition afterUpdate :: "('w, goerr option \<times> Terraform) io \<Rightarrow> 'w tfproc" where
  "afterUpdate m = (\<lambda>s. case m (r_cluster s) of
     (Inl e, w') \<Rightarrow> (Inl e, s\<lparr>r_cluster := w'\<rparr>)
   | (Inr (eo, tf'), w') \<Rightarrow>
       (case eo of None \<Rightarrow> Inr () | Some e \<Rightarrow> Inl e, s\<lparr>r_cluster := w', r_res := tf'\<rparr>))"

definition save :: "'w kube \<Rightarrow> 'w tfproc" where
  "save cl = (\<lambda>s. afterUpdate (saveStatus cl (r_res s)) s)"

text \<open>\<open>update\<close> on the resource of the state.\<close>

definition updateRes :: "'w kube \<Rightarrow> 'w tfproc" where
  "updateRes cl = (\<lambda>s. io_bind (on_cluster (updateTf cl (r_res s))) setRes s)"

text \<open>\<open>if err != nil { return Result, nil }; return Done, nil\<close> after a save.\<close>

definition saveThen :: "'w kube \<Rightarrow> Result \<Rightarrow> 'w tfio" where
  "saveThen cl onError = io_try (save cl) (\<lambda>_. io_return onError) (\<lambda>_. io_return Done)"

definition saveOrFail :: "'w kube \<Rightarrow> 'w tfio" where
  "saveOrFail cl = io_bind (save cl) (\<lambda>_. io_return Done)"

definition tfEvent :: "'w kube \<Rightarrow> string \<Rightarrow> string \<Rightarrow> string \<Rightarrow> 'w tfproc" where
  "tfEvent cl typ reason message = (\<lambda>s. on_cluster (io_modify (k_event cl (tfOwner (r_res s)) typ reason message)) s)"

definition panicWith :: "string \<Rightarrow> ('s, 'a) io" where
  "panicWith m = io_throw (ErrPanic m)"

section \<open>The end and the beginning of a resource\<close>

definition withEvent :: "'w kube \<Rightarrow> (('w, Terraform) rstate, 'a) io \<Rightarrow> (('w, Terraform) rstate, 'a) io" where
  "withEvent cl m =
    io_try m (\<lambda>err. io_bind (tfEvent cl ''Warning'' ''ProcessingError'' (err_text err)) (\<lambda>_. io_throw err)) io_return"

definition removeFinalizers :: "'w kube \<Rightarrow> 'w tfio" where
  "removeFinalizers cl =
    io_bind (withEvent cl (\<lambda>s. on_cluster (updateSecretFinalizer cl (r_res s)) s)) (\<lambda>_.
    io_bind (\<lambda>s. case updateFinalizer (r_res s) of
        None \<Rightarrow> panicWith ''slice bounds out of range'' s | Some (_, tf') \<Rightarrow> setRes tf' s) (\<lambda>_.
    io_bind (withEvent cl (updateRes cl)) (\<lambda>_. io_return Done)))"

definition podNamePrefixOf :: "(nat \<Rightarrow> nat \<Rightarrow> nat) \<Rightarrow> string \<Rightarrow> string option" where
  "podNamePrefixOf rnd name =
    map_option (\<lambda>suffix. TruncateResourceName name 54 @ ''-'' @ suffix) (StringWithCharset rnd 8 AlphaNum)"

definition initializeResource :: "'w kube \<Rightarrow> (nat \<Rightarrow> nat \<Rightarrow> nat) \<Rightarrow> 'w tfio" where
  "initializeResource cl rnd = (\<lambda>s. case podNamePrefixOf rnd (tf_name (r_res s)) of
     None \<Rightarrow> panicWith ''invalid argument to Intn'' s
   | Some prefix \<Rightarrow>
       io_bind (modifyRes (\<lambda>tf. tfSetStatus tf ((tf_status tf)\<lparr>tfst_podNamePrefix := prefix,
                  tfst_lastCompletedGeneration := 0, tfst_phase := PhaseInitializing\<rparr>)))
         (\<lambda>_. saveThen cl Done) s)"

definition addFirstStage :: "'w kube \<Rightarrow> 'w tfio" where
  "addFirstStage cl =
    io_bind (\<lambda>s. case newStage (k_now cl (r_cluster s)) (r_res s) RunSetup ''TF_RESOURCE_CREATED'' CanNotBeInterrupt StateInitializing of
        (stage, tf) \<Rightarrow> setRes (tfSetPlugins (tfSetStage tf stage) []) s)
      (\<lambda>_. saveOrFail cl)"

section \<open>Moving to the next stage\<close>

definition isRestart :: "string \<Rightarrow> bool" where
  "isRestart reason \<longleftrightarrow> reason = ''RESTARTED_WORKFLOW'' \<or> reason = ''RESTARTED_DELETE_WORKFLOW''"

text \<open>The reason handed to \<open>removeOldPlan\<close> is that of the stage being left.\<close>

definition moveStage :: "'w kube \<Rightarrow> Stage \<Rightarrow> 'w tfio" where
  "moveStage cl stage =
    io_bind (\<lambda>s. (if isRestart (stg_reason stage)
       then io_try (on_cluster (removeOldPlan cl (tf_namespace (r_res s)) (tf_name (r_res s))
               (stg_reason (tfStage (r_res s))) (tf_generation (r_res s)))) (\<lambda>_. io_return ()) io_return
       else io_return ()) s) (\<lambda>_.
    io_bind (modifyRes (\<lambda>tf. tfSetStage tf stage)) (\<lambda>_.
    io_bind (\<lambda>s. io_try (afterUpdate (updateStatusWithRetry cl False (r_res s) (tf_status (r_res s))))
               (\<lambda>_. io_return ()) io_return s) (\<lambda>_.
    (\<lambda>s. (if tfs_keepLatestPodsOnly (tf_spec (r_res s))
       then io_bind (spawn (ReapOldGenerationPods (tfOwner (r_res s)) (tfKey (r_res s)) 0)) (\<lambda>_. io_return Done)
       else io_return Done) s))))"

section \<open>The end of a workflow\<close>

definition mergeOutputs :: "(string, string) gomap \<Rightarrow> (string, string) gomap \<Rightarrow> (string, string) gomap" where
  "mergeOutputs outputs data =
    AList.merge (filter (\<lambda>(k, v). ListContainsStr (map fst data) k) outputs) data"

text \<open>A secret that cannot be loaded counts as an empty one.\<close>

definition loadOutputs :: "'w kube \<Rightarrow> TaskOptions \<Rightarrow> 'w tfproc" where
  "loadOutputs cl runOpts =
    io_bind (io_try (on_cluster (loadSecret cl (o_outputsSecretName runOpts) (o_namespace runOpts)))
               (\<lambda>_. io_return []) (\<lambda>secret. io_return (sec_data secret)))
      (\<lambda>data. modifyRes (\<lambda>tf. tfSetStatus tf
          ((tf_status tf)\<lparr>tfst_outputs := mergeOutputs (tfst_outputs (tf_status tf)) data\<rparr>)))"

definition finishWorkflow :: "'w kube \<Rightarrow> TaskOptions \<Rightarrow> 'w tfio" where
  "finishWorkflow cl runOpts = (\<lambda>s.
    (if tfPhase (r_res s) = PhaseRunning
     then io_bind (modifyRes (\<lambda>tf. tfSetPhase tf PhaseCompleted)) (\<lambda>_.
          io_bind (if tfs_writeOutputsToStatus (tf_spec (r_res s)) then loadOutputs cl runOpts else io_return ())
            (\<lambda>_. saveOrFail cl))
     else if tfPhase (r_res s) = PhaseDeleting
     then io_bind (modifyRes (\<lambda>tf. tfSetPhase tf PhaseDeleted)) (\<lambda>_. saveOrFail cl)
     else io_return Done) s)"

section \<open>Plugins\<close>

type_synonym selectors = "opaque option \<times> (string, string) gomap \<times> opaque list"

definition taskOptionsOf :: "reconciler \<Rightarrow> selectors \<Rightarrow> Terraform \<Rightarrow> TaskName \<Rightarrow> int \<Rightarrow> EnvFromSource list \<Rightarrow> TaskOptions" where
  "taskOptionsOf rc sel tf task generation globalEnvFrom =
    (case sel of (affinity, nodeSelector, tolerations) \<Rightarrow>
       newTaskOptions tf task generation globalEnvFrom affinity nodeSelector tolerations
         (rc_requireApprovalImage rc) (rc_cacheURL rc) (rc_autoDownload rc) (rc_downloadBaseURL rc) (rc_taskImage rc))"

definition getPluginRunOpts :: "reconciler \<Rightarrow> selectors \<Rightarrow> Terraform \<Rightarrow> TaskName \<Rightarrow> Plugin \<Rightarrow> EnvFromSource list \<Rightarrow> TaskOptions" where
  "getPluginRunOpts rc sel tf pluginTaskName pluginConfig globalEnvFrom =
    (taskOptionsOf rc sel tf pluginTaskName (tf_generation tf) globalEnvFrom)
      \<lparr>o_image := ic_image (pl_imageConfig pluginConfig),
       o_imagePullPolicy := ic_imagePullPolicy (pl_imageConfig pluginConfig)\<rparr>"

definition getPluginSidecarPod :: "reconciler \<Rightarrow> selectors \<Rightarrow> Terraform \<Rightarrow> TaskName \<Rightarrow> Plugin \<Rightarrow> EnvFromSource list \<Rightarrow> goerr + Pod" where
  "getPluginSidecarPod rc sel tf pluginTaskName pluginConfig globalEnvFrom =
    generatePod (getPluginRunOpts rc sel tf pluginTaskName pluginConfig globalEnvFrom)"

definition createPluginJob :: "'w kube \<Rightarrow> reconciler \<Rightarrow> EnvFromSource list \<Rightarrow> TaskName \<times> Plugin \<Rightarrow> 'w tfproc" where
  "createPluginJob cl rc globalEnvFrom plugin = (\<lambda>s.
    case getNodeSelectorsFromCache rc (r_cache s) of
      Inl e \<Rightarrow> (Inl e, s)
    | Inr sel \<Rightarrow>
        io_seq
          [spawn (CreateJob (tfOwner (r_res s)) (getPluginRunOpts rc sel (r_res s) (fst plugin) (snd plugin) globalEnvFrom)),
           modifyRes (\<lambda>tf. tfSetPlugins tf (tfst_pluginsStarted (tf_status tf) @ [fst plugin])),
           save cl] s)"

text \<open>What the loop over the plugins collects: jobs to start later, names and pods of sidecars.\<close>

record pluginAcc =
  pa_jobs :: "(TaskName \<times> Plugin) list"
  pa_names :: "string list"
  pa_pods :: "Pod list"

definition sidecarExists :: "pluginAcc \<Rightarrow> Pod \<Rightarrow> bool" where
  "sidecarExists acc pod \<longleftrightarrow> list_ex (\<lambda>c. ListContainsStr (pa_names acc) (ct_name c)) (ps_containers (pod_spec pod))"

definition addSidecarPod :: "pluginAcc \<Rightarrow> Pod \<Rightarrow> pluginAcc" where
  "addSidecarPod acc pod =
    (if sidecarExists acc pod then acc
     else acc\<lparr>pa_names := pa_names acc @ getContainerNames pod, pa_pods := pa_pods acc @ [pod]\<rparr>)"

text \<open>The loop; \<open>False\<close> when a sidecar that must be there cannot be made.\<close>

fun pluginLoop :: "reconciler \<Rightarrow> selectors \<Rightarrow> Terraform \<Rightarrow> TaskName \<Rightarrow> EnvFromSource list
    \<Rightarrow> (TaskName \<times> Plugin) list \<Rightarrow> pluginAcc \<Rightarrow> bool \<times> pluginAcc" where
  "pluginLoop rc sel tf podType env [] acc = (True, acc)"
| "pluginLoop rc sel tf podType env ((name, cfg) # plugins) acc =
     (if ListContainsTask (tfst_pluginsStarted (tf_status tf)) name then pluginLoop rc sel tf podType env plugins acc
      else if pl_when cfg = ''After'' then
        pluginLoop rc sel tf podType env plugins
          (if TaskID (pl_task cfg) < TaskID podType then acc\<lparr>pa_jobs := pa_jobs acc @ [(name, cfg)]\<rparr> else acc)
      else if pl_when cfg = ''At'' then
        pluginLoop rc sel tf podType env plugins
          (if TaskID (pl_task cfg) = TaskID podType then acc\<lparr>pa_jobs := pa_jobs acc @ [(name, cfg)]\<rparr> else acc)
      else if pl_when cfg = ''Sidecar'' \<and> TaskID (pl_task cfg) = TaskID podType then
        (case getPluginSidecarPod rc sel tf name cfg env of
           Inl err \<Rightarrow> if pl_must cfg then (False, acc) else pluginLoop rc sel tf podType env plugins acc
         | Inr pod \<Rightarrow> pluginLoop rc sel tf podType env plugins (addSidecarPod acc pod))
      else pluginLoop rc sel tf podType env plugins acc)"

definition approvalPlugin :: "TaskOptions \<Rightarrow> Plugin" where
  "approvalPlugin runOpts =
    \<lparr>pl_imageConfig = \<lparr>ic_image = o_requireApprovalImage runOpts, ic_imagePullPolicy = ''IfNotPresent''\<rparr>,
     pl_when = [], pl_task = [], pl_must = True\<rparr>"

definition addApproval :: "reconciler \<Rightarrow> selectors \<Rightarrow> Terraform \<Rightarrow> TaskName \<Rightarrow> EnvFromSource list \<Rightarrow> TaskOptions
    \<Rightarrow> pluginAcc \<Rightarrow> pluginAcc option" where
  "addApproval rc sel tf podType env runOpts acc =
    (if (podType = RunPlan \<or> podType = RunPlanDelete) \<and> o_requireApproval runOpts
     then (case getPluginSidecarPod rc sel tf ''require-approval'' (approvalPlugin runOpts) env of
             Inl err \<Rightarrow> None
           | Inr pod \<Rightarrow> Some (if sidecarExists acc pod then acc else acc\<lparr>pa_pods := pa_pods acc @ [pod]\<rparr>))
     else Some acc)"

section \<open>Starting the pod of a stage\<close>

definition phaseAfterStart :: "StatusPhase \<Rightarrow> StatusPhase" where
  "phaseAfterStart p = (if p = PhaseInitializing then PhaseRunning else if p = PhaseInitDelete then PhaseDeleting else p)"

definition setStageState :: "StageState \<Rightarrow> Terraform \<Rightarrow> Terraform" where
  "setStageState st tf = tfSetStage tf ((tfStage tf)\<lparr>stg_state := st\<rparr>)"

definition launch :: "'w kube \<Rightarrow> urllib \<Rightarrow> reconciler \<Rightarrow> TaskOptions \<Rightarrow> 'w tfio" where
  "launch cl ul rc runOpts =
    io_bind (setupAndRun cl ul rc runOpts) (\<lambda>_.
    io_bind (modifyRes (\<lambda>tf. setStageState StateInProgress (tfSetPhase tf (phaseAfterStart (tfPhase tf))))) (\<lambda>_.
    saveThen cl Requeue))"

fun withDeferred :: "(('s, unit) io) list \<Rightarrow> ('s, 'a) io \<Rightarrow> ('s, 'a) io" where
  "withDeferred [] m = m"
| "withDeferred (d # ds) m = io_finally (withDeferred ds m) d"

definition startStage :: "'w kube \<Rightarrow> urllib \<Rightarrow> reconciler \<Rightarrow> selectors \<Rightarrow> EnvFromSource list \<Rightarrow> TaskOptions \<Rightarrow> TaskName \<Rightarrow> 'w tfio" where
  "startStage cl ul rc sel env runOpts podType = (\<lambda>s.
    let tf = r_res s;
        (complete, acc) = pluginLoop rc sel tf podType env (tfs_plugins (tf_spec tf)) \<lparr>pa_jobs = [], pa_names = [], pa_pods = []\<rparr>;
        deferred = map (createPluginJob cl rc env) (pa_jobs acc)
    in withDeferred deferred
         (if \<not> complete then io_return Requeue
          else case addApproval rc sel tf podType env runOpts acc of
                 None \<Rightarrow> io_return Requeue
               | Some acc' \<Rightarrow> launch cl ul rc (runOpts\<lparr>o_sidecarPlugins := o_sidecarPlugins runOpts @ pa_pods acc'\<rparr>)) s)"

section \<open>Following the pod of a stage\<close>

definition observePod :: "Pod \<Rightarrow> Terraform \<Rightarrow> Terraform" where
  "observePod pod tf = tfSetStage tf ((tfStage tf)
     \<lparr>stg_podUID := pod_uid pod, stg_podName := pod_name pod,
      stg_message := ''Pod '' @ quoted (pod_name pod) @ '' '' @ pod_phase pod\<rparr>)"

definition stopStage :: "StageState \<Rightarrow> int \<Rightarrow> Terraform \<Rightarrow> Terraform" where
  "stopStage st now tf = tfSetStage tf ((tfStage tf)\<lparr>stg_state := st, stg_stopTime := now\<rparr>)"

definition followPod :: "'w kube \<Rightarrow> Pod \<Rightarrow> 'w tfio" where
  "followPod cl pod =
    io_bind (modifyRes (observePod pod)) (\<lambda>_ s.
      (if pod_phase pod = ''Failed''
       then io_bind (modifyRes (stopStage StateFailed (k_now cl (r_cluster s)))) (\<lambda>_. saveOrFail cl)
       else if pod_phase pod = ''Succeeded''
       then io_bind (modifyRes (stopStage StateComplete (k_now cl (r_cluster s)))) (\<lambda>_.
            io_bind (save cl) (\<lambda>_ s'.
              (if \<not> tfs_keepCompletedPods (tf_spec (r_res s')) \<and> \<not> tfs_keepLatestPodsOnly (tf_spec (r_res s'))
               then io_try (on_cluster (k_delete cl PodKind (pod_namespace pod, pod_name pod)))
                      (\<lambda>_. io_return Done) (\<lambda>_. io_return Done)
               else io_return Done) s'))
       else io_bind (modifyRes (setStageState (pod_phase pod))) (\<lambda>_. saveOrFail cl)) s)"

definition stagePodName :: "Terraform \<Rightarrow> string" where
  "stagePodName tf = generateNameOf (tfst_podNamePrefix (tf_status tf) @ ''-v'' @ itoa (stg_generation (tfStage tf)))
     (stg_taskType (tfStage tf))"

definition podsSince :: "int option \<Rightarrow> Pod list \<Rightarrow> Pod list" where
  "podsSince retryTimestamp pods =
    (case retryTimestamp of
       None \<Rightarrow> pods
     | Some t \<Rightarrow> filter (\<lambda>p. case pod_creationTimestamp p of None \<Rightarrow> True | Some c \<Rightarrow> \<not> c < t) pods)"

definition workOnStage :: "'w kube \<Rightarrow> urllib \<Rightarrow> reconciler \<Rightarrow> selectors \<Rightarrow> EnvFromSource list \<Rightarrow> TaskOptions \<Rightarrow> 'w tfio" where
  "workOnStage cl ul rc sel env runOpts = (\<lambda>s.
    let tf = r_res s; podType = stg_taskType (tfStage tf) in
    io_try (on_cluster (k_list_pods cl (tf_namespace tf) (stagePodName tf)
              (tfLabelPrefix @ ''generation'', itoa (stg_generation (tfStage tf)))))
      (\<lambda>_. io_return Done)
      (\<lambda>found. case podsSince (tfst_retryTimestamp (tf_status tf)) found of
         [] \<Rightarrow> (if stg_state (tfStage tf) = StateInProgress
               then io_bind (modifyRes (setStageState StateInitializing)) (\<lambda>_. saveThen cl Requeue)
               else startStage cl ul rc sel env runOpts podType)
       | pod # _ \<Rightarrow> followPod cl pod) s)"

section \<open>The reconciliation\<close>

text \<open>No new stage: the current one is finished or worked on.\<close>

definition handleStage :: "'w kube \<Rightarrow> urllib \<Rightarrow> reconciler \<Rightarrow> 'w tfio" where
  "handleStage cl ul rc = (\<lambda>s.
    case getNodeSelectorsFromCache rc (r_cache s) of
      Inl e \<Rightarrow> (Inl e, s)
    | Inr sel \<Rightarrow>
        let env = listEnvFromSources rc (r_res s);
            stage = tfStage (r_res s);
            runOpts = taskOptionsOf rc sel (r_res s) (stg_taskType stage) (stg_generation stage) env
        in (if stg_taskType stage = RunNil then finishWorkflow cl runOpts
            else workOnStage cl ul rc sel env runOpts) s)"

definition reconcileStage :: "'w kube \<Rightarrow> urllib \<Rightarrow> reconciler \<Rightarrow> 'w tfio" where
  "reconcileStage cl ul rc =
    io_bind (modifyRes markDeletion) (\<lambda>_.
    io_bind (\<lambda>s. case markRetry (k_now cl (r_cluster s)) (r_res s) of
        (retry, tf) \<Rightarrow> (Inr retry, s\<lparr>r_res := tf\<rparr>)) (\<lambda>retry.
    io_bind (\<lambda>s. on_cluster (checkSetNewStage cl retry (r_res s)) s) (\<lambda>(newStage, tf).
    io_bind (setRes tf) (\<lambda>_.
      (case newStage of
         Some stage \<Rightarrow> moveStage cl stage
       | None \<Rightarrow> handleStage cl ul rc)))))"

definition reconcileLocked :: "'w kube \<Rightarrow> urllib \<Rightarrow> reconciler \<Rightarrow> (nat \<Rightarrow> nat \<Rightarrow> nat) \<Rightarrow> nsname \<Rightarrow> 'w tfio" where
  "reconcileLocked cl ul rc rnd key =
    io_try (on_cluster (getTfResource cl key 3))
      (\<lambda>err. if IsNotFound err then io_return Done else io_throw err)
      (\<lambda>tf. io_bind (setRes tf) (\<lambda>_.
        if tfPhase tf = PhaseDeleted then removeFinalizers cl
        else case updateFinalizer tf of
          None \<Rightarrow> panicWith ''slice bounds out of range''
        | Some (True, tf') \<Rightarrow> io_bind (setRes tf') (\<lambda>_. io_bind (updateRes cl) (\<lambda>_. io_return Done))
        | Some (False, _) \<Rightarrow>
            if tfst_podNamePrefix (tf_status tf) = [] then initializeResource cl rnd
            else if stg_generation (tfStage tf) = 0 then addFirstStage cl
            else reconcileStage cl ul rc))"

definition reconcile :: "'w kube \<Rightarrow> 'w controlPlane \<Rightarrow> urllib \<Rightarrow> reconciler \<Rightarrow> (nat \<Rightarrow> nat \<Rightarrow> nat) \<Rightarrow> string
    \<Rightarrow> nsname \<Rightarrow> string \<Rightarrow> 'w tfio" where
  "reconcile cl cp ul rc rnd reconcilerID key lockKeyBase =
    io_bind (cacheNodeSelectors cp rc) (\<lambda>_ s.
      let lockKey = lockKeyBase @ lockSuffix in
      (case map_of (r_cache s) lockKey of
         Some (CachedText lockOwner) \<Rightarrow> io_return (RequeueAfter 30)
       | Some _ \<Rightarrow> panicWith ''interface conversion''
       | None \<Rightarrow> io_bind (cacheSet lockKey (CachedText reconcilerID))
           (\<lambda>_. io_finally (reconcileLocked cl ul rc rnd key) (cacheDelete lockKey))) s)"

text \<open>
  \<open>Reconcile\<close>: the client and the event recorder of the cluster of the request, or the
  controller's own where no function for clusters is set.
\<close>

type_synonym 'w recorder = "owner \<Rightarrow> string \<Rightarrow> string \<Rightarrow> string \<Rightarrow> 'w \<Rightarrow> 'w"

definition clientForCluster :: "(string \<Rightarrow> goerr + 'w kube) option \<Rightarrow> 'w kube \<Rightarrow> string \<Rightarrow> goerr + 'w kube" where
  "clientForCluster clients own clusterName = (case clients of None \<Rightarrow> Inr own | Some f \<Rightarrow> f clusterName)"

definition recorderForCluster :: "(string \<Rightarrow> goerr + 'w recorder) option \<Rightarrow> 'w recorder \<Rightarrow> string \<Rightarrow> goerr + 'w recorder" where
  "recorderForCluster recorders own clusterName = (case recorders of None \<Rightarrow> Inr own | Some f \<Rightarrow> f clusterName)"

definition Reconcile :: "(string \<Rightarrow> goerr + 'w kube) option \<Rightarrow> (string \<Rightarrow> goerr + 'w recorder) option \<Rightarrow> 'w kube
    \<Rightarrow> 'w controlPlane \<Rightarrow> urllib \<Rightarrow> reconciler \<Rightarrow> (nat \<Rightarrow> nat \<Rightarrow> nat) \<Rightarrow> string \<Rightarrow> string \<Rightarrow> nsname \<Rightarrow> string \<Rightarrow> 'w tfio" where
  "Reconcile clients recorders own cp ul rc rnd reconcilerID clusterName key requestText =
    (case clientForCluster clients own clusterName of
       Inl err \<Rightarrow> io_throw err
     | Inr cl \<Rightarrow>
        (case recorderForCluster recorders (k_event own) clusterName of
           Inl err \<Rightarrow> io_throw err
         | Inr rec \<Rightarrow> reconcile (cl\<lparr>k_event := rec\<rparr>) cp ul rc rnd reconcilerID key requestText))"

end
