(* ===== verification/Returns.thy ===== *)
theory Returns
  imports TfReconcile
begin

text \<open>
  Total correctness of state-passing code. \<open>brings P m Q\<close>: from every state of \<open>P\<close>, \<open>m\<close>
  returns a value, not an error, and ends in a state of \<open>Q\<close> for that value. One rule for
  each way the controllers compose their steps.
\<close>

definition brings :: "('s \<Rightarrow> bool) \<Rightarrow> ('s, 'a) io \<Rightarrow> ('a \<Rightarrow> 's \<Rightarrow> bool) \<Rightarrow> bool" where
  "brings P m Q \<longleftrightarrow> (\<forall>s. P s \<longrightarrow> (\<exists>x s'. m s = (Inr x, s') \<and> Q x s'))"

lemma bringsI: "(\<And>s. P s \<Longrightarrow> \<exists>x s'. m s = (Inr x, s') \<and> Q x s') \<Longrightarrow> brings P m Q"
  by (simp add: brings_def)

lemma bringsE:
  assumes "brings P m Q" and "P s"
  obtains x s' where "m s = (Inr x, s')" and "Q x s'"
  using assms unfolding brings_def by blast

lemma brings_cong: "(\<And>s. P s \<Longrightarrow> m s = n s) \<Longrightarrow> brings P n Q \<Longrightarrow> brings P m Q"
  by (simp add: brings_def)

lemma brings_post: "brings P m Q \<Longrightarrow> (\<And>x s. Q x s \<Longrightarrow> R x s) \<Longrightarrow> brings P m R"
  unfolding brings_def by meson

lemma brings_ex: "(\<And>x. brings (P x) m Q) \<Longrightarrow> brings (\<lambda>s. \<exists>x. P x s) m Q"
  unfolding brings_def by blast

lemma brings_pure: "(A \<Longrightarrow> brings P m Q) \<Longrightarrow> brings (\<lambda>s. P s \<and> A) m Q"
  unfolding brings_def by blast

lemma brings_return: "(\<And>s. P s \<Longrightarrow> Q x s) \<Longrightarrow> brings P (io_return x) Q"
  by (simp add: brings_def)

lemma brings_bind: "brings P m Q \<Longrightarrow> (\<And>x. brings (Q x) (f x) R) \<Longrightarrow> brings P (io_bind m f) R"
  unfolding brings_def io_bind_def by fastforce

text \<open>The handler of an error is not reached.\<close>

lemma brings_try: "brings P m Q \<Longrightarrow> (\<And>x. brings (Q x) (f x) R) \<Longrightarrow> brings P (io_try m h f) R"
  unfolding brings_def io_try_def by fastforce

text \<open>Where the error is handled, it may occur, but no panic.\<close>

lemma brings_try_any:
  assumes "\<And>s r s'. P s \<Longrightarrow> m s = (r, s') \<Longrightarrow> Q s' \<and> (\<forall>e. r = Inl e \<longrightarrow> \<not> is_panic e)"
    and "\<And>e. brings Q (h e) R" and "\<And>x. brings Q (f x) R"
  shows "brings P (io_try m h f) R"
proof (rule bringsI)
  fix s assume p: "P s"
  obtain r s' where m: "m s = (r, s')" by (rule prod.exhaust)
  with assms(1) [OF p] have "Q s'" "\<forall>e. r = Inl e \<longrightarrow> \<not> is_panic e" by blast+
  then show "\<exists>x s'. io_try m h f s = (Inr x, s') \<and> R x s'"
    using m assms(2,3) by (cases r) (auto simp: io_try_def brings_def)
qed

lemma brings_Nil: "(\<And>s. P s \<Longrightarrow> Q () s) \<Longrightarrow> brings P (io_seq []) Q"
  by (simp add: brings_def)

lemma brings_Cons: "brings P m (\<lambda>_. Q) \<Longrightarrow> brings Q (io_seq ms) R \<Longrightarrow> brings P (io_seq (m # ms)) R"
  unfolding brings_def by fastforce

lemma brings_finally: "brings P m (\<lambda>_. Q) \<Longrightarrow> brings Q d (\<lambda>_. R) \<Longrightarrow> brings P (io_finally m d) (\<lambda>_. R)"
  unfolding brings_def io_finally_def by fastforce

lemma brings_withDeferred:
  "(\<And>d. d \<in> set ds \<Longrightarrow> brings R d (\<lambda>_. R)) \<Longrightarrow> brings P m (\<lambda>_. R) \<Longrightarrow> brings P (withDeferred ds m) (\<lambda>_. R)"
  by (induction ds) (auto intro: brings_finally)

text \<open>A step on the cluster that changes the cluster only.\<close>

lemma brings_on_cluster:
  assumes "\<And>s. P s \<Longrightarrow> \<exists>x w. m (r_cluster s) = (Inr x, w) \<and> Q x (s\<lparr>r_cluster := w\<rparr>)"
  shows "brings P (on_cluster m) Q"
  using assms unfolding brings_def on_cluster_def by fastforce

lemma same_cluster [simp]: "s\<lparr>r_cluster := r_cluster s\<rparr> = s"
  by (cases s) simp

text \<open>Calling again and again.\<close>

primrec again :: "('s, 'a) io \<Rightarrow> nat \<Rightarrow> 's \<Rightarrow> 's" where
  "again m 0 s = s"
| "again m (Suc n) s = again m n (snd (m s))"

lemma again_add: "again m (i + j) s = again m j (again m i s)"
  by (induction i arbitrary: s) simp_all

text \<open>\<open>m\<close> returns each of the next \<open>n\<close> times it is called.\<close>

definition returns :: "('s, 'a) io \<Rightarrow> nat \<Rightarrow> 's \<Rightarrow> bool" where
  "returns m n s \<longleftrightarrow> (\<forall>i < n. \<exists>x. fst (m (again m i s)) = Inr x)"

lemma returns_0 [simp]: "returns m 0 s"
  by (simp add: returns_def)

lemma returns_Suc: "returns m (Suc n) s \<longleftrightarrow> (\<exists>x. fst (m s) = Inr x) \<and> returns m n (snd (m s))"
  unfolding returns_def using less_Suc_eq_0_disj by auto

lemma returns_add: "returns m (i + j) s \<longleftrightarrow> returns m i s \<and> returns m j (again m i s)"
  by (induction i arbitrary: s) (simp_all add: returns_Suc)

lemma brings_once: "brings P m (\<lambda>_. Q) \<Longrightarrow> P s \<Longrightarrow> returns m 1 s \<and> Q (again m 1 s)"
  unfolding brings_def by (fastforce simp: returns_def)

lemma brings_then:
  assumes "returns m i s \<and> P (again m i s)" and "brings P m (\<lambda>_. Q)"
  shows "returns m (i + 1) s \<and> Q (again m (i + 1) s)"
  using brings_once [OF assms(2)] assms(1) unfolding returns_add again_add by blast

end
