(* ===== verification/Frame.thy ===== *)
theory Frame
  imports Controller
begin

text \<open>
  What the operations around a resource leave alone. The locale \<open>cluster_frame\<close> states of
  a property \<open>P\<close> of the cluster's state that no call of the client changes it, apart from
  the four calls that write a \<open>Terraform\<close> or a \<open>Tofu\<close>; its lemmas carry \<open>P\<close> through
  every operation the controllers build from the other calls. It is interpreted on the
  cluster in memory; the theories of the controllers use it for every server that keeps
  their laws.
\<close>

section \<open>The contract\<close>

locale cluster_frame =
  fixes cl :: "'w kube" and P :: "'w \<Rightarrow> bool"
  assumes frame_exists: "keeps P (k_exists cl k key)"
    and frame_get_secret: "keeps P (k_get_secret cl key)"
    and frame_update_secret: "keeps P (k_update_secret cl s)"
    and frame_create: "keeps P (k_create cl ow ob)"
    and frame_update: "keeps P (k_update cl ow ob)"
    and frame_delete: "keeps P (k_delete cl k key)"
    and frame_delete_all_of: "keeps P (k_delete_all_of cl k ns sel fsel)"
    and frame_list: "keeps P (k_list cl k ns sel)"
    and frame_list_pods: "keeps P (k_list_pods cl ns gen lab)"
    and frame_event: "P w \<Longrightarrow> P (k_event cl ow t r m w)"
    and frame_get_tf: "keeps P (k_get_tf cl key)"
    and frame_get_tofu: "keeps P (k_get_tofu cl key)"
begin

lemmas frame_calls = frame_exists frame_get_secret frame_update_secret frame_create frame_update frame_delete
  frame_delete_all_of frame_list frame_list_pods frame_get_tf frame_get_tofu

lemma frame_modify_event: "keeps P (io_modify (k_event cl ow t r m))"
  by (rule keeps_modify) (rule frame_event)

lemmas frame_intros = keeps_intros frame_calls frame_modify_event

lemma frame_getRetry: "keeps P get \<Longrightarrow> keeps P (getRetry z get n)"
proof (induction n)
  case 0
  then show ?case by (simp add: keeps_def)
next
  case (Suc n)
  then show ?case unfolding keeps_def by (auto split: prod.splits sum.splits)
qed

lemma frame_resource: "keeps P (getTfResource cl key n)" "keeps P (getTofuResource cl key n)"
  unfolding getTfResource_def getTofuResource_def by (intro frame_getRetry frame_calls)+

lemma frame_loadSecret: "keeps P (loadSecret cl name ns)"
  unfolding loadSecret_def by (intro frame_intros)

lemma frame_loadPassword: "keeps P (loadPassword cl key name ns)"
  unfolding loadPassword_def by (intro frame_intros)

lemma frame_createGitAskpass: "keeps P (createGitAskpass cl ref)"
  unfolding createGitAskpass_def by (intro frame_intros frame_loadSecret)

lemma frame_locks: "keeps P (lockGitSecretDeletion cl name ns key)" "keeps P (unlockGitSecretDeletion cl name ns key)"
  unfolding lockGitSecretDeletion_def unlockGitSecretDeletion_def by (intro frame_intros frame_loadSecret)+

lemma frame_checkExists: "keeps P (checkExists cl k key)"
  unfolding checkExists_def by (intro frame_intros)

lemma frame_deleteIfExists: "keeps P (deleteIfExists cl k name ns)"
  unfolding deleteIfExists_def by (intro frame_intros frame_checkExists)

lemma frame_reports: "keeps P (recordCreateError cl ow k err)" "keeps P (recordCreated cl ow k name)"
  unfolding recordCreateError_def recordCreated_def by (intro frame_intros)+

lemma frame_createReported: "keeps P (createReported cl ow ob)"
  unfolding createReported_def by (intro frame_intros frame_reports)

lemma frame_createOrUpdate: "keeps P (createOrUpdate cl ow ob)"
  unfolding createOrUpdate_def by (intro frame_intros)

lemma frame_recreate: "keeps P (recreate cl ow ob)"
  unfolding recreate_def by (intro frame_intros frame_deleteIfExists frame_createReported)

lemma frame_requireObject: "keeps P (requireObject cl k key)"
  unfolding requireObject_def by (intro frame_intros frame_checkExists)

lemmas frame_objects = frame_checkExists frame_deleteIfExists frame_reports frame_createReported
  frame_createOrUpdate frame_recreate frame_requireObject frame_loadSecret frame_loadPassword
  frame_createGitAskpass frame_locks frame_resource

end

section \<open>The cluster in memory\<close>

interpretation mem_frame: cluster_frame memCluster "\<lambda>w. Q (m_tfs w) (m_tofus w)" for Q
  by unfold_locales (auto simp: keeps_def mem_defs Let_def split: option.splits)

section \<open>Larger states\<close>

lemma keeps_on_cluster:
  assumes "keeps P m"
  shows "keeps (\<lambda>s. P (r_cluster s)) (on_cluster m)"
  using assms by (auto simp: keeps_def on_cluster_def split: prod.splits)

text \<open>\<open>m\<close> leaves the view \<open>v\<close> of the state alone.\<close>

definition leaves :: "('s \<Rightarrow> 'v) \<Rightarrow> ('s, 'a) io \<Rightarrow> bool" where
  "leaves v m \<longleftrightarrow> (\<forall>s. v (snd (m s)) = v s)"

lemma leaves_keeps: "leaves v m \<longleftrightarrow> (\<forall>x. keeps (\<lambda>s. v s = x) m)"
  by (auto simp: leaves_def keeps_def)

lemma leavesD: "leaves v m \<Longrightarrow> m s = (r, s') \<Longrightarrow> v s' = v s"
  by (metis leaves_def snd_conv)

text \<open>No call of the client but the four writing ones touches \<open>v\<close>.\<close>

definition untouched :: "'w kube \<Rightarrow> ('w \<Rightarrow> 'v) \<Rightarrow> bool" where
  "untouched cl v \<longleftrightarrow>
    (\<forall>k key. leaves v (k_exists cl k key)) \<and> (\<forall>key. leaves v (k_get_secret cl key)) \<and>
    (\<forall>s. leaves v (k_update_secret cl s)) \<and> (\<forall>ow ob. leaves v (k_create cl ow ob)) \<and>
    (\<forall>ow ob. leaves v (k_update cl ow ob)) \<and> (\<forall>k key. leaves v (k_delete cl k key)) \<and>
    (\<forall>k ns sel fsel. leaves v (k_delete_all_of cl k ns sel fsel)) \<and>
    (\<forall>k ns sel. leaves v (k_list cl k ns sel)) \<and>
    (\<forall>ns gen lab. leaves v (k_list_pods cl ns gen lab)) \<and>
    (\<forall>ow t r m w. v (k_event cl ow t r m w) = v w) \<and>
    (\<forall>key. leaves v (k_get_tf cl key)) \<and> (\<forall>key. leaves v (k_get_tofu cl key))"

lemma keeps_leaves: "leaves v m \<Longrightarrow> keeps (\<lambda>w. Q (v w)) m"
  by (simp add: leaves_def keeps_def)

lemma untouched_frame: "untouched cl v \<Longrightarrow> cluster_frame cl (\<lambda>w. Q (v w))"
  unfolding untouched_def by (elim conjE, intro cluster_frame.intro) (auto intro: keeps_leaves)

end
