(* ===== verification/ResourceStore.thy ===== *)
theory ResourceStore
  imports Frame StageMachine
begin

text \<open>
  The resources of one kind as the API server stores them, for either controller. First the
  specification a reconciliation is held to: \<open>progress\<close>, and \<open>stage_world\<close>, the worlds that
  come about by runs that make progress. The locale \<open>resource_server\<close> is the documented
  behaviour of the API server for one kind; in it, what a reconciliation holds and what is
  stored (\<open>joint\<close>) is carried through the steps. The locale \<open>resource_walk\<close> collects what
  a walk over the code of a controller needs of a property, whatever the property is.
\<close>

section \<open>The specification\<close>

text \<open>What one reconciliation may make of the stage \<open>old\<close>, for the moves \<open>adv\<close> of a controller.\<close>

definition sameTask :: "Stage \<Rightarrow> Stage \<Rightarrow> bool" where
  "sameTask old st \<longleftrightarrow> stg_generation st = stg_generation old \<and> stg_taskType st = stg_taskType old"

definition progress :: "(Stage \<Rightarrow> Stage \<Rightarrow> bool) \<Rightarrow> Stage \<Rightarrow> Stage \<Rightarrow> bool" where
  "progress adv old st \<longleftrightarrow>
    sameTask old st \<or>
    (if stg_generation old = 0 then stg_taskType st = RunSetup else adv old st)"

text \<open>Properties of a stage that look at its generation and task only.\<close>

definition taskBound :: "(Stage \<Rightarrow> bool) \<Rightarrow> bool" where
  "taskBound S \<longleftrightarrow> (\<forall>st st'. S st \<longrightarrow> sameTask st st' \<longrightarrow> S st')"

lemma taskBoundD: "taskBound S \<Longrightarrow> S st \<Longrightarrow> sameTask st st' \<Longrightarrow> S st'"
  by (simp add: taskBound_def)

lemma sameTask_progress: "sameTask old st \<Longrightarrow> progress adv old st"
  by (simp add: progress_def)

lemma sameTask_refl [simp]: "sameTask st st"
  by (simp add: sameTask_def)

lemma sameTask_bound: "taskBound (sameTask old)"
  by (simp add: taskBound_def sameTask_def)

text \<open>
  The worlds that can come about for one resource: it is created without a stage, the
  controller reconciles it (one reconciliation at a time, the lock sees to that), and
  everything else may happen to the cluster and to the resource that does not give it a
  stage: another user's edit, a deletion, pods that run. \<open>stageAt w\<close> is the stage of the
  stored resource, if there is one.
\<close>

inductive stage_world :: "('w \<Rightarrow> 'w \<Rightarrow> bool) \<Rightarrow> ('w \<Rightarrow> Stage option) \<Rightarrow> 'w \<Rightarrow> bool"
  for run stageAt where
  Absent: "stageAt w = None \<Longrightarrow> stage_world run stageAt w"
| Reconciled: "stage_world run stageAt w \<Longrightarrow> run w w' \<Longrightarrow> stage_world run stageAt w'"
| Elsewhere: "stage_world run stageAt w \<Longrightarrow>
    (\<forall>st'. stageAt w' = Some st' \<longrightarrow> stg_generation st' = 0 \<or>
       (\<exists>st. stageAt w = Some st \<and> sameTask st st')) \<Longrightarrow>
    stage_world run stageAt w'"

lemma progress_trace:
  assumes "progress adv old st" and "stg_generation old = 0 \<or> (\<exists>hist. stage_trace adv (old, hist))"
  shows "stg_generation st = 0 \<or> (\<exists>hist. stage_trace adv (st, hist))"
proof (cases "sameTask old st")
  case True
  then have "stage_step adv (old, hist) (st, hist)" for hist
    by (intro stage_step.Observe) (simp_all add: sameTask_def)
  then show ?thesis using assms(2) True stage_trace.Step by (metis sameTask_def)
next
  case False
  show ?thesis
  proof (cases "stg_generation old = 0")
    case True
    then have "stg_taskType st = RunSetup" using assms(1) False by (simp add: progress_def)
    then show ?thesis using stage_trace.Start by blast
  next
    case old: False
    then have "stage_step adv (old, hist) (st, old # hist)" for hist
      using assms(1) False by (intro stage_step.Advance) (simp add: progress_def)
    then show ?thesis using assms(2) old stage_trace.Step by metis
  qed
qed

lemma world_traced:
  assumes "\<And>w w' st'. run w w' \<Longrightarrow> stageAt w' = Some st' \<Longrightarrow> \<exists>st. stageAt w = Some st \<and> progress adv st st'"
    and "stage_world run stageAt w" and "stageAt w = Some st"
  shows "stg_generation st = 0 \<or> (\<exists>hist. stage_trace adv (st, hist))"
  using assms(2,3)
proof (induction arbitrary: st rule: stage_world.induct)
  case (Absent w)
  then show ?case by simp
next
  case (Reconciled w w')
  then obtain st0 where "stageAt w = Some st0" "progress adv st0 st" using assms(1) by blast
  then show ?case using Reconciled.IH progress_trace by blast
next
  case (Elsewhere w w')
  then consider "stg_generation st = 0" | st0 where "stageAt w = Some st0" "sameTask st0 st" by blast
  then show ?case
  proof cases
    case 2
    then show ?thesis using Elsewhere.IH progress_trace sameTask_progress by blast
  qed simp
qed

text \<open>The stage has a history in which what it applies has been planned.\<close>

definition applyPlanned :: "(Stage \<Rightarrow> Stage \<Rightarrow> bool) \<Rightarrow> Stage \<Rightarrow> bool" where
  "applyPlanned adv st \<longleftrightarrow> (\<exists>hist. stage_trace adv (st, hist) \<and>
    (stg_taskType st = RunApply \<longrightarrow> plan_done RunPlan (stg_generation st) hist) \<and>
    (stg_taskType st = RunApplyDelete \<longrightarrow> plan_done RunPlanDelete (stg_generation st) hist))"

context stage_controller begin

lemma world_applies:
  assumes "\<And>w w' st'. run w w' \<Longrightarrow> stageAt w' = Some st' \<Longrightarrow> \<exists>st. stageAt w = Some st \<and> progress adv st st'"
    and "stage_world run stageAt w" and "stageAt w = Some st" and "stg_generation st \<noteq> 0"
  shows "applyPlanned adv st"
  using world_traced [of run stageAt adv w st] assms trace_apply trace_apply_delete unfolding applyPlanned_def by blast

end

section \<open>The API server, for one kind of resource\<close>

text \<open>
  \<open>stored w key\<close> is the resource stored under a key. \<open>Get\<close> answers what is stored; an
  answered write is of the resource's own key, stores what it answers and at most
  removes the resource (the last finalizer of a deleted one is gone); the status
  subresource takes the stage it is sent, and \<open>Update\<close> does not invent a stage; a failed
  write stores nothing, and no other call writes a resource of this kind.
\<close>

lemma leaves_view: "leaves v m \<Longrightarrow> (\<And>w w'. v w' = v w \<Longrightarrow> u w' = u w) \<Longrightarrow> leaves u m"
  unfolding leaves_def by blast

lemma untouched_view:
  assumes "untouched cl v" and u: "\<And>w w'. v w' = v w \<Longrightarrow> u w' = u w"
  shows "untouched cl u"
proof -
  note l = leaves_view [of v _ u, OF _ u]
  show ?thesis using assms(1) unfolding untouched_def by (elim conjE) (intro conjI allI; (rule u | rule l); simp del: split_paired_All)
qed

locale resource_server =
  fixes cl :: "'w kube" and keyOf :: "'r \<Rightarrow> nsname" and stageOf :: "'r \<Rightarrow> Stage"
    and getRes :: "nsname \<Rightarrow> ('w, 'r) io" and putStatus :: "'r \<Rightarrow> ('w, 'r) io"
    and putRes :: "'r \<Rightarrow> ('w, 'r) io" and stored :: "'w \<Rightarrow> nsname \<Rightarrow> 'r option"
  assumes store_untouched: "untouched cl stored"
    and store_get: "getRes key w = (Inr r, w') \<Longrightarrow> keyOf r = key \<and> stored w key = Some r"
    and store_get_leaves: "leaves stored (getRes key)"
    and store_status_fails: "putStatus r w = (Inl e, w') \<Longrightarrow> stored w' = stored w"
    and store_status: "putStatus r w = (Inr r', w') \<Longrightarrow>
      keyOf r' = keyOf r \<and> stageOf r' = stageOf r \<and> stored w' \<in> {stored w, (stored w)(keyOf r \<mapsto> r')}"
    and store_update_fails: "putRes r w = (Inl e, w') \<Longrightarrow> stored w' = stored w"
    and store_update: "putRes r w = (Inr r', w') \<Longrightarrow>
      keyOf r' = keyOf r \<and>
      (stageOf r' = stageOf r \<or> (\<exists>old. stored w (keyOf r) = Some old \<and> stageOf r' = stageOf old)) \<and>
      stored w' \<in> {stored w, (stored w)(keyOf r \<mapsto> r'), (stored w)(keyOf r := None)}"
begin

lemma store_frame: "cluster_frame cl (\<lambda>w. Q (stored w))"
  by (rule untouched_frame [OF store_untouched])

lemma retried_get:
  assumes "getRetry z (getRes key) n w = (Inr r, w')" and "0 < n"
  shows "keyOf r = key \<and> stored w key = Some r \<and> stored w' = stored w"
  using assms
proof (induction n arbitrary: w)
  case (Suc n)
  obtain a v where a: "getRes key w = (a, v)" by (cases "getRes key w")
  have v: "stored v = stored w" using leavesD [OF store_get_leaves a] .
  show ?case
  proof (cases a)
    case (Inl err)
    then have "0 < n" "getRetry z (getRes key) n v = (Inr r, w')"
      using Suc.prems(1) a by (auto split: if_splits)
    then show ?thesis using Suc.IH v by metis
  next
    case (Inr x)
    then show ?thesis using Suc.prems(1) a v store_get [of key w x v] by simp
  qed
qed simp

text \<open>
  \<open>held S T key w\<close>: the stored stage under \<open>key\<close>, if any, is one of \<open>S\<close>, and the other
  resources are those of \<open>T\<close>.
\<close>

definition held :: "(Stage \<Rightarrow> bool) \<Rightarrow> (nsname \<Rightarrow> 'r option) \<Rightarrow> nsname \<Rightarrow> 'w \<Rightarrow> bool" where
  "held S T key w \<longleftrightarrow> (\<forall>r. stored w key = Some r \<longrightarrow> S (stageOf r)) \<and> (\<forall>k. k \<noteq> key \<longrightarrow> stored w k = T k)"

lemma held_frame: "cluster_frame cl (held S T key)"
  using store_frame [of "\<lambda>v. (\<forall>r. v key = Some r \<longrightarrow> S (stageOf r)) \<and> (\<forall>k. k \<noteq> key \<longrightarrow> v k = T k)"]
  unfolding held_def .

lemma held_status_update:
  assumes "putStatus r w = (a, w')" and "held S T (keyOf r) w" and "S (stageOf r)"
  shows "held S T (keyOf r) w'"
proof (cases a)
  case (Inl e)
  then have "stored w' = stored w" using assms(1) store_status_fails by blast
  then show ?thesis using assms(2) by (simp add: held_def)
next
  case (Inr r')
  then have "stageOf r' = stageOf r" "stored w' \<in> {stored w, (stored w)(keyOf r \<mapsto> r')}"
    using assms(1) store_status by blast+
  then show ?thesis using assms(2,3) by (auto simp: held_def)
qed

lemma held_update:
  assumes "putRes r w = (a, w')" and "held S T (keyOf r) w" and "S (stageOf r)"
  shows "held S T (keyOf r) w' \<and> (\<forall>r'. a = Inr r' \<longrightarrow> keyOf r' = keyOf r \<and> S (stageOf r'))"
proof (cases a)
  case (Inl e)
  then have "stored w' = stored w" using assms(1) store_update_fails by blast
  then show ?thesis using assms(2) Inl by (simp add: held_def)
next
  case (Inr r')
  then have u: "keyOf r' = keyOf r"
      "stageOf r' = stageOf r \<or> (\<exists>old. stored w (keyOf r) = Some old \<and> stageOf r' = stageOf old)"
      "stored w' \<in> {stored w, (stored w)(keyOf r \<mapsto> r'), (stored w)(keyOf r := None)}"
    using assms(1) store_update by blast+
  then have "S (stageOf r')" using assms(2,3) by (auto simp: held_def)
  then show ?thesis using assms(2) u Inr by (auto simp: held_def)
qed

text \<open>The resource the reconciliation holds and the stored one both have their stage in \<open>S\<close>.\<close>

definition joint :: "(Stage \<Rightarrow> bool) \<Rightarrow> (nsname \<Rightarrow> 'r option) \<Rightarrow> nsname \<Rightarrow> ('w, 'r) rstate \<Rightarrow> bool" where
  "joint S T key s \<longleftrightarrow> keyOf (r_res s) = key \<and> S (stageOf (r_res s)) \<and> held S T key (r_cluster s)"

lemma joint_mono: "joint S T key s \<Longrightarrow> (\<And>st. S st \<Longrightarrow> S' st) \<Longrightarrow> joint S' T key s"
  by (auto simp: joint_def held_def)

lemma joint_state:
  assumes "\<And>t. joint S T key t \<Longrightarrow> keeps (joint S T key) (m t)"
  shows "keeps (joint S T key) (\<lambda>s. m s s)"
  using assms by (simp add: keeps_def)

lemma joint_setRes: "keyOf r = key \<Longrightarrow> S (stageOf r) \<Longrightarrow> keeps (joint S T key) (setRes r)"
  by (simp add: keeps_def joint_def)

text \<open>
  The shape of a reconciliation once the resource has a stage: look for a new stage of the
  marked resource \<open>r2\<close>, then move there or work on the stage it has.
\<close>

lemma joint_staged:
  assumes "joint (\<lambda>st. st = old) T key s" and "stg_generation old \<noteq> 0"
    and "keyOf r2 = key" and "stageOf r2 = old"
    and "check (r_cluster s) = (a, w)" and "keeps (held (sameTask old) T key) check"
    and "\<And>so r. a = Inr (so, r) \<Longrightarrow> keyOf r = key \<and> stageOf r = old"
    and "\<And>st r. a = Inr (Some st, r) \<Longrightarrow> adv old st"
    and "\<And>st. progress adv old st \<Longrightarrow> keeps (joint (progress adv old) T key) (move st)"
    and "keeps (joint (sameTask old) T key) handle"
    and "run s = (case a of Inl e \<Rightarrow> (Inl e, s\<lparr>r_res := r2, r_cluster := w\<rparr>)
       | Inr (so, r) \<Rightarrow> (case so of Some st \<Rightarrow> move st | None \<Rightarrow> handle) (s\<lparr>r_res := r2, r_cluster := w, r_res := r\<rparr>))"
  shows "joint (progress adv old) T key (snd (run s))"
proof -
  have "held (sameTask old) T key (r_cluster s)" using assms(1) by (auto simp: joint_def held_def)
  then have w: "held (sameTask old) T key w" using keepsD [OF assms(6) _ assms(5)] by blast
  show ?thesis
  proof (cases a)
    case (Inl e)
    have "joint (sameTask old) T key (s\<lparr>r_res := r2, r_cluster := w\<rparr>)"
      using w assms(3,4) by (simp add: joint_def)
    then show ?thesis using assms(11) Inl joint_mono sameTask_progress by simp
  next
    case (Inr p)
    obtain so r where p: "p = (so, r)" by (cases p)
    have j: "joint (sameTask old) T key (s\<lparr>r_res := r2, r_cluster := w, r_res := r\<rparr>)"
      using w assms(7) Inr p by (simp add: joint_def)
    show ?thesis
    proof (cases so)
      case None
      then have "joint (sameTask old) T key (snd (run s))"
        using assms(10) j assms(11) Inr p by (simp add: keeps_def)
      then show ?thesis using joint_mono sameTask_progress by blast
    next
      case (Some st)
      then have "progress adv old st" using assms(2,8) Inr p by (simp add: progress_def)
      then have "keeps (joint (progress adv old) T key) (move st)" by (rule assms(9))
      moreover have "joint (progress adv old) T key (s\<lparr>r_res := r2, r_cluster := w, r_res := r\<rparr>)"
        using joint_mono [OF j] sameTask_progress by blast
      ultimately show ?thesis using assms(11) Inr p Some by (simp add: keeps_def)
    qed
  qed
qed

text \<open>A whole reconciliation: read the resource, then work on what was read.\<close>

lemma read_then_progress:
  assumes "getRetry z (getRes key) n (r_cluster s) = (g, w)" and "0 < n"
    and "run s = (case g of Inl e \<Rightarrow> (fail e, s\<lparr>r_cluster := w\<rparr>)
       | Inr r \<Rightarrow> body r (s\<lparr>r_cluster := w, r_res := r\<rparr>))"
    and "\<And>r. g = Inr r \<Longrightarrow> joint (\<lambda>st. st = stageOf r) (stored (r_cluster s)) key (s\<lparr>r_cluster := w, r_res := r\<rparr>) \<Longrightarrow>
      joint (progress adv (stageOf r)) (stored (r_cluster s)) key (snd (body r (s\<lparr>r_cluster := w, r_res := r\<rparr>)))"
    and "run s = (a, s')"
  shows "(\<forall>k. k \<noteq> key \<longrightarrow> stored (r_cluster s') k = stored (r_cluster s) k) \<and>
    (\<forall>r'. stored (r_cluster s') key = Some r' \<longrightarrow>
      (\<exists>r. stored (r_cluster s) key = Some r \<and> progress adv (stageOf r) (stageOf r')))"
proof (cases g)
  case (Inl e)
  have "cluster_frame cl (\<lambda>v. stored v = stored (r_cluster s))" by (rule store_frame)
  have "keeps (\<lambda>v. stored v = stored (r_cluster s)) (getRes key)"
    using store_get_leaves by (simp add: leaves_keeps)
  then have "keeps (\<lambda>v. stored v = stored (r_cluster s)) (getRetry z (getRes key) n)"
    by (rule cluster_frame.frame_getRetry [OF \<open>cluster_frame cl _\<close>])
  from keepsD [OF this refl assms(1)] have "stored w = stored (r_cluster s)" .
  moreover have "r_cluster s' = w" using assms(3,5) Inl by auto
  ultimately show ?thesis by (auto intro: sameTask_progress)
next
  case (Inr r)
  then have t: "keyOf r = key" "stored (r_cluster s) key = Some r" "stored w = stored (r_cluster s)"
    using retried_get assms(1,2) by blast+
  have "joint (\<lambda>st. st = stageOf r) (stored (r_cluster s)) key (s\<lparr>r_cluster := w, r_res := r\<rparr>)"
    using t by (simp add: joint_def held_def)
  from assms(4) [OF Inr this] have "joint (progress adv (stageOf r)) (stored (r_cluster s)) key s'"
    using assms(3,5) Inr by (metis snd_conv sum.simps(6))
  then show ?thesis using t(2) by (auto simp: joint_def held_def)
qed

end

section \<open>The cluster in memory\<close>

text \<open>A list of resources in the state of the cluster in memory, read and written by key.\<close>

definition listed :: "('r \<Rightarrow> nsname) \<Rightarrow> (mem \<Rightarrow> 'r list) \<Rightarrow> mem \<Rightarrow> nsname \<Rightarrow> 'r option" where
  "listed keyOf sel w key = find (\<lambda>r. keyOf r = key) (sel w)"

lemma find_storeBy:
  "find (\<lambda>r. key r = k) (storeBy key x rs) =
     (if k = key x then (if find (\<lambda>r. key r = k) rs = None then None else Some x) else find (\<lambda>r. key r = k) rs)"
  by (induction rs) (auto simp: storeBy_def)

lemma listed_get:
  assumes "memGet keyOf sel key w = (Inr r, w')"
  shows "keyOf r = key \<and> listed keyOf sel w key = Some r"
proof -
  have f: "find (\<lambda>r. keyOf r = key) (sel w) = Some r" using assms by (simp add: memGet_def split: option.splits)
  then show ?thesis using find_Some_iff [of "\<lambda>r. keyOf r = key" "sel w" r] by (auto simp: listed_def)
qed

lemma listed_put:
  assumes "sel w' = storeBy keyOf r (sel w)"
  shows "listed keyOf sel w' \<in> {listed keyOf sel w, (listed keyOf sel w)(keyOf r \<mapsto> r)}"
  by (cases "listed keyOf sel w (keyOf r)") (auto simp: listed_def assms find_storeBy fun_eq_iff)

lemma listed_write:
  assumes "memWrite put r w = (a, w')" and "\<And>v. sel (put v) = storeBy keyOf r (sel v)"
    and "\<And>v n. sel (v\<lparr>m_writes := n\<rparr>) = sel v" and "\<And>v n. sel (v\<lparr>m_conflicts := n\<rparr>) = sel v"
  shows "case a of Inl e \<Rightarrow> listed keyOf sel w' = listed keyOf sel w
    | Inr r' \<Rightarrow> r' = r \<and> listed keyOf sel w' \<in> {listed keyOf sel w, (listed keyOf sel w)(keyOf r \<mapsto> r)}"
proof (cases "0 < m_conflicts w")
  case True
  then have "sel w' = sel w" "isl a" using assms by (auto simp: memWrite_def)
  then show ?thesis by (cases a) (simp_all add: listed_def fun_eq_iff)
next
  case False
  then have "sel w' = storeBy keyOf r (sel w)" "a = Inr r" using assms by (auto simp: memWrite_def)
  then show ?thesis using listed_put [of sel w'] by simp
qed

section \<open>Walking over the code\<close>

text \<open>
  A property \<open>P\<close> of the reconciliation's state that the primitive steps keep: any change of
  the cluster that keeps \<open>F\<close>, new goroutines, and another version of the resource under the
  same key with a stage of \<open>S\<close>.
\<close>

locale resource_walk =
  fixes cl :: "'w kube" and keyOf :: "'r \<Rightarrow> nsname" and stageOf :: "'r \<Rightarrow> Stage"
    and S :: "Stage \<Rightarrow> bool" and F :: "'w \<Rightarrow> bool" and P :: "('w, 'r) rstate \<Rightarrow> bool"
  assumes walk_frame: "cluster_frame cl F"
    and walk_cluster: "P s \<Longrightarrow> (F (r_cluster s) \<Longrightarrow> F w) \<Longrightarrow> P (s\<lparr>r_cluster := w\<rparr>)"
    and walk_spawned: "P s \<Longrightarrow> P (s\<lparr>r_spawned := gs\<rparr>)"
    and walk_res: "P s \<Longrightarrow> keyOf r = keyOf (r_res s) \<Longrightarrow> (S (stageOf (r_res s)) \<Longrightarrow> S (stageOf r)) \<Longrightarrow>
      P (s\<lparr>r_res := r\<rparr>)"
begin

lemma walk_on_cluster: "keeps F m \<Longrightarrow> keeps P (on_cluster m)"
  unfolding keeps_def on_cluster_def by (auto split: prod.splits) (metis snd_conv walk_cluster)

lemma walk_spawn: "keeps P (spawn g)"
  by (simp add: keeps_def walk_spawned)

lemma walk_modify:
  "(\<And>r. keyOf (f r) = keyOf r) \<Longrightarrow> (\<And>r. S (stageOf r) \<Longrightarrow> S (stageOf (f r))) \<Longrightarrow> keeps P (modifyRes f)"
  by (simp add: keeps_def walk_res)

lemma walk_task:
  "taskBound S \<Longrightarrow> (\<And>r. keyOf (f r) = keyOf r) \<Longrightarrow> (\<And>r. sameTask (stageOf r) (stageOf (f r))) \<Longrightarrow>
    keeps P (modifyRes f)"
  by (rule walk_modify) (auto intro: taskBoundD)

lemmas walk_intros = keeps_intros walk_on_cluster walk_spawn cluster_frame.frame_calls [OF walk_frame]
  cluster_frame.frame_objects [OF walk_frame] cluster_frame.frame_modify_event [OF walk_frame]

end

text \<open>Two properties to walk with: what is held and stored, and what the cache holds.\<close>

context resource_server begin

lemma joint_walks: "resource_walk cl keyOf stageOf S (held S T key) (joint S T key)"
  using held_frame [of S T key] by (intro resource_walk.intro) (auto simp: joint_def)

end

lemma nothing_framed: "cluster_frame cl (\<lambda>_. True)"
  by (intro cluster_frame.intro) (simp_all add: keeps_def)

lemma cache_walks: "resource_walk cl keyOf stageOf (\<lambda>_. True) (\<lambda>_. True) (on_cache Q)"
  by (intro resource_walk.intro nothing_framed) (simp_all add: on_cache_def)

end
