(* ===== verification/TfWalk.thy ===== *)
theory TfWalk
  imports ResourceStore TfReconcile
begin

text \<open>
  Once through the code of the Terraform controller behind the lock: which parts of the
  cluster its calls leave alone, and, in the locale \<open>tf_walk\<close>, that each of its steps keeps
  a property that the primitive steps and the writes of the resource keep. \<open>TfRefine\<close>
  walks with the stored resource, \<open>TfSafety\<close> with the cache.
\<close>

section \<open>What the calls of this controller leave alone\<close>

context cluster_frame
begin

lemma frame_updateSecretFinalizer: "keeps P (updateSecretFinalizer cl tf)"
  unfolding updateSecretFinalizer_def lockGitSecrets_def by (intro frame_intros frame_objects)

lemma frame_creates:
  "keeps P (createEnvFromSources cl rc tf)" "keeps P (createPVC cl tf r)" "keeps P (createConfigMap cl tf r)"
  "keeps P (createServiceAccount cl tf r)" "keeps P (createRole cl tf r)" "keeps P (createRoleBinding cl tf r)"
  "keeps P (createSecret cl tf name ns data recr om r)" "keeps P (createPod cl tf r)" "keeps P (createJob cl tf r)"
  unfolding createEnvFromSources_def createPVC_def checkPersistentVolumeClaimExists_def create_is_recreate
    createSecret_def deleteSecretIfExists_def createPod_def createJob_def Let_def
  by (intro frame_intros frame_objects)+

lemma frame_createObjects: "keeps P (createObjects cl rc tf r)"
  unfolding createObjects_def by (rule keeps_seq) (auto simp: frame_creates split: if_splits)

lemma frame_checkObjects: "keeps P (checkObjects cl r)"
  unfolding checkObjects_def Let_def by (rule keeps_seq) (auto simp: frame_requireObject)

lemma frame_run: "keeps P (run cl rc tf r isNew isFirst)"
  unfolding run_def by (intro frame_intros frame_creates frame_createObjects frame_checkObjects)

lemma frame_sshHosts: "keeps P (sshHosts cl ns ms data)"
proof (induction ms arbitrary: data)
  case Nil
  then show ?case by (simp add: keeps_def)
next
  case (Cons m ms)
  show ?case unfolding sshHosts.simps sshKeyOf_def Let_def by (intro frame_intros frame_objects Cons.IH)
qed

lemma frame_formatJobSSHConfig: "keeps P (formatJobSSHConfig cl tf)"
  unfolding formatJobSSHConfig_def sshKeyOf_def by (intro frame_intros frame_objects frame_sshHosts)

lemma frame_addGitAskpass: "keeps P (addGitAskpass cl ms r)"
proof (induction ms arbitrary: r)
  case Nil
  then show ?case by (simp add: keeps_def)
next
  case (Cons m ms)
  show ?case unfolding addGitAskpass.simps Let_def by (intro frame_intros frame_objects Cons.IH)
qed

lemma frame_setupGeneration: "keeps P (setupGeneration cl ul rc tf r)"
  unfolding setupGeneration_def io_of_sum_def Let_def
  by (intro frame_intros frame_objects frame_formatJobSSHConfig frame_addGitAskpass)

lemma frame_removeOldPlan: "keeps P (removeOldPlan cl ns name reason g)"
  unfolding removeOldPlan_def parsedSelector_def by (intro frame_intros)

lemma frame_checkSetNewStage: "keeps P (checkSetNewStage cl isRetry tf)"
proof -
  have s: "keeps P (setNewStage cl tf t r i st)" "keeps P (noNewStage tf)" for tf t r i st
    by (simp_all add: keeps_def setNewStage_def noNewStage_def split: prod.splits)
  show ?thesis unfolding checkSetNewStage_def restartWhenPodGone_def Let_def
    by (intro frame_intros s)
qed

text \<open>\<open>updateStatusWithRetry\<close>, where the status writes keep the property as well.\<close>

lemma frame_updateStatus:
  assumes w: "\<And>r. keeps P (k_status_update_tf cl r)"
  shows "keeps P (updateStatusWithRetry cl al tf d)"
proof -
  have c: "keeps P (confirmStatus cl key d n)" for key d n
    by (induction n) (simp only: confirmStatus.simps, intro keeps_intros frame_resource, assumption?)+
  have "keeps P (updateStatusRounds cl key d n ue)" for key d n ue
  proof (induction n arbitrary: ue)
    case 0
    show ?case unfolding updateStatusRounds.simps updateResult_def by (intro keeps_intros)
  next
    case (Suc n)
    show ?case unfolding updateStatusRounds.simps by (intro keeps_intros frame_resource w c Suc.IH)
  qed
  then show ?thesis unfolding updateStatusWithRetry_def withResource_def Let_def by (intro keeps_intros w c)
qed

end

lemma keeps_withDeferred:
  assumes "\<And>d. d \<in> set ds \<Longrightarrow> keeps P d" and "keeps P m"
  shows "keeps P (withDeferred ds m)"
  using assms(1) by (induction ds) (auto simp: assms(2) intro: keeps_finally)

text \<open>Several records updated at once keep the key and the task of the stage.\<close>

lemmas tf_updates = setStageState_def stopStage_def observePod_def tfSet_defs tfKey_def sameTask_def

lemma updateFinalizer_keeps: "updateFinalizer tf = Some (b, tf') \<Longrightarrow> tfKey tf' = tfKey tf \<and> tfStage tf' = tfStage tf"
  by (auto simp: updateFinalizer_def tfSetFinalizers_def tfKey_def Let_def split: if_splits)

lemma marks_keep:
  "tfKey (markDeletion tf) = tfKey tf \<and> tfStage (markDeletion tf) = tfStage tf"
  "markRetry now tf = (retry, tf') \<Longrightarrow> tfKey tf' = tfKey tf \<and> tfStage tf' = tfStage tf"
  by (auto simp: markDeletion_def markRetry_def tfSet_defs tfKey_def Let_def split: option.splits if_splits)

lemma newStage_key: "tfKey (snd (newStage now tf t r i st)) = tfKey tf"
  by (simp add: newStage_resource tfSet_defs tfKey_def)

lemma checkSetNewStage_resource:
  assumes "checkSetNewStage cl isRetry tf w = (Inr (so, tf'), w')"
  shows "tfKey tf' = tfKey tf \<and> tfStage tf' = tfStage tf"
proof -
  have n: "tfKey tf' = tfKey tf \<and> tfStage tf' = tfStage tf"
    if "setNewStage cl tf t r i st w = (Inr (so, tf'), w')" for t r i st
    using that by (auto simp: setNewStage_Inr newStage_resource tfSet_defs tfKey_def)
  have r: "tfKey tf' = tfKey tf \<and> tfStage tf' = tfStage tf"
    if "restartWhenPodGone cl tf r t c w = (Inr (so, tf'), w')" for r t c
    using that unfolding restartWhenPodGone_def io_try_def Let_def
    by (auto simp: setNewStage_Inr newStage_resource tfSet_defs tfKey_def split: prod.splits sum.splits if_splits)
  show ?thesis using assms n r unfolding checkSetNewStage_def Let_def
    by (simp split: if_splits option.splits)
qed

section \<open>The walk\<close>

locale tf_walk = resource_walk cl tfKey tfStage S F P
  for cl :: "'w kube" and S :: "Stage \<Rightarrow> bool" and F :: "'w \<Rightarrow> bool" and P :: "('w, Terraform) rstate \<Rightarrow> bool" +
  assumes walk_status: "keeps P (\<lambda>s. afterUpdate (updateStatusWithRetry cl al (r_res s) (tf_status (r_res s))) s)"
    and walk_update: "keeps P (updateRes cl)"
begin

lemma walk_save: "keeps P (save cl)"
  using walk_status [of True] by (simp add: save_def saveStatus_def)

lemmas tf_intros = walk_intros walk_save walk_update cluster_frame.frame_updateSecretFinalizer [OF walk_frame]
  cluster_frame.frame_run [OF walk_frame] cluster_frame.frame_setupGeneration [OF walk_frame]
  cluster_frame.frame_removeOldPlan [OF walk_frame] cluster_frame.frame_checkSetNewStage [OF walk_frame]

lemma walk_saves: "keeps P (saveThen cl e)" "keeps P (saveOrFail cl)"
  unfolding saveThen_def saveOrFail_def by (intro tf_intros)+

lemma walk_withEvent:
  assumes "keeps P m"
  shows "keeps P (withEvent cl m)"
proof -
  have "keeps P (tfEvent cl t r x)" for t r x
    unfolding tfEvent_def by (rule keeps_state) (intro tf_intros)
  then show ?thesis unfolding withEvent_def by (intro tf_intros assms)
qed

lemma walk_removeFinalizers: "keeps P (removeFinalizers cl)"
proof -
  have "keeps P (\<lambda>s. case updateFinalizer (r_res s) of
        None \<Rightarrow> panicWith ''slice bounds out of range'' s | Some (_, tf') \<Rightarrow> setRes tf' s)"
    by (auto simp: keeps_def panicWith_def split: option.splits intro!: walk_res dest: updateFinalizer_keeps)
  moreover have "keeps P (\<lambda>s. on_cluster (updateSecretFinalizer cl (r_res s)) s)"
    by (rule keeps_state) (intro tf_intros)
  ultimately show ?thesis unfolding removeFinalizers_def by (intro tf_intros walk_withEvent)
qed

lemma walk_setStatus:
  "(\<And>tf. tfst_stage (f tf) = tfStage tf) \<Longrightarrow> keeps P (modifyRes (\<lambda>tf. tfSetStatus tf (f tf)))"
  by (rule walk_modify) (simp_all add: tfSetStatus_def tfKey_def)

lemma walk_initializeResource: "keeps P (initializeResource cl rnd)"
proof -
  have "keeps P (io_bind (modifyRes (\<lambda>tf. tfSetStatus tf ((tf_status tf)\<lparr>tfst_podNamePrefix := prefix,
                  tfst_lastCompletedGeneration := 0, tfst_phase := PhaseInitializing\<rparr>)))
         (\<lambda>_. saveThen cl Done))" for prefix
    by (intro tf_intros walk_setStatus walk_saves) simp
  then show ?thesis unfolding initializeResource_def keeps_def
    by (auto simp: panicWith_def split: option.splits)
qed

lemma walk_addFirstStage:
  assumes "\<And>st. stg_taskType st = RunSetup \<Longrightarrow> S st"
  shows "keeps P (addFirstStage cl)"
proof -
  have "keeps P (\<lambda>s. case newStage (k_now cl (r_cluster s)) (r_res s) RunSetup ''TF_RESOURCE_CREATED'' CanNotBeInterrupt StateInitializing of
        (stage, tf) \<Rightarrow> setRes (tfSetPlugins (tfSetStage tf stage) []) s)"
    unfolding keeps_def using assms newStage_stage newStage_key
    by (auto simp: tfSet_defs tfKey_def newStage_def Let_def intro!: walk_res)
  then show ?thesis unfolding addFirstStage_def by (intro tf_intros walk_saves)
qed

lemma walk_moveStage:
  assumes "S stage"
  shows "keeps P (moveStage cl stage)"
proof -
  have a: "keeps P (\<lambda>s. (if isRestart (stg_reason stage)
       then io_try (on_cluster (removeOldPlan cl (tf_namespace (r_res s)) (tf_name (r_res s))
               (stg_reason (tfStage (r_res s))) (tf_generation (r_res s)))) (\<lambda>_. io_return ()) io_return
       else io_return ()) s)"
    by (rule keeps_state) (intro tf_intros)
  have b: "keeps P (modifyRes (\<lambda>tf. tfSetStage tf stage))"
    by (rule walk_modify) (simp_all add: assms tfSetStage_def tfKey_def)
  have "keeps P (io_try (\<lambda>s. afterUpdate (updateStatusWithRetry cl False (r_res s) (tf_status (r_res s))) s)
               (\<lambda>_. io_return ()) io_return)"
    by (intro keeps_try walk_status keeps_return)
  then have c: "keeps P (\<lambda>s. io_try (afterUpdate (updateStatusWithRetry cl False (r_res s) (tf_status (r_res s))))
               (\<lambda>_. io_return ()) io_return s)"
    by (simp add: io_try_def)
  have d: "keeps P (\<lambda>s. (if tfs_keepLatestPodsOnly (tf_spec (r_res s))
       then io_bind (spawn (ReapOldGenerationPods (tfOwner (r_res s)) (tfKey (r_res s)) 0)) (\<lambda>_. io_return Done)
       else io_return Done) s)"
    by (rule keeps_state) (intro tf_intros)
  show ?thesis unfolding moveStage_def by (intro keeps_bind a b c d)
qed

lemma walk_setPhase: "keeps P (modifyRes (\<lambda>tf. tfSetPhase tf p))"
  by (rule walk_modify) (simp_all add: tfSetPhase_def tfKey_def)

lemma walk_finishWorkflow: "keeps P (finishWorkflow cl r)"
proof -
  have "keeps P (loadOutputs cl r)"
    unfolding loadOutputs_def by (intro tf_intros walk_setStatus; simp)
  note tail = tf_intros walk_setPhase walk_saves this
  show ?thesis unfolding finishWorkflow_def by (rule keeps_state) (intro tail)
qed

lemma walk_createPluginJob: "keeps P (createPluginJob cl rc env plugin)"
proof -
  have "keeps P (modifyRes (\<lambda>tf. tfSetPlugins tf (tfst_pluginsStarted (tf_status tf) @ [n])))" for n
    by (rule walk_modify) (simp_all add: tfSetPlugins_def tfKey_def)
  then have "keeps P (io_seq [spawn (CreateJob ow r), modifyRes (\<lambda>tf. tfSetPlugins tf
      (tfst_pluginsStarted (tf_status tf) @ [n])), save cl])" for ow r n
    by (intro tf_intros)
  then show ?thesis unfolding createPluginJob_def keeps_def by (simp del: io_seq.simps split: sum.splits)
qed

text \<open>The steps that follow the pod of a stage keep its generation and task.\<close>

lemma walk_stageSteps:
  assumes "taskBound S"
  shows "keeps P (modifyRes (setStageState st))" and "keeps P (modifyRes (stopStage st now))"
    and "keeps P (modifyRes (observePod pod))"
    and "keeps P (modifyRes (\<lambda>tf. setStageState st (tfSetPhase tf (phaseAfterStart (tfPhase tf)))))"
  by (rule walk_task [OF assms]; simp add: tf_updates)+

lemma walk_launch:
  assumes "taskBound S"
  shows "keeps P (launch cl ul rc runOpts)"
proof -
  have "keeps P (setupAndRun cl ul rc runOpts)"
    unfolding setupAndRun_def Let_def io_of_sum_def by (rule keeps_state) (intro tf_intros)
  then show ?thesis unfolding launch_def by (intro tf_intros walk_stageSteps walk_saves assms)
qed

lemma walk_startStage:
  assumes "taskBound S"
  shows "keeps P (startStage cl ul rc sel env runOpts podType)"
proof -
  have "keeps P (withDeferred (map (createPluginJob cl rc env) (pa_jobs acc))
      (if \<not> complete then io_return Requeue
       else case addApproval rc sel tf podType env runOpts acc of
              None \<Rightarrow> io_return Requeue
            | Some acc' \<Rightarrow> launch cl ul rc (runOpts\<lparr>o_sidecarPlugins := o_sidecarPlugins runOpts @ pa_pods acc'\<rparr>)))"
    for complete acc tf
    by (rule keeps_withDeferred)
       (auto intro!: walk_createPluginJob keeps_if keeps_option keeps_return walk_launch assms)
  then show ?thesis unfolding startStage_def Let_def keeps_def by (simp split: prod.splits)
qed

lemma walk_followPod:
  assumes "taskBound S"
  shows "keeps P (followPod cl pod)"
proof -
  have d: "keeps P (\<lambda>s. (if \<not> tfs_keepCompletedPods (tf_spec (r_res s)) \<and> \<not> tfs_keepLatestPodsOnly (tf_spec (r_res s))
      then io_try (on_cluster (k_delete cl PodKind pk)) (\<lambda>_. io_return Done) (\<lambda>_. io_return Done)
      else io_return Done) s)" for pk
    by (rule keeps_state) (intro tf_intros)
  have "keeps P
     (if pod_phase pod = ''Failed''
       then io_bind (modifyRes (stopStage StateFailed now)) (\<lambda>_. saveOrFail cl)
       else if pod_phase pod = ''Succeeded''
       then io_bind (modifyRes (stopStage StateComplete now)) (\<lambda>_.
            io_bind (save cl) (\<lambda>_ s'.
              (if \<not> tfs_keepCompletedPods (tf_spec (r_res s')) \<and> \<not> tfs_keepLatestPodsOnly (tf_spec (r_res s'))
               then io_try (on_cluster (k_delete cl PodKind (pod_namespace pod, pod_name pod)))
                      (\<lambda>_. io_return Done) (\<lambda>_. io_return Done)
               else io_return Done) s'))
       else io_bind (modifyRes (setStageState (pod_phase pod))) (\<lambda>_. saveOrFail cl))" for now
    by (intro tf_intros walk_stageSteps walk_saves d assms)
  then show ?thesis unfolding followPod_def
    by (intro keeps_bind walk_stageSteps assms) (simp add: keeps_def)
qed

lemma walk_workOnStage:
  assumes "taskBound S"
  shows "keeps P (workOnStage cl ul rc sel env runOpts)"
proof -
  have "keeps P (io_try (on_cluster (k_list_pods cl ns gen lab)) (\<lambda>_. io_return Done)
      (\<lambda>found. case podsSince since found of
         [] \<Rightarrow> (if inProgress then io_bind (modifyRes (setStageState StateInitializing)) (\<lambda>_. saveThen cl Requeue)
               else startStage cl ul rc sel env runOpts podType)
       | pod # _ \<Rightarrow> followPod cl pod))" for ns gen lab since inProgress podType
    by (intro tf_intros walk_stageSteps walk_saves walk_startStage walk_followPod assms)
  then show ?thesis unfolding workOnStage_def Let_def keeps_def by simp
qed

lemma walk_handleStage:
  assumes "taskBound S"
  shows "keeps P (handleStage cl ul rc)"
  using walk_finishWorkflow walk_workOnStage [OF assms]
  by (simp add: handleStage_def keeps_def Let_def split: sum.splits)

lemma walk_finalizerAdded:
  assumes "updateFinalizer tf = Some (b, tf')" and "tfKey tf = tfKey (r_res s)" and "tfStage tf = tfStage (r_res s)"
    and "P s"
  shows "P (snd (io_bind (setRes tf') (\<lambda>_. io_bind (updateRes cl) (\<lambda>_. io_return Done)) s))"
proof -
  have "P (s\<lparr>r_res := tf'\<rparr>)"
    using updateFinalizer_keeps [OF assms(1)] assms(2,3) by (intro walk_res [OF assms(4)]) simp_all
  moreover have "keeps P (io_bind (updateRes cl) (\<lambda>_. io_return Done))" by (intro tf_intros)
  ultimately show ?thesis by (simp add: io_bind_def [of "setRes tf'"] keeps_def)
qed

end

text \<open>A property that does not look at the resource is kept by everything behind the lock.\<close>

locale tf_free_walk = tf_walk cl "\<lambda>_. True" F P
  for cl :: "'w kube" and F :: "'w \<Rightarrow> bool" and P :: "('w, Terraform) rstate \<Rightarrow> bool" +
  assumes walk_any: "P s \<Longrightarrow> P (s\<lparr>r_res := r\<rparr>)"
begin

lemma walk_setRes: "keeps P (setRes r)"
  by (simp add: keeps_def walk_any)

lemma walk_reconcileStage: "keeps P (reconcileStage cl ul rc)"
proof -
  have anyStage: "taskBound (\<lambda>_. True)" by (simp add: taskBound_def)
  have "keeps P (modifyRes markDeletion)" by (simp add: keeps_def walk_any)
  moreover have "keeps P (\<lambda>s. case markRetry (k_now cl (r_cluster s)) (r_res s) of
        (retry, tf) \<Rightarrow> (Inr retry, s\<lparr>r_res := tf\<rparr>))"
    by (simp add: keeps_def walk_any split: prod.splits)
  moreover have "keeps P (\<lambda>s. on_cluster (checkSetNewStage cl retry (r_res s)) s)" for retry
    by (rule keeps_state) (intro tf_intros)
  ultimately show ?thesis unfolding reconcileStage_def
    by (intro keeps_intros walk_setRes walk_moveStage walk_handleStage anyStage) simp_all
qed

lemma walk_reconcileLocked: "keeps P (reconcileLocked cl ul rc rnd key)"
  unfolding reconcileLocked_def panicWith_def
  by (intro tf_intros walk_setRes walk_removeFinalizers walk_initializeResource walk_addFirstStage
      walk_reconcileStage TrueI)

end

end
