(* ===== verification/TfRefine.thy ===== *)
theory TfRefine
  imports TfWalk
begin

text \<open>
  What one reconciliation does to the stored \<open>Terraform\<close> resources. \<open>tf_store\<close> states the
  documented behaviour of the API server for this kind; on such a server
  \<open>reconcileLocked\<close> is a refinement of the stage machine: it changes the stage of its own
  resource only, and by at most one move that \<open>checkSetNewStage\<close> allows.
\<close>

section \<open>The API server, for resources of this kind\<close>

text \<open>
  \<open>stored w key\<close> is the resource stored under a key. \<open>Get\<close> answers what is stored; an
  answered write is of the resource's own key, stores what it answers and at most
  removes the resource (the last finalizer of a deleted one is gone); the status
  subresource takes the status it is sent, and \<open>Update\<close> does not invent a stage; a failed
  write stores nothing, and no other call writes a resource of this kind.
\<close>

definition tf_store :: "'w kube \<Rightarrow> ('w \<Rightarrow> nsname \<Rightarrow> Terraform option) \<Rightarrow> bool" where
  "tf_store cl stored \<longleftrightarrow> untouched cl stored \<and>
    (\<forall>key w tf w'. k_get_tf cl key w = (Inr tf, w') \<longrightarrow> tfKey tf = key \<and> stored w key = Some tf) \<and>
    (\<forall>tf w e w'. k_status_update_tf cl tf w = (Inl e, w') \<longrightarrow> stored w' = stored w) \<and>
    (\<forall>tf w tf' w'. k_status_update_tf cl tf w = (Inr tf', w') \<longrightarrow>
       tfKey tf' = tfKey tf \<and> tf_status tf' = tf_status tf \<and>
       stored w' \<in> {stored w, (stored w)(tfKey tf \<mapsto> tf')}) \<and>
    (\<forall>tf w e w'. k_update_tf cl tf w = (Inl e, w') \<longrightarrow> stored w' = stored w) \<and>
    (\<forall>tf w tf' w'. k_update_tf cl tf w = (Inr tf', w') \<longrightarrow>
       tfKey tf' = tfKey tf \<and>
       (tfStage tf' = tfStage tf \<or> (\<exists>old. stored w (tfKey tf) = Some old \<and> tfStage tf' = tfStage old)) \<and>
       stored w' \<in> {stored w, (stored w)(tfKey tf \<mapsto> tf'), (stored w)(tfKey tf := None)})"

locale tf_server =
  fixes cl :: "'w kube" and stored :: "'w \<Rightarrow> nsname \<Rightarrow> Terraform option"
  assumes store: "tf_store cl stored"
begin

lemma store_calls:
  "untouched cl stored"
  "k_get_tf cl key w = (Inr tf, w') \<Longrightarrow> tfKey tf = key \<and> stored w key = Some tf"
  "k_status_update_tf cl tf w = (Inl e, w') \<Longrightarrow> stored w' = stored w"
  "k_status_update_tf cl tf w = (Inr tf', w') \<Longrightarrow>
    tfKey tf' = tfKey tf \<and> tf_status tf' = tf_status tf \<and> stored w' \<in> {stored w, (stored w)(tfKey tf \<mapsto> tf')}"
  "k_update_tf cl tf w = (Inl e, w') \<Longrightarrow> stored w' = stored w"
  "k_update_tf cl tf w = (Inr tf', w') \<Longrightarrow>
    tfKey tf' = tfKey tf \<and>
    (tfStage tf' = tfStage tf \<or> (\<exists>old. stored w (tfKey tf) = Some old \<and> tfStage tf' = tfStage old)) \<and>
    stored w' \<in> {stored w, (stored w)(tfKey tf \<mapsto> tf'), (stored w)(tfKey tf := None)}"
  using store unfolding tf_store_def by blast+

lemma store_status_stage:
  "k_status_update_tf cl tf w = (Inr tf', w') \<Longrightarrow>
    tfKey tf' = tfKey tf \<and> tfStage tf' = tfStage tf \<and> stored w' \<in> {stored w, (stored w)(tfKey tf \<mapsto> tf')}"
  using store_calls(4) [of tf w tf' w'] by simp

lemma store_get_tf_leaves: "leaves stored (k_get_tf cl key)"
  using store_calls(1) unfolding untouched_def by (elim conjE) (rule spec)

end

sublocale tf_server \<subseteq> resource_server cl tfKey tfStage "k_get_tf cl" "k_status_update_tf cl" "k_update_tf cl" stored
  using store_calls(1-3,5-6) store_status_stage store_get_tf_leaves by (intro resource_server.intro) blast+

context tf_server begin

lemma stored_get:
  assumes "getTfResource cl key n w = (Inr tf, w')" and "0 < n"
  shows "tfKey tf = key \<and> stored w key = Some tf \<and> stored w' = stored w"
  using retried_get assms unfolding getTfResource_def by blast

lemmas held_intros = keeps_intros cluster_frame.frame_calls [OF held_frame] cluster_frame.frame_objects [OF held_frame]

section \<open>Writing the status\<close>

text \<open>The loops of \<open>updateStatusWithRetry\<close> only ever write the status they are given.\<close>

lemma held_confirm: "keeps (held S T key) (confirmStatus cl key desired n)"
proof (induction n)
  case 0
  then show ?case by (simp add: keeps_def)
next
  case (Suc n)
  then show ?case unfolding confirmStatus.simps by (intro held_intros)
qed

lemma held_rounds:
  assumes "S (tfst_stage desired)"
  shows "keeps (held S T key) (updateStatusRounds cl key desired n ue)"
proof (induction n arbitrary: ue)
  case 0
  show ?case unfolding updateStatusRounds.simps updateResult_def by (intro keeps_intros)
next
  case (Suc n)
  have stores: "held S T key (snd (io_try (k_status_update_tf cl (tfSetStatus tf desired))
          (\<lambda>err. updateStatusRounds cl key desired n (Some err))
          (\<lambda>_. io_bind (confirmStatus cl key desired 10)
             (\<lambda>confirmed. if confirmed then io_return () else updateStatusRounds cl key desired n None)) w))"
    if k: "tfKey tf = key" and h: "held S T key w" for tf w
  proof -
    obtain r v where u: "k_status_update_tf cl (tfSetStatus tf desired) w = (r, v)"
      by (cases "k_status_update_tf cl (tfSetStatus tf desired) w")
    have "tfKey (tfSetStatus tf desired) = key" "tfStage (tfSetStatus tf desired) = tfst_stage desired"
      using k by (simp_all add: tfSetStatus_def tfKey_def)
    then have v: "held S T key v" using held_status_update [OF u, of S T] h assms by simp
    have "keeps (held S T key) (io_bind (confirmStatus cl key desired 10)
        (\<lambda>confirmed. if confirmed then io_return () else updateStatusRounds cl key desired n None))"
      by (intro keeps_intros held_confirm Suc.IH)
    then show ?thesis using u v Suc.IH by (cases r) (auto simp: io_try_def keeps_def)
  qed
  show ?case unfolding keeps_def
  proof (intro allI impI)
    fix w assume h: "held S T key w"
    obtain r v where g: "getTfResource cl key 10 w = (r, v)" by (cases "getTfResource cl key 10 w")
    have "keeps (held S T key) (getTfResource cl key 10)" by (intro held_intros)
    then have v: "held S T key v" using h g unfolding keeps_def by (metis snd_conv)
    show "held S T key (snd (updateStatusRounds cl key desired (Suc n) ue w))"
    proof (cases r)
      case (Inl e)
      then show ?thesis using g v by (simp add: io_try_def)
    next
      case (Inr tf)
      then have "tfKey tf = key" using stored_get [of key 10 w tf v] g by simp
      then show ?thesis using stores [OF _ v] g Inr by (simp add: io_try_def [of "getTfResource cl key 10"])
    qed
  qed
qed

lemma withResource_cases:
  assumes "withResource tf m w = (r, w')"
  shows "w' = snd (m w) \<and> (\<forall>eo tf'. r = Inr (eo, tf') \<longrightarrow> tf' = tf)"
  using assms by (auto simp: withResource_def io_try_def split: prod.splits sum.splits if_splits)

lemma held_withResource:
  assumes "withResource tf m w = (r, w')" and "keeps (held S T key) m" and "held S T key w"
  shows "held S T key w' \<and> (\<forall>eo tf'. r = Inr (eo, tf') \<longrightarrow> tf' = tf)"
  using withResource_cases [OF assms(1)] assms(2,3) by (simp add: keeps_def)

lemma held_updateStatus:
  assumes "updateStatusWithRetry cl al tf desired w = (r, w')" and "held S T (tfKey tf) w"
    and "S (tfStage tf)" and "S (tfst_stage desired)"
  shows "held S T (tfKey tf) w' \<and> (\<forall>eo tf'. r = Inr (eo, tf') \<longrightarrow> tfKey tf' = tfKey tf \<and> S (tfStage tf'))"
proof -
  obtain q v where u: "k_status_update_tf cl tf w = (q, v)" by (cases "k_status_update_tf cl tf w")
  have v: "held S T (tfKey tf) v" by (rule held_status_update [OF u assms(2,3)])
  show ?thesis
  proof (cases q)
    case (Inl e)
    have k: "keeps (held S T (tfKey tf)) (updateStatusRounds cl (tfKey tf) desired 9 (Some e))"
      by (rule held_rounds [of S, OF assms(4)])
    show ?thesis
    proof (cases "is_panic e")
      case True
      then show ?thesis using assms(1) u Inl v by (auto simp: updateStatusWithRetry_def io_try_def)
    next
      case False
      then have "withResource tf (updateStatusRounds cl (tfKey tf) desired 9 (Some e)) v = (r, w')"
        using assms(1) u Inl by (simp add: updateStatusWithRetry_def io_try_def)
      from held_withResource [OF this k v] show ?thesis using assms(3) by auto
    qed
  next
    case (Inr tf')
    define d where "d = (if al then tf_status tf' else desired)"
    have t: "tfKey tf' = tfKey tf" "tf_status tf' = tf_status tf" using store_calls(4) u Inr by blast+
    have "S (tfst_stage d)" using assms(3,4) t by (simp add: d_def)
    then have k: "keeps (held S T (tfKey tf)) (io_bind (confirmStatus cl (tfKey tf) d 10)
        (\<lambda>confirmed. if confirmed then io_return () else updateStatusRounds cl (tfKey tf) d 9 None))"
      by (intro keeps_intros held_confirm held_rounds)
    have "withResource tf' (io_bind (confirmStatus cl (tfKey tf) d 10)
        (\<lambda>confirmed. if confirmed then io_return () else updateStatusRounds cl (tfKey tf) d 9 None)) v = (r, w')"
      using assms(1) u Inr by (cases al) (simp_all add: updateStatusWithRetry_def io_try_def d_def Let_def cong del: if_weak_cong)
    from held_withResource [OF this k v] show ?thesis using assms(3) t by auto
  qed
qed

section \<open>The steps of a reconciliation\<close>

lemma joint_status: "keeps (joint S T key) (\<lambda>s. afterUpdate (updateStatusWithRetry cl al (r_res s) (tf_status (r_res s))) s)"
  unfolding keeps_def
proof (intro allI impI)
  fix s assume j: "joint S T key s"
  obtain r v where u: "updateStatusWithRetry cl al (r_res s) (tf_status (r_res s)) (r_cluster s) = (r, v)"
    by (cases "updateStatusWithRetry cl al (r_res s) (tf_status (r_res s)) (r_cluster s)")
  have "held S T (tfKey (r_res s)) v \<and> (\<forall>eo tf'. r = Inr (eo, tf') \<longrightarrow> tfKey tf' = tfKey (r_res s) \<and> S (tfStage tf'))"
    by (rule held_updateStatus [OF u]) (use j in \<open>simp_all add: joint_def\<close>)
  then show "joint S T key (snd (afterUpdate (updateStatusWithRetry cl al (r_res s) (tf_status (r_res s))) s))"
    using j u by (cases r) (auto simp: afterUpdate_def joint_def split: prod.splits)
qed

lemma joint_updateRes: "keeps (joint S T key) (updateRes cl)"
  unfolding keeps_def
proof (intro allI impI)
  fix s assume j: "joint S T key s"
  obtain r v where u: "k_update_tf cl (r_res s) (r_cluster s) = (r, v)"
    by (cases "k_update_tf cl (r_res s) (r_cluster s)")
  have "held S T (tfKey (r_res s)) v \<and> (\<forall>tf'. r = Inr tf' \<longrightarrow> tfKey tf' = tfKey (r_res s) \<and> S (tfStage tf'))"
    by (rule held_update [OF u]) (use j in \<open>simp_all add: joint_def\<close>)
  then show "joint S T key (snd (updateRes cl s))"
    using j u by (cases r) (auto simp: updateRes_def updateTf_def on_cluster_def io_bind_def io_try_def joint_def)
qed

lemma joint_walk: "tf_walk cl S (held S T key) (joint S T key)"
  by (intro tf_walk.intro tf_walk_axioms.intro joint_walks joint_status joint_updateRes)

lemma reconcileStage_progress:
  assumes "joint (\<lambda>st. st = old) T key s" and "stg_generation old \<noteq> 0"
  shows "joint (progress (tfAdvance cl) old) T key (snd (reconcileStage cl ul rc s))"
proof -
  obtain retry tf2 where m: "markRetry (k_now cl (r_cluster s)) (markDeletion (r_res s)) = (retry, tf2)"
    by (cases "markRetry (k_now cl (r_cluster s)) (markDeletion (r_res s))")
  have k2: "tfKey tf2 = key" "tfStage tf2 = old"
    using assms marks_keep(1) marks_keep(2) [OF m] by (simp_all add: joint_def)
  obtain a w where c: "checkSetNewStage cl retry tf2 (r_cluster s) = (a, w)"
    by (cases "checkSetNewStage cl retry tf2 (r_cluster s)")
  show ?thesis
  proof (rule joint_staged [where check = "checkSetNewStage cl retry tf2", OF assms k2 c])
    show "reconcileStage cl ul rc s = (case a of Inl e \<Rightarrow> (Inl e, s\<lparr>r_res := tf2, r_cluster := w\<rparr>)
       | Inr (so, r) \<Rightarrow> (case so of Some st \<Rightarrow> moveStage cl st | None \<Rightarrow> handleStage cl ul rc)
           (s\<lparr>r_res := tf2, r_cluster := w, r_res := r\<rparr>))"
      using m c by (simp add: reconcileStage_def io_bind_def on_cluster_def split: sum.splits prod.splits)
    show "keeps (held (sameTask old) T key) (checkSetNewStage cl retry tf2)"
      by (rule cluster_frame.frame_checkSetNewStage [OF held_frame])
    show "tfKey r = key \<and> tfStage r = old" if "a = Inr (so, r)" for so r
      using checkSetNewStage_resource [of cl retry tf2 "r_cluster s" so r w] c that k2 by simp
    show "tfAdvance cl old st" if "a = Inr (Some st, r)" for st r
      unfolding tfAdvance_def using c that k2(2) by blast
    show "keeps (joint (progress (tfAdvance cl) old) T key) (moveStage cl st)" if "progress (tfAdvance cl) old st" for st
      using that by (rule tf_walk.walk_moveStage [OF joint_walk])
    show "keeps (joint (sameTask old) T key) (handleStage cl ul rc)"
      by (rule tf_walk.walk_handleStage [OF joint_walk sameTask_bound])
  qed
qed

lemma reconcileLocked_progress:
  assumes "reconcileLocked cl ul rc rnd key s = (a, s')"
  shows "(\<forall>k. k \<noteq> key \<longrightarrow> stored (r_cluster s') k = stored (r_cluster s) k) \<and>
    (\<forall>tf'. stored (r_cluster s') key = Some tf' \<longrightarrow>
      (\<exists>tf. stored (r_cluster s) key = Some tf \<and> progress (tfAdvance cl) (tfStage tf) (tfStage tf')))"
proof -
  define body where "body = (\<lambda>tf. if tfPhase tf = PhaseDeleted then removeFinalizers cl
        else case updateFinalizer tf of
          None \<Rightarrow> panicWith ''slice bounds out of range''
        | Some (True, tf') \<Rightarrow> io_bind (setRes tf') (\<lambda>_. io_bind (updateRes cl) (\<lambda>_. io_return Done))
        | Some (False, _) \<Rightarrow>
            if tfst_podNamePrefix (tf_status tf) = [] then initializeResource cl rnd
            else if stg_generation (tfStage tf) = 0 then addFirstStage cl
            else reconcileStage cl ul rc)"
  obtain g w where g: "getRetry zeroTf (k_get_tf cl key) 3 (r_cluster s) = (g, w)"
    by (cases "getRetry zeroTf (k_get_tf cl key) 3 (r_cluster s)")
  show ?thesis
  proof (rule read_then_progress [where run = "reconcileLocked cl ul rc rnd key" and body = body, OF g _ _ _ assms])
    show "reconcileLocked cl ul rc rnd key s =
       (case g of Inl e \<Rightarrow> (if \<not> is_panic e \<and> IsNotFound e then Inr Done else Inl e, s\<lparr>r_cluster := w\<rparr>)
        | Inr tf \<Rightarrow> body tf (s\<lparr>r_cluster := w, r_res := tf\<rparr>))"
      using g by (simp add: reconcileLocked_def getTfResource_def io_try_def on_cluster_def body_def
          io_bind_def [of "setRes _"] split: sum.split)
  next
    fix tf
    let ?s = "s\<lparr>r_cluster := w, r_res := tf\<rparr>" and ?P = "joint (progress (tfAdvance cl) (tfStage tf)) (stored (r_cluster s)) key"
    assume j1: "joint (\<lambda>st. st = tfStage tf) (stored (r_cluster s)) key ?s"
    then have j: "?P ?s" by (rule joint_mono) (simp add: sameTask_progress)
    note walk = joint_walk [of "progress (tfAdvance cl) (tfStage tf)" "stored (r_cluster s)" key]
    have k: "?P (snd (m ?s))" if "keeps ?P m" for m :: "'w tfio"
      using that j by (simp add: keeps_def)
    have a: "keeps ?P (addFirstStage cl)" if "stg_generation (tfStage tf) = 0"
      using that by (intro tf_walk.walk_addFirstStage [OF walk]) (simp add: progress_def)
    show "?P (snd (body tf ?s))"
      unfolding body_def
      using k [OF tf_walk.walk_removeFinalizers [OF walk]] tf_walk.walk_finalizerAdded [OF walk, of tf _ _ ?s]
        k [OF tf_walk.walk_initializeResource [OF walk]] k [OF a] reconcileStage_progress [OF j1] j
      by (simp add: panicWith_def split: option.splits prod.splits bool.splits)
  qed simp
qed

end

section \<open>The life of a stored resource\<close>

text \<open>The worlds that come about by reconciliations of this controller and by what happens around them.\<close>

definition tfRuns :: "'w kube \<Rightarrow> nsname \<Rightarrow> 'w \<Rightarrow> 'w \<Rightarrow> bool" where
  "tfRuns cl key w w' \<longleftrightarrow>
    (\<exists>ul rc rnd s r s'. r_cluster s = w \<and> reconcileLocked cl ul rc rnd key s = (r, s') \<and> r_cluster s' = w')"

definition tf_world :: "'w kube \<Rightarrow> ('w \<Rightarrow> nsname \<Rightarrow> Terraform option) \<Rightarrow> nsname \<Rightarrow> 'w \<Rightarrow> bool" where
  "tf_world cl stored key = stage_world (tfRuns cl key) (\<lambda>w. map_option tfStage (stored w key))"

context tf_server begin

lemma stored_traced:
  assumes "tf_world cl stored key w" and "stored w key = Some tf"
  shows "stg_generation (tfStage tf) = 0 \<or> (\<exists>hist. stage_trace (tfAdvance cl) (tfStage tf, hist))"
proof (rule world_traced)
  show "stage_world (tfRuns cl key) (\<lambda>w. map_option tfStage (stored w key)) w"
    using assms(1) unfolding tf_world_def .
  show "map_option tfStage (stored w key) = Some (tfStage tf)" using assms(2) by simp
next
  fix v v' st' assume "tfRuns cl key v v'" and "map_option tfStage (stored v' key) = Some st'"
  then show "\<exists>st. map_option tfStage (stored v key) = Some st \<and> progress (tfAdvance cl) st st'"
    unfolding tfRuns_def using reconcileLocked_progress by (fastforce simp del: not_None_eq)
qed

end

section \<open>The cluster in memory\<close>

definition memStored :: "mem \<Rightarrow> nsname \<Rightarrow> Terraform option" where
  "memStored = listed tfKey m_tfs"

lemma mem_calls:
  "k_get_tf memCluster = memGet tfKey m_tfs"
  "k_update_tf memCluster = (\<lambda>tf w. (Inr tf, w\<lparr>m_tfs := storeBy tfKey tf (m_tfs w)\<rparr>))"
  "k_status_update_tf memCluster = (\<lambda>tf. memWrite (\<lambda>w. w\<lparr>m_tfs := storeBy tfKey tf (m_tfs w)\<rparr>) tf)"
  by (simp_all add: memCluster_def)

lemma mem_untouched: "untouched memCluster (\<lambda>w. v (m_tfs w) (m_tofus w))"
  unfolding untouched_def leaves_def
  by (auto simp: mem_defs Let_def split: option.splits)

lemma mem_tf_store: "tf_store memCluster memStored"
  unfolding tf_store_def
proof (intro conjI allI impI)
  show "untouched memCluster memStored"
    using mem_untouched [of "\<lambda>tfs _ key. find (\<lambda>r. tfKey r = key) tfs"] by (simp add: memStored_def listed_def [abs_def])
next
  fix key w tf w' assume "k_get_tf memCluster key w = (Inr tf, w')"
  then show "tfKey tf = key" "memStored w key = Some tf"
    using listed_get [of tfKey m_tfs] by (auto simp: memStored_def mem_calls)
next
  fix tf w e w' assume "k_status_update_tf memCluster tf w = (Inl e, w')"
  then show "memStored w' = memStored w"
    using listed_write [of _ tf w "Inl e" w' m_tfs tfKey] by (simp add: memStored_def mem_calls)
next
  fix tf w tf' w' assume "k_status_update_tf memCluster tf w = (Inr tf', w')"
  then have "tf' = tf \<and> memStored w' \<in> {memStored w, (memStored w)(tfKey tf \<mapsto> tf)}"
    using listed_write [of _ tf w "Inr tf'" w' m_tfs tfKey] by (simp add: memStored_def mem_calls)
  then show "tfKey tf' = tfKey tf" "tf_status tf' = tf_status tf" "memStored w' \<in> {memStored w, (memStored w)(tfKey tf \<mapsto> tf')}"
    by simp_all
next
  fix tf w e w' assume "k_update_tf memCluster tf w = (Inl e, w')"
  then show "memStored w' = memStored w" by (simp add: mem_calls)
next
  fix tf w tf' w' assume "k_update_tf memCluster tf w = (Inr tf', w')"
  then have "tf' = tf \<and> memStored w' \<in> {memStored w, (memStored w)(tfKey tf \<mapsto> tf)}"
    using listed_put [of m_tfs w' tfKey tf w] by (auto simp: memStored_def mem_calls)
  then show "tfKey tf' = tfKey tf"
      "tfStage tf' = tfStage tf \<or> (\<exists>old. memStored w (tfKey tf) = Some old \<and> tfStage tf' = tfStage old)"
      "memStored w' \<in> {memStored w, (memStored w)(tfKey tf \<mapsto> tf'), (memStored w)(tfKey tf := None)}"
    by auto
qed

interpretation mem_server: tf_server memCluster memStored
  by unfold_locales (rule mem_tf_store)

section \<open>Properties\<close>

text \<open>C1: A reconciliation refines the stage machine. On an API server that behaves as documented,
  whatever happens on the way (errors, conflicts, panics), it leaves every other resource
  alone, never brings the resource back, and the stage it leaves stored has the generation
  and the task of the stored one it found, or is one new stage \<open>checkSetNewStage\<close> allows
  from there, or the first stage of a new resource.\<close>

theorem reconcile_refines_stages:
  assumes "tf_store cl stored" and "reconcileLocked cl ul rc rnd key s = (r, s')"
  shows "(\<forall>k. k \<noteq> key \<longrightarrow> stored (r_cluster s') k = stored (r_cluster s) k) \<and>
    (\<forall>tf'. stored (r_cluster s') key = Some tf' \<longrightarrow>
      (\<exists>tf. stored (r_cluster s) key = Some tf \<and> progress (tfAdvance cl) (tfStage tf) (tfStage tf')))"
  by (rule tf_server.reconcileLocked_progress [OF tf_server.intro [OF assms(1)] assms(2)])

definition exampleUrllib :: urllib where
  "exampleUrllib = \<lparr>ul_detect = (\<lambda>f s d. Inr s), ul_sourceDirSubdir = (\<lambda>s. (s, [])),
     ul_parse = (\<lambda>s. Inr \<lparr>u_scheme = ''https'', u_host = ''github.com'', u_port = [], u_username = [],
        u_rawQuery = [], u_requestURI = ''/'', u_string = s\<rparr>),
     ul_parseQuery = (\<lambda>q. Inr []), ul_encode = (\<lambda>q. []), ul_sshURL = (\<lambda>u h p q. ''ssh://'' @ h @ p)\<rparr>"

definition exampleState :: "Terraform \<Rightarrow> (mem, Terraform) rstate" where
  "exampleState tf = \<lparr>r_cluster = emptyMem\<lparr>m_tfs := [tf]\<rparr>, r_cache = [], r_spawned = [], r_res = zeroTf\<rparr>"

abbreviation exampleKey :: nsname where
  "exampleKey \<equiv> (''default'', ''my-infra'')"

lemma exampleState_stored: "memStored (r_cluster (exampleState tf)) key = (if tfKey tf = key then Some tf else None)"
  by (simp add: exampleState_def memStored_def listed_def)

lemma reconcile_refines_stages_witness:
  "\<exists>r s'. reconcileLocked memCluster exampleUrllib exampleReconciler (\<lambda>i n. 0) exampleKey
       (exampleState (exampleAt RunPlan StateComplete)) = (r, s') \<and>
     (\<forall>tf'. memStored (r_cluster s') exampleKey = Some tf' \<longrightarrow>
       progress (tfAdvance memCluster) (exampleStage RunPlan StateComplete) (tfStage tf'))"
proof -
  obtain r s' where r: "reconcileLocked memCluster exampleUrllib exampleReconciler (\<lambda>i n. 0) exampleKey
       (exampleState (exampleAt RunPlan StateComplete)) = (r, s')" by (rule prod.exhaust)
  show ?thesis using reconcile_refines_stages [OF mem_tf_store r] r
    by (auto simp: exampleState_stored split: if_splits)
qed

text \<open>The first stage of a new resource, on the cluster in memory.\<close>

lemma exampleTf_first_stage:
  "\<exists>s' tf'. reconcileLocked memCluster exampleUrllib exampleReconciler (\<lambda>i n. 0) exampleKey (exampleState exampleTf) =
      (Inr Done, s') \<and> memStored (r_cluster s') exampleKey = Some tf' \<and>
      stg_taskType (tfStage tf') = RunSetup \<and> stg_generation (tfStage tf') = 1"
proof -
  have f: "updateFinalizer exampleTf = Some (False, exampleTf)"
    by (simp add: updateFinalizer_def example_defs tfFinalizer_def Let_def)
  define w where "w = emptyMem\<lparr>m_tfs := [exampleTf]\<rparr>"
  have g: "getTfResource memCluster exampleKey 3 w = (Inr exampleTf, w)"
    unfolding getTfResource_def
    by (rule getRetry_success) (simp_all add: w_def mem_calls memGet_def tfKey_def example_defs)
  define tf' where "tf' = tfSetPlugins (tfSetStage exampleTf (fst (newStage 100 exampleTf RunSetup ''TF_RESOURCE_CREATED''
      CanNotBeInterrupt StateInitializing))) []"
  define w' where "w' = w\<lparr>m_tfs := [tf'], m_writes := 1\<rparr>"
  have k: "tfKey tf' = exampleKey" "tfKey exampleTf = exampleKey"
    by (simp_all add: tf'_def tfSet_defs tfKey_def example_defs)
  have u: "k_status_update_tf memCluster tf' w = (Inr tf', w')"
    using k by (simp add: mem_calls memWrite_def w_def w'_def emptyMem_def storeBy_def)
  have "k_get_tf memCluster (tfKey tf') w' = (Inr tf', w')"
    by (simp add: mem_calls memGet_def w'_def)
  then have sv: "saveStatus memCluster tf' w = (Inr (None, tf'), w')"
    by (rule saveStatus_first [OF u]) (simp add: statusConfirmed_def TaskListsAreEqual_def StageIsEqual_def)
  have "addFirstStage memCluster (\<lparr>r_cluster = w, r_cache = [], r_spawned = [], r_res = exampleTf\<rparr>) =
      (Inr Done, \<lparr>r_cluster = w', r_cache = [], r_spawned = [], r_res = tf'\<rparr>)"
  proof -
    have "k_now memCluster w = 100" by (simp add: memCluster_def w_def emptyMem_def)
    then have "addFirstStage memCluster (\<lparr>r_cluster = w, r_cache = [], r_spawned = [], r_res = exampleTf\<rparr>) =
        saveOrFail memCluster (\<lparr>r_cluster = w, r_cache = [], r_spawned = [], r_res = tf'\<rparr>)"
      by (simp add: addFirstStage_def io_bind_def tf'_def newStage_def Let_def tfSet_defs example_defs)
    then show ?thesis using sv by (simp add: saveOrFail_def save_def afterUpdate_def io_bind_def)
  qed
  moreover have "exampleState exampleTf = \<lparr>r_cluster = w, r_cache = [], r_spawned = [], r_res = zeroTf\<rparr>"
    by (simp add: exampleState_def w_def)
  moreover have "tfPhase exampleTf \<noteq> PhaseDeleted" "tfst_podNamePrefix (tf_status exampleTf) \<noteq> []"
      "stg_generation (tfStage exampleTf) = 0" by (simp_all add: example_defs)
  ultimately have "reconcileLocked memCluster exampleUrllib exampleReconciler (\<lambda>i n. 0) exampleKey (exampleState exampleTf) =
      (Inr Done, \<lparr>r_cluster = w', r_cache = [], r_spawned = [], r_res = tf'\<rparr>)"
    using g f by (simp add: reconcileLocked_def io_try_def on_cluster_def io_bind_def [of "setRes exampleTf"])
  moreover have "memStored w' exampleKey = Some tf'" using k by (simp add: memStored_def listed_def w'_def)
  moreover have "stg_taskType (tfStage tf') = RunSetup" "stg_generation (tfStage tf') = 1"
    by (simp_all add: tf'_def newStage_stage tfSet_defs example_defs)
  ultimately show ?thesis by simp
qed



end
