(* ===== verification/Locking.thy ===== *)
theory Locking
  imports TfReconcile
begin

text \<open>
  The outer part of \<open>reconcile\<close>, which \<open>tf_controller.go\<close> and \<open>tofu_controller.go\<close> share
  line by line: the node selectors, then the lock in the cache around everything else.
  \<open>underLock\<close> is that part with the rest as an argument; what it guarantees is proved once
  for both controllers.
\<close>

definition underLock :: "'w controlPlane \<Rightarrow> reconciler \<Rightarrow> string \<Rightarrow> string \<Rightarrow> (('w, 'r) rstate, Result) io
    \<Rightarrow> (('w, 'r) rstate, Result) io" where
  "underLock cp rc ident base inner =
    io_bind (cacheNodeSelectors cp rc) (\<lambda>_ s.
      let lockKey = base @ lockSuffix in
      (case map_of (r_cache s) lockKey of
         Some (CachedText lockOwner) \<Rightarrow> io_return (RequeueAfter 30)
       | Some _ \<Rightarrow> panicWith ''interface conversion''
       | None \<Rightarrow> io_bind (cacheSet lockKey (CachedText ident))
           (\<lambda>_. io_finally inner (cacheDelete lockKey))) s)"

text \<open>The whole run, by what the cache says about the lock.\<close>

lemma underLock_cases:
  "underLock cp rc ident base inner s =
    (case cacheNodeSelectors cp rc s of
       (Inl e, s1) \<Rightarrow> (Inl e, s1)
     | (Inr _, s1) \<Rightarrow>
        (case map_of (r_cache s1) (base @ lockSuffix) of
           Some (CachedText lockOwner) \<Rightarrow> (Inr (RequeueAfter 30), s1)
         | Some _ \<Rightarrow> panicWith ''interface conversion'' s1
         | None \<Rightarrow> io_finally inner (cacheDelete (base @ lockSuffix))
             (s1\<lparr>r_cache := AList.update (base @ lockSuffix) (CachedText ident) (r_cache s1)\<rparr>)))"
  by (simp add: underLock_def io_bind_def Let_def panicWith_def split: prod.splits sum.splits option.splits cached.splits)

lemma finally_delete:
  "io_finally m (cacheDelete k) s = (case m s of (r, s') \<Rightarrow> (r, s'\<lparr>r_cache := AList.delete k (r_cache s')\<rparr>))"
  by (simp add: io_finally_def split: prod.splits)

section \<open>What the node selectors may change\<close>

lemma selectors_keep_rest:
  "keeps (\<lambda>s. r_res s = x \<and> r_spawned s = y) (cacheNodeSelectors cp rc)"
proof -
  have a: "keeps (\<lambda>s. r_res s = x \<and> r_spawned s = y) (on_cluster m)" for m :: "('a, 'c) io"
    by (simp add: keeps_def on_cluster_def split: prod.splits)
  have b: "keeps (\<lambda>s. r_res s = x \<and> r_spawned s = y) (cacheIf b k v)" for b k v
    by (simp add: keeps_def cacheIf_run)
  show ?thesis unfolding cacheNodeSelectors_def by (rule keeps_state) (intro keeps_intros a b)
qed

definition only_panics :: "('s, 'a) io \<Rightarrow> bool" where
  "only_panics m \<longleftrightarrow> (\<forall>s e s'. m s = (Inl e, s') \<longrightarrow> is_panic e)"

lemma only_panics_rules:
  "only_panics (io_return x)"
  "(\<And>x. only_panics (f x)) \<Longrightarrow> only_panics (orGiveUp m f)"
  "only_panics p \<Longrightarrow> only_panics q \<Longrightarrow> only_panics (if b then p else q)"
  "only_panics p \<Longrightarrow> (\<And>y. only_panics (g y)) \<Longrightarrow> only_panics (case opt of None \<Rightarrow> p | Some y \<Rightarrow> g y)"
  "(\<And>y z. only_panics (h y z)) \<Longrightarrow> only_panics (case pr of (y, z) \<Rightarrow> h y z)"
  "only_panics (io_seq [cacheIf a1 k1 v1, cacheIf a2 k2 v2, cacheIf a3 k3 v3])"
  by (auto simp: only_panics_def orGiveUp_def io_try_def cacheIf_run
      split: prod.splits sum.splits if_splits option.splits)

lemma selectors_only_panic: "only_panics (cacheNodeSelectors cp rc)"
proof -
  have s: "only_panics (\<lambda>s. m s s)" if "\<And>t. only_panics (m t)" for m :: "'c \<Rightarrow> ('c, 'd) io"
    using that by (auto simp: only_panics_def)
  show ?thesis unfolding cacheNodeSelectors_def by (rule s) (intro only_panics_rules)
qed

text \<open>A lock's key is none of the keys of the selectors.\<close>

lemma selectors_keep_lock:
  assumes "keysOk rc" and "hasSuffix k lockSuffix"
  shows "keeps (on_cache (\<lambda>c. map_of c k = v)) (cacheNodeSelectors cp rc)"
  by (rule cacheNodeSelectors_keeps) (use assms in \<open>auto simp: keysOk_def\<close>)

lemma selectors_keep_typed:
  "keysOk rc \<Longrightarrow> keeps (on_cache (cacheTyped rc)) (cacheNodeSelectors cp rc)"
  by (rule cacheNodeSelectors_keeps) (auto dest: cacheTyped_keys)

section \<open>What the lock guarantees\<close>

text \<open>
  \<open>excludes\<close> is what one run, from \<open>s\<close> to the answer \<open>r\<close> and \<open>s'\<close>, does about the lock of
  the key \<open>k\<close>: taken, it is respected, free, it is free again; the cache stays well typed.
\<close>

definition excludes :: "reconciler \<Rightarrow> string \<Rightarrow> ('w, 'r) rstate \<Rightarrow> goerr + Result \<Rightarrow> ('w, 'r) rstate \<Rightarrow> bool" where
  "excludes rc k s r s' \<longleftrightarrow>
    cacheTyped rc (r_cache s') \<and> (\<exists>sel. getNodeSelectorsFromCache rc (r_cache s') = Inr sel) \<and>
    (case map_of (r_cache s) k of
       Some v \<Rightarrow> (r = Inr (RequeueAfter 30) \<or> (\<exists>m. r = Inl (ErrPanic m))) \<and>
         r_res s' = r_res s \<and> r_spawned s' = r_spawned s \<and> map_of (r_cache s') k = Some v
     | None \<Rightarrow> map_of (r_cache s') k = None)"

lemma underLock_excludes:
  assumes "keysOk rc" and "cacheTyped rc (r_cache s)"
    and "underLock cp rc ident base work s = (r, s')"
    and inner: "\<And>t. r_cache (snd (work t)) = r_cache t"
  shows "excludes rc (base @ lockSuffix) s r s'"
proof -
  let ?k = "base @ lockSuffix"
  have suf: "hasSuffix ?k lockSuffix" by simp
  obtain q s1 where q: "cacheNodeSelectors cp rc s = (q, s1)" by (cases "cacheNodeSelectors cp rc s")
  have lock: "map_of (r_cache s1) ?k = map_of (r_cache s) ?k"
    using selectors_keep_lock [OF assms(1) suf, of "map_of (r_cache s) ?k" cp] q
    unfolding keeps_def on_cache_def by (metis snd_conv)
  have typed1: "cacheTyped rc (r_cache s1)"
    using selectors_keep_typed [OF assms(1), of cp] q assms(2) unfolding keeps_def on_cache_def by (metis snd_conv)
  have others: "r_res s1 = r_res s \<and> r_spawned s1 = r_spawned s"
    using selectors_keep_rest [of "r_res s" "r_spawned s" cp rc] q unfolding keeps_def by (metis snd_conv)
  have texts: "\<exists>ow. v = CachedText ow" if "map_of (r_cache s) ?k = Some v" for v
    using that assms(2) suf unfolding cacheTyped_def by blast
  have "cacheTyped rc (r_cache s') \<and>
    (case map_of (r_cache s) ?k of
       Some v \<Rightarrow> (r = Inr (RequeueAfter 30) \<or> (\<exists>m. r = Inl (ErrPanic m))) \<and>
         r_res s' = r_res s \<and> r_spawned s' = r_spawned s \<and> map_of (r_cache s') ?k = Some v
     | None \<Rightarrow> map_of (r_cache s') ?k = None)"
  proof (cases q)
    case (Inl e)
    then have "is_panic e" using q selectors_only_panic [of cp rc] unfolding only_panics_def by blast
    then obtain m where "e = ErrPanic m" by (cases e) simp_all
    then have "r = Inl (ErrPanic m)" "s' = s1" using assms(3) q Inl by (simp_all add: underLock_cases)
    then show ?thesis using lock typed1 others by (simp split: option.splits)
  next
    case (Inr u)
    show ?thesis
    proof (cases "map_of (r_cache s) ?k")
      case None
      define s2 where "s2 = s1\<lparr>r_cache := AList.update ?k (CachedText ident) (r_cache s1)\<rparr>"
      have "s' = (case work s2 of (r, t) \<Rightarrow> t\<lparr>r_cache := AList.delete ?k (r_cache t)\<rparr>)"
        using assms(3) q Inr lock None by (simp add: underLock_cases finally_delete s2_def split: prod.splits)
      then have "r_cache s' = AList.delete ?k (r_cache s2)"
        using inner [of s2] by (simp add: case_prod_beta)
      then show ?thesis using None cacheTyped_lock [OF assms(1) _ suf] typed1 by (simp add: s2_def)
    next
      case (Some v)
      then obtain ow where "v = CachedText ow" using texts by blast
      then have "r = Inr (RequeueAfter 30)" "s' = s1" using assms(3) q Inr lock Some by (simp_all add: underLock_cases)
      then show ?thesis using lock typed1 others Some by simp
    qed
  qed
  then show ?thesis unfolding excludes_def using getNodeSelectors_typed by blast
qed

end
