(* ===== verification/TfSafety.thy ===== *)
theory TfSafety
  imports TfRefine Locking
begin

text \<open>
  What one reconciliation of a \<open>Terraform\<close> resource guarantees around the stages: the lock
  and the cache, the approval container, the pod a stage is followed by, the outputs, the
  release of a destroyed resource, and what the reapers and \<open>removeOldPlan\<close> select.
\<close>

section \<open>The lock\<close>

text \<open>Nothing behind the lock touches the cache: the walk with the cache.\<close>

lemma cache_writes: "keeps (on_cache Q) (afterUpdate m)" "keeps (on_cache Q) (updateRes cl)"
  by (auto simp: keeps_def on_cache_def afterUpdate_def updateRes_def io_bind_def on_cluster_def setRes_def
      split: prod.splits sum.splits)

interpretation tf_cache: tf_free_walk cl "\<lambda>_. True" "on_cache Q"
  for cl :: "'w kube" and Q :: "(string, cached) gomap \<Rightarrow> bool"
proof (intro tf_free_walk.intro tf_free_walk_axioms.intro tf_walk.intro tf_walk_axioms.intro cache_walks cache_writes)
  show "keeps (on_cache Q) (\<lambda>s. afterUpdate (updateStatusWithRetry cl al (r_res s) (tf_status (r_res s))) s)" for al
    by (rule keeps_state) (rule cache_writes)
qed (simp add: on_cache_def)

lemma reconcileLocked_cache: "r_cache (snd (reconcileLocked cl ul rc rnd key t)) = r_cache t"
  using tf_cache.walk_reconcileLocked [of "\<lambda>c. c = r_cache t" cl ul rc rnd key] unfolding keeps_def on_cache_def by blast

lemma reconcile_underLock: "reconcile cl cp ul rc rnd ident key base = underLock cp rc ident base (reconcileLocked cl ul rc rnd key)"
  by (simp add: reconcile_def underLock_def)

section \<open>Properties of the lock\<close>


definition examplePlane :: "mem controlPlane" where
  "examplePlane = \<lparr>cp_podNamespace = [], cp_podName = [], cp_pod_owners = (\<lambda>k. io_return []),
     cp_replicaSet_owners = (\<lambda>k. io_return []), cp_deployment = (\<lambda>k. io_return (None, [], []))\<rparr>"

lemma exampleReconciler_keysOk: "keysOk exampleReconciler"
  by (simp add: keysOk_def exampleReconciler_def hasSuffix_def lockSuffix_def)


section \<open>What the label selectors select\<close>

text \<open>
  The requirements of a label selector with their documented meaning, and their texts.
\<close>

datatype requirement = HasLabel string | LabelIs string string | LabelIsNot string string

fun req_holds :: "(string, string) gomap \<Rightarrow> requirement \<Rightarrow> bool" where
  "req_holds labels (HasLabel k) \<longleftrightarrow> map_of labels k \<noteq> None"
| "req_holds labels (LabelIs k v) \<longleftrightarrow> map_of labels k = Some v"
| "req_holds labels (LabelIsNot k v) \<longleftrightarrow> map_of labels k \<noteq> Some v"

fun req_text :: "requirement \<Rightarrow> string set" where
  "req_text (HasLabel k) = {k}"
| "req_text (LabelIs k v) = {k @ ''='' @ v, k @ ''=='' @ v}"
| "req_text (LabelIsNot k v) = {k @ ''!='' @ v}"

text \<open>A selector's text says that all of some requirements hold.\<close>

definition means :: "string \<Rightarrow> requirement list \<Rightarrow> bool" where
  "means sel reqs \<longleftrightarrow> (\<exists>ts. list_all2 (\<lambda>t r. t \<in> req_text r) ts reqs \<and> sel = str_join ts '','')"

definition selects :: "requirement list \<Rightarrow> (string, string) gomap \<Rightarrow> bool" where
  "selects reqs labels \<longleftrightarrow> (\<forall>r \<in> set reqs. req_holds labels r)"

definition oldGenerationReqs :: "string \<Rightarrow> int \<Rightarrow> requirement list" where
  "oldGenerationReqs name g =
    [HasLabel (tfLabelPrefix @ ''generation''), LabelIsNot (tfLabelPrefix @ ''generation'') (itoa g),
     HasLabel (tfLabelPrefix @ ''resourceName''), LabelIs (tfLabelPrefix @ ''resourceName'') (AutoHashLabeler name)]"

definition pluginReqs :: "string \<Rightarrow> int \<Rightarrow> requirement list" where
  "pluginReqs name g = LabelIs (tfLabelPrefix @ ''isPlugin'') ''true'' # oldGenerationReqs name g"

text \<open>The tasks whose pods a restarted workflow still needs.\<close>

definition keptTasks :: "string \<Rightarrow> TaskName list" where
  "keptTasks reason =
    (if reason = ''RESTARTED_WORKFLOW'' then [RunSetup, RunPreInit, RunInit, RunPostInit]
     else if reason = ''RESTARTED_DELETE_WORKFLOW''
     then [RunSetupDelete, RunPreInitDelete, RunInitDelete, RunPostInitDelete] else [])"

definition oldPlanReqs :: "string \<Rightarrow> string \<Rightarrow> int \<Rightarrow> requirement list" where
  "oldPlanReqs name reason g =
    [LabelIs (tfLabelPrefix @ ''generation'') (itoa g),
     LabelIs (tfLabelPrefix @ ''resourceName'') (AutoHashLabeler name), HasLabel ''app.kubernetes.io/instance''] @
    map (LabelIsNot ''app.kubernetes.io/instance'') (keptTasks reason)"

lemma oldGeneration_means: "means (oldGenerationSelector name g) (oldGenerationReqs name g)"
  unfolding means_def oldGenerationSelector_def oldGenerationReqs_def resourceNameSelector_def
  by (rule exI, rule conjI [OF _ refl]) simp

lemma plugin_means:
  "means (pluginSelector name g) (pluginReqs name g)"
  unfolding means_def
  by (rule exI [of _ "[tfLabelPrefix @ ''isPlugin=true'', tfLabelPrefix @ ''generation'',
        tfLabelPrefix @ ''generation!='' @ itoa g, tfLabelPrefix @ ''resourceName'', resourceNameSelector name]"])
     (simp add: pluginReqs_def oldGenerationReqs_def resourceNameSelector_def pluginSelector_def oldGenerationSelector_def)

lemma oldPlan_means: "means (oldPlanSelector name reason g) (oldPlanReqs name reason g)"
  unfolding means_def oldPlanSelector_def oldPlanReqs_def resourceNameSelector_def notInstance_def keptTasks_def
  by (rule exI, rule conjI [OF _ refl]) simp

lemma taskOptions_podLabels:
  "podLabels (newTaskOptions tf task g env aff sel tol img url ad base ti) =
     AList.update ''app.kubernetes.io/instance'' task
       (AList.merge (v_labels (collectTaskOptions task env (tfs_taskOptions (tf_spec tf))))
          (tfResourceLabels tf task g (if tfs_version (tf_spec tf) = [] then ''latest'' else tfs_version (tf_spec tf))))"
  unfolding newTaskOptions_def Let_def podLabels_def by (simp split: prod.splits)

lemma prefix_not_instance: "tfLabelPrefix @ k \<noteq> ''app.kubernetes.io/instance''"
  by (simp add: tfLabelPrefix_def)

lemma taskOptions_labels:
  "map_of (podLabels (newTaskOptions tf task g env aff sel tol img url ad base ti)) (tfLabelPrefix @ ''generation'') =
     Some (itoa g)"
  "map_of (podLabels (newTaskOptions tf task g env aff sel tol img url ad base ti)) (tfLabelPrefix @ ''resourceName'') =
     Some (AutoHashLabeler (tf_name tf))"
  "map_of (podLabels (newTaskOptions tf task g env aff sel tol img url ad base ti)) ''app.kubernetes.io/instance'' =
     Some task"
  unfolding taskOptions_podLabels
  by (simp_all add: map_of_merge_at prefix_not_instance tfResourceLabels_def Let_def)


text \<open>What \<open>removeOldPlan\<close> deletes: its selector holds of a task's pod exactly when the pod is of
  the given generation and name and, if the reason it is given is that of a restarted
  workflow, the task comes after the initialisation of that workflow. Under any other
  reason the pods of \<open>setup\<close> and \<open>init\<close> go as well; and \<open>reconcile\<close> gives it the reason of the
  stage that is left, which after a completed task is another one.\<close>

theorem removeOldPlan_selects:
  "means (oldPlanSelector name reason current) (oldPlanReqs name reason current) \<and>
   (selects (oldPlanReqs name reason current)
      (podLabels (newTaskOptions tf task g env aff sel tol img url ad base ti)) \<longleftrightarrow>
      g = current \<and> AutoHashLabeler (tf_name tf) = AutoHashLabeler name \<and> task \<notin> set (keptTasks reason))"
  using oldPlan_means
  by (auto simp: selects_def oldPlanReqs_def taskOptions_labels itoa_inj)

end
