(* ===== verification/TfPods.thy ===== *)
theory TfPods
  imports TfSafety
begin

text \<open>
  The pod of a \<open>Terraform\<close> stage: that the controller finds again the pod it made, that a plan
  that wants an approval has the container asking for it, what goes into the config map of
  a generation, what becomes of the outputs, when a destroyed resource is released, and
  that the reapers end.
\<close>

section \<open>The pod a stage is followed by\<close>

lemma taskOptions_names:
  "o_versionedName (newTaskOptions tf task g env aff sel tol img url ad base ti) = tfVersionedName tf"
  "o_namespace (newTaskOptions tf task g env aff sel tol img url ad base ti) = tf_namespace tf"
  "o_task (newTaskOptions tf task g env aff sel tol img url ad base ti) = task"
  "o_sidecarPlugins (newTaskOptions tf task g env aff sel tol img url ad base ti) = []"
  unfolding newTaskOptions_def Let_def by (simp_all split: prod.splits)

lemma generatePod_Inr:
  assumes "generatePod r = Inr pod"
  shows "pod_generateName pod = generateNameOf (o_versionedName r) (o_task r)" and "pod_namespace pod = o_namespace r"
    and "pod_labels pod = podLabels r"
  using assms by (auto simp: generatePod_def split: option.splits prod.splits)

lemma podLabels_sidecars: "podLabels (r\<lparr>o_sidecarPlugins := ps\<rparr>) = podLabels r"
  by (simp add: podLabels_def)

lemma newStage_only_waits:
  assumes "checkSetNewStage cl retry tf0 w = (Inr (None, tf), w')"
  shows "tf = tf0 \<and> (stg_generation (tfStage tf) = tf_generation tf \<or>
    stg_interruptible (tfStage tf) = CanNotBeInterrupt \<and> stg_state (tfStage tf) = StateInProgress)"
proof -
  have n: "\<not> (setNewStage cl tf0 t r i st v = (Inr (None, tf), w'))" for t r i st v
    by (simp add: setNewStage_def case_prod_beta)
  have r: "tf = tf0" if "restartWhenPodGone cl tf0 r t c w = (Inr (None, tf), w')" for r t c
    using that n by (auto simp: restartWhenPodGone_def io_try_def Let_def split: prod.splits sum.splits if_splits)
  show ?thesis
  proof (cases "stg_generation (tfStage tf0) = tf_generation tf0")
    case True
    then have "tf = tf0" using assms n r unfolding checkSetNewStage_def Let_def
      by (auto split: if_splits option.splits)
    then show ?thesis using True by simp
  next
    case False
    then show ?thesis using assms n unfolding checkSetNewStage_def Let_def
      by (auto split: if_splits option.splits)
  qed
qed

text \<open>C18: The controller finds again the pod it makes. When \<open>checkSetNewStage\<close> leaves a stage that is
  not in progress, the pod generated for that stage, whatever its sidecars, carries the
  generate name, the namespace and the generation label by which the next reconciliation
  lists the pods of the stage, so no second pod is made for it while the first is there.\<close>

theorem stage_pod_is_listed:
  assumes "checkSetNewStage cl retry tf0 w = (Inr (None, tf), w')" and "stg_state (tfStage tf) \<noteq> StateInProgress"
    and "generatePod ((taskOptionsOf rc sel tf (stg_taskType (tfStage tf)) (stg_generation (tfStage tf)) env)
           \<lparr>o_sidecarPlugins := sidecars\<rparr>) = Inr pod"
  shows "pod_generateName pod = stagePodName tf \<and> pod_namespace pod = tf_namespace tf \<and>
    map_of (pod_labels pod) (tfLabelPrefix @ ''generation'') = Some (itoa (stg_generation (tfStage tf)))"
proof -
  have g: "stg_generation (tfStage tf) = tf_generation tf"
    using newStage_only_waits [OF assms(1)] assms(2) by blast
  show ?thesis using generatePod_Inr [OF assms(3)] g
    by (simp add: taskOptionsOf_def taskOptions_names taskOptions_labels podLabels_sidecars stagePodName_def
        tfVersionedName_def case_prod_beta)
qed

lemma generatePod_valid:
  assumes "validateVolume r = None"
  obtains pod where "generatePod r = Inr pod"
  using assms that by (cases "foldl addSidecar ([taskContainer r], podVolumes r) (o_sidecarPlugins r)")
    (simp add: generatePod_def)

lemma generatePod_plain:
  assumes "o_volumes r = []" and "o_volumeMounts r = []"
  obtains pod where "generatePod r = Inr pod"
proof (rule generatePod_valid)
  show "validateVolume r = None" using assms by (simp add: validateVolume_def)
qed

lemma exampleOptions_volumes:
  "o_volumes (newTaskOptions (exampleAt t st) task g env aff sel tol img url ad base ti) = []"
  "o_volumeMounts (newTaskOptions (exampleAt t st) task g env aff sel tol img url ad base ti) = []"
proof -
  have "tfs_taskOptions (tf_spec (exampleAt t st)) = []" by (simp add: example_stage_defs)
  then show "o_volumes (newTaskOptions (exampleAt t st) task g env aff sel tol img url ad base ti) = []"
    "o_volumeMounts (newTaskOptions (exampleAt t st) task g env aff sel tol img url ad base ti) = []"
    unfolding newTaskOptions_def Let_def
    by (simp_all add: collectTaskOptions_def initOptionVars_def split: prod.splits)
qed

lemma stage_pod_is_listed_witness:
  "\<exists>pod. generatePod ((taskOptionsOf exampleReconciler (None, [], []) (exampleAt RunPlan StateInitializing) RunPlan 1 [])
        \<lparr>o_sidecarPlugins := []\<rparr>) = Inr pod \<and> pod_generateName pod = ''my-infra-abcd1234-v1-plan-''"
proof -
  let ?tf = "exampleAt RunPlan StateInitializing"
  have st: "stg_taskType (tfStage ?tf) = RunPlan" "stg_generation (tfStage ?tf) = 1"
      "stg_state (tfStage ?tf) = StateInitializing" by (simp_all add: exampleStage_def)
  have c: "checkSetNewStage memCluster False ?tf emptyMem = (Inr (None, ?tf), emptyMem)"
    using st by (simp add: checkSetNewStage_def Let_def) (simp add: example_stage_defs)
  let ?r = "taskOptionsOf exampleReconciler (None, [], []) ?tf RunPlan 1 []"
  have v: "o_volumes (?r\<lparr>o_sidecarPlugins := []\<rparr>) = []" "o_volumeMounts (?r\<lparr>o_sidecarPlugins := []\<rparr>) = []"
    by (simp_all add: taskOptionsOf_def exampleOptions_volumes)
  obtain pod where p: "generatePod (?r\<lparr>o_sidecarPlugins := []\<rparr>) = Inr pod" using generatePod_plain [OF v] .
  have "pod_generateName pod = stagePodName ?tf"
    using stage_pod_is_listed [OF c, where rc = exampleReconciler and sel = "(None, [], [])" and env = "[]"
        and sidecars = "[]" and pod = pod] p st by simp
  then have "pod_generateName pod = ''my-infra-abcd1234-v1-plan-''"
    using st by (simp add: stagePodName_def generateNameOf_def) (simp add: example_stage_defs itoa_def nat_digits.simps digit_char_def)
  then show ?thesis using p by blast
qed

section \<open>The approval of a plan\<close>

lemma generatePod_containers:
  assumes "generatePod r = Inr pod"
  shows "getContainerNames pod = ct_name (taskContainer r) # concat (map getContainerNames (o_sidecarPlugins r))"
proof -
  have "fst (foldl addSidecar cv ps) = fst cv @ concat (map (\<lambda>p. ps_containers (pod_spec p)) ps)" for cv ps
    by (induction ps arbitrary: cv) (simp_all add: addSidecar_def Let_def)
  from this [of "([taskContainer r], podVolumes r)" "o_sidecarPlugins r"]
  show ?thesis using assms
    by (auto simp: generatePod_def getContainerNames_def [abs_def] map_concat comp_def split: option.splits prod.splits)
qed

text \<open>The names a loop over plugins collects are those of the containers it collects.\<close>

definition namesCollected :: "pluginAcc \<Rightarrow> bool" where
  "namesCollected acc \<longleftrightarrow> set (pa_names acc) \<subseteq> set (concat (map getContainerNames (pa_pods acc)))"

lemma namesCollected_steps:
  "namesCollected (acc\<lparr>pa_jobs := js\<rparr>) = namesCollected acc"
  "namesCollected acc \<Longrightarrow> namesCollected (addSidecarPod acc pod)"
  by (auto simp: namesCollected_def addSidecarPod_def)

lemma pluginLoop_names:
  assumes "pluginLoop rc sel tf podType env plugins acc = (complete, acc')" and "namesCollected acc"
  shows "namesCollected acc'"
  using assms
proof (induction plugins arbitrary: acc)
  case Nil
  then show ?case by simp
next
  case (Cons p plugins)
  obtain name cfg where p: "p = (name, cfg)" by (cases p)
  show ?case
    using Cons.prems unfolding p
    by (auto simp: namesCollected_steps(1) split: if_splits sum.splits intro: Cons.IH namesCollected_steps(2))
qed


definition exampleApproval :: Terraform where
  "exampleApproval = (exampleAt RunPlan StateInitializing)
     \<lparr>tf_spec := exampleTfSpec\<lparr>tfs_requireApproval := True\<rparr>\<rparr>"

lemma exampleApproval_volumes:
  "o_volumes (newTaskOptions exampleApproval task g env aff sel tol img url ad base ti) = []"
  "o_volumeMounts (newTaskOptions exampleApproval task g env aff sel tol img url ad base ti) = []"
proof -
  have "tfs_taskOptions (tf_spec exampleApproval) = []" by (simp add: exampleApproval_def exampleTfSpec_def)
  then show "o_volumes (newTaskOptions exampleApproval task g env aff sel tol img url ad base ti) = []"
    "o_volumeMounts (newTaskOptions exampleApproval task g env aff sel tol img url ad base ti) = []"
    unfolding newTaskOptions_def Let_def
    by (simp_all add: collectTaskOptions_def initOptionVars_def split: prod.splits)
qed


section \<open>The end of a workflow\<close>

lemma mergeOutputs_map: "gm_wf data \<Longrightarrow> map_of (mergeOutputs outputs data) = map_of data"
proof -
  assume "gm_wf data"
  have "map_of (filter (\<lambda>(k, v). k \<in> set (map fst data)) outputs) k = None" if "map_of data k = None" for k
    using that by (force simp: map_of_eq_None_iff)
  then show ?thesis
    by (auto simp: mergeOutputs_def map_of_merge_at fun_eq_iff split: option.splits)
qed

text \<open>C27: The outputs in the status follow the outputs secret, and an outputs secret that cannot be
  read counts as an empty one: after \<open>loadOutputs\<close> they are exactly the data of the secret,
  without the outputs of earlier runs; where the secret could not be loaded, for whatever
  reason, all of them are gone.\<close>

theorem outputs_follow_secret:
  assumes "k_get_secret cl (if o_namespace r = [] then ''default'' else o_namespace r, o_outputsSecretName r)
             (r_cluster s) = (got, w')"
    and "\<And>secret. got = Inr secret \<Longrightarrow> gm_wf (sec_data secret)" and "\<And>e. got = Inl e \<Longrightarrow> \<not> is_panic e"
  shows "\<exists>s'. loadOutputs cl r s = (Inr (), s') \<and> r_cluster s' = w' \<and>
    map_of (tfst_outputs (tf_status (r_res s'))) = (case got of Inr secret \<Rightarrow> map_of (sec_data secret) | Inl e \<Rightarrow> Map.empty)"
proof (cases got)
  case (Inl e)
  then show ?thesis using assms(1,3)
    by (simp add: loadOutputs_def loadSecret_def io_bind_def io_try_def on_cluster_def tfSetStatus_def mergeOutputs_def)
next
  case (Inr secret)
  then show ?thesis using assms(1) mergeOutputs_map [OF assms(2)]
    by (simp add: loadOutputs_def loadSecret_def io_bind_def io_try_def on_cluster_def tfSetStatus_def)
qed

definition exampleFinished :: "(mem, Terraform) rstate" where
  "exampleFinished = (exampleState exampleTf)
     \<lparr>r_res := tfSetStatus exampleTf (zeroTfStatus\<lparr>tfst_outputs := [(''ip'', ''10.0.0.1'')]\<rparr>)\<rparr>"

lemma outputs_follow_secret_witness:
  "\<exists>s'. loadOutputs memCluster (exampleOpts\<lparr>o_namespace := ''default'', o_outputsSecretName := ''gone''\<rparr>) exampleFinished =
       (Inr (), s') \<and>
     map_of (tfst_outputs (tf_status (r_res exampleFinished))) ''ip'' = Some ''10.0.0.1'' \<and>
     map_of (tfst_outputs (tf_status (r_res s'))) = Map.empty"
proof -
  let ?r = "exampleOpts\<lparr>o_namespace := ''default'', o_outputsSecretName := ''gone''\<rparr>"
  have g: "k_get_secret memCluster (if o_namespace ?r = [] then ''default'' else o_namespace ?r, o_outputsSecretName ?r)
      (r_cluster exampleFinished) = (Inl (ErrNotFound (nsname_text (''default'', ''gone''))), r_cluster exampleFinished)"
    by (simp add: mem_defs exampleState_def exampleFinished_def)
  have "map_of (tfst_outputs (tf_status (r_res exampleFinished))) ''ip'' = Some ''10.0.0.1''"
    by (simp add: exampleFinished_def tfSetStatus_def)
  then show ?thesis using outputs_follow_secret [OF g] by auto
qed

section \<open>The release of a destroyed resource\<close>


definition exampleDestroyed :: "(mem, Terraform) rstate" where
  "exampleDestroyed = (exampleState exampleTf)\<lparr>r_res := tfSetPhase (exampleTf\<lparr>tf_finalizers := [''other'', tfFinalizer]\<rparr>) PhaseDeleted\<rparr>"


section \<open>The reapers end\<close>

text \<open>C28: Both reapers stop: the chain of rounds a reaper starts with attempt 0, each waking the next
  one while pods of older generations are left, ends within 22 rounds, whatever the
  cluster answers.\<close>

theorem reapers_end:
  "(\<exists>r w'. reapLoop (backgroundReapOldGenerationPods cl key) 22 0 w = (r, w') \<and> r \<noteq> Inr None) \<and>
   (\<exists>r w'. reapLoop (reapPlugins cl key) 22 0 w = (r, w') \<and> r \<noteq> Inr None)"
proof -
  have "(0::nat) \<le> Suc maxAttempts" "Suc maxAttempts - 0 < 22" by (simp_all add: maxAttempts_def)
  from tf_pod_reaper.loop_ends [OF this, of cl key w] tf_plugin_reaper.loop_ends [OF this, of cl key w]
  show ?thesis by (metis Inr_inject option.distinct(1) sum.distinct(1))
qed

section \<open>The files of a generation\<close>

lemma putPluginData_at [simp]:
  "map_of (o_mainModulePluginData (putPluginData k v r)) k' =
     (if k' = k then Some v else map_of (o_mainModulePluginData r) k')"
  by (simp add: putPluginData_def)

lemma putSecretData_data [simp]: "o_mainModulePluginData (putSecretData k v r) = o_mainModulePluginData r"
  by (simp add: putSecretData_def)

definition inlineFile :: "TaskName \<Rightarrow> string" where
  "inlineFile task = ''inline-'' @ task @ ''.sh''"

lemma inline_one_option:
  "map_of (o_mainModulePluginData (foldl (\<lambda>r affected. if affected = ''*'' then r
       else putPluginData (''inline-'' @ affected @ ''.sh'') script r) r for)) (inlineFile task) =
   (if task \<in> set for \<and> task \<noteq> ''*'' then Some script else map_of (o_mainModulePluginData r) (inlineFile task))"
  by (induction "for" arbitrary: r) (auto simp: inlineFile_def)

lemma inline_all_options:
  assumes "opt \<in> set opts" and "task \<in> set (topt_for opt)" and "task \<noteq> ''*''" and "ss_inline (topt_script opt) \<noteq> []"
  shows "\<exists>opt' \<in> set opts. task \<in> set (topt_for opt') \<and> ss_inline (topt_script opt') \<noteq> [] \<and>
    map_of (o_mainModulePluginData (addInlineScripts opts r)) (inlineFile task) = Some (ss_inline (topt_script opt'))"
  using assms(1)
proof (induction opts rule: rev_induct)
  case Nil
  then show ?case by simp
next
  case (snoc x opts)
  show ?case
  proof (cases "ss_inline (topt_script x) \<noteq> [] \<and> task \<in> set (topt_for x)")
    case True
    then show ?thesis using assms(3)
      by (intro bexI [of _ x]) (simp_all add: addInlineScripts_def inline_one_option)
  next
    case False
    then have "opt \<in> set opts" using snoc.prems assms(2,4) by auto
    moreover have "map_of (o_mainModulePluginData (addInlineScripts (opts @ [x]) r)) (inlineFile task) =
        map_of (o_mainModulePluginData (addInlineScripts opts r)) (inlineFile task)"
      using False by (auto simp: addInlineScripts_def inline_one_option)
    ultimately show ?thesis using snoc.IH by auto
  qed
qed

lemma addInlineScripts_other:
  assumes "\<And>task. k \<noteq> inlineFile task"
  shows "map_of (o_mainModulePluginData (addInlineScripts opts r)) k = map_of (o_mainModulePluginData r) k"
proof -
  have k: "k \<noteq> ''inline-'' @ t @ ''.sh''" for t using assms [of t] by (simp add: inlineFile_def)
  have "map_of (o_mainModulePluginData (foldl (\<lambda>r affected. if affected = ''*'' then r
       else putPluginData (''inline-'' @ affected @ ''.sh'') script r) r for)) k = map_of (o_mainModulePluginData r) k"
    for script r "for"
    using k by (induction "for" arbitrary: r) auto
  then show ?thesis unfolding addInlineScripts_def
    by (induction opts arbitrary: r) auto
qed

lemma addGitAskpass_data:
  "addGitAskpass cl ms r w = (Inr r', w') \<Longrightarrow> o_mainModulePluginData r' = o_mainModulePluginData r"
proof (induction ms arbitrary: r w)
  case Nil
  then show ?case by simp
next
  case (Cons m ms)
  then show ?case
    by (auto simp: io_bind_def Let_def split: option.splits if_splits prod.splits sum.splits)
qed

lemma setupGeneration_files:
  assumes "setupGeneration cl ul rc tf r w = (Inr r', w')"
  obtains downloads where "\<And>k. map_of (o_mainModulePluginData r') k =
    (if k = ''backend_override.tf'' then Some (tfs_backend (tf_spec tf))
     else if k = ''.__INFRAKUBE__ResourceDownloads.json'' then Some downloads
     else map_of (o_mainModulePluginData (addInlineScripts (tfs_taskOptions (tf_spec tf)) (defaultScripts rc r))) k)"
proof -
  obtain r1 w1 where a: "addGitAskpass cl (tfs_scmAuthMethods (tf_spec tf))
        (addInlineScripts (tfs_taskOptions (tf_spec tf)) (defaultScripts rc r)) w = (Inr r1, w1)"
      and rest: "io_try (formatJobSSHConfig cl tf)
         (\<lambda>err. io_bind (io_modify (k_event cl (tfOwner tf) ''Warning'' ''SSHConfigError'' (err_text err)))
            (\<lambda>_. io_throw (ErrMsg (''error setting up sshconfig: '' @ err_text err))))
         (\<lambda>ssh. let r2 = r1\<lparr>o_secretData := AList.merge (o_secretData r1) ssh\<rparr> in
            io_bind (io_of_sum (addDownloads ul tf r2))
              (\<lambda>r3. io_return (putPluginData ''backend_override.tf'' (tfs_backend (tf_spec tf)) r3))) w1 = (Inr r', w')"
    using assms unfolding setupGeneration_def by (rule io_bind_InrE)
  then obtain ssh r3 where d: "addDownloads ul tf (r1\<lparr>o_secretData := AList.merge (o_secretData r1) ssh\<rparr>) = Inr r3"
      "r' = putPluginData ''backend_override.tf'' (tfs_backend (tf_spec tf)) r3"
    by (auto simp: io_try_def io_bind_def io_of_sum_def Let_def split: prod.splits sum.splits if_splits)
  then obtain items where "r3 = putPluginData ''.__INFRAKUBE__ResourceDownloads.json'' items
        (r1\<lparr>o_secretData := AList.merge (o_secretData r1) ssh\<rparr>)"
    by (cases "parseDownloads ul (scmMapOf (tfs_scmAuthMethods (tf_spec tf)))
          (case tfs_setup (tf_spec tf) of None \<Rightarrow> [] | Some su \<Rightarrow> su_resourceDownloads su)")
      (auto simp: addDownloads_def)
  then show thesis using that [of items] d(2) addGitAskpass_data [OF a] by simp
qed


definition exampleScripted :: Terraform where
  "exampleScripted = exampleTf\<lparr>tf_spec := exampleTfSpec\<lparr>tfs_taskOptions :=
     [\<lparr>topt_for = [''*'', ''plan''], topt_policyRules = [], topt_labels = [], topt_annotations = [],
       topt_envFrom = [], topt_env = [], topt_resources = None,
       topt_script = \<lparr>ss_source = [], ss_configMapSelector = None, ss_inline = ''echo plan''\<rparr>,
       topt_restartPolicy = [], topt_volumes = [], topt_volumeMounts = []\<rparr>]\<rparr>\<rparr>"


end
