(* ===== verification/TfHealthy.thy ===== *)
theory TfHealthy
  imports Returns TfPods
begin

text \<open>
  A cluster on which nothing fails, and the resources whose workflow can run on it: the
  writes of the status, the objects and the pod of a stage all succeed, whatever the task.
\<close>

section \<open>A cluster where nothing fails\<close>

text \<open>
  \<open>stored\<close> are the \<open>Terraform\<close> resources, \<open>view\<close> the other objects (\<open>store_laws\<close>). Pods come
  and go; \<open>sameObjects\<close> looks at the rest. A status write of a stored resource stores its
  status; a write of its finalizers stores them, or removes a deleted resource that has none
  left; and a pod that is only given a \<open>generateName\<close> is created.
\<close>

definition sameObjects :: "(kind \<times> nsname \<Rightarrow> kobj option) \<Rightarrow> (kind \<times> nsname \<Rightarrow> kobj option) \<Rightarrow> bool" where
  "sameObjects v v' \<longleftrightarrow> (\<forall>k key. k \<noteq> PodKind \<longrightarrow> v' (k, key) = v (k, key))"

definition healthy :: "'w kube \<Rightarrow> ('w \<Rightarrow> nsname \<Rightarrow> Terraform option) \<Rightarrow> ('w \<Rightarrow> kind \<times> nsname \<Rightarrow> kobj option) \<Rightarrow> bool" where
  "healthy cl stored view \<longleftrightarrow> tf_store cl stored \<and> store_laws cl view \<and>
    (\<forall>key w tf. stored w key = Some tf \<longrightarrow> k_get_tf cl key w = (Inr tf, w)) \<and>
    (\<forall>tf st w. stored w (tfKey tf) = Some tf \<longrightarrow>
       (\<exists>w'. k_status_update_tf cl (tfSetStatus tf st) w = (Inr (tfSetStatus tf st), w') \<and>
          stored w' = (stored w)(tfKey tf \<mapsto> tfSetStatus tf st) \<and> view w' = view w)) \<and>
    (\<forall>tf fs w. stored w (tfKey tf) = Some tf \<longrightarrow>
       (\<exists>w'. k_update_tf cl (tfSetFinalizers tf fs) w = (Inr (tfSetFinalizers tf fs), w') \<and> view w' = view w \<and>
          stored w' = (stored w)(tfKey tf := if fs = [] \<and> tf_deletionTimestamp tf \<noteq> None then None
            else Some (tfSetFinalizers tf fs)))) \<and>
    (\<forall>ow p w. pod_name p = [] \<longrightarrow>
       (\<exists>n w'. k_create cl ow (KPod p) w = (Inr n, w') \<and> sameObjects (view w) (view w'))) \<and>
    (\<forall>key w r w'. k_delete cl PodKind key w = (r, w') \<longrightarrow>
       sameObjects (view w) (view w') \<and> (\<forall>e. r = Inl e \<longrightarrow> \<not> is_panic e)) \<and>
    (\<forall>key w r w'. k_get_secret cl key w = (r, w') \<longrightarrow> view w' = view w \<and> (\<forall>e. r = Inl e \<longrightarrow> \<not> is_panic e))"

text \<open>
  The pods of one resource: there is none for a stage that has not been started, and that of
  a stage in progress is found when it has succeeded.
\<close>

definition podsSucceed :: "'w kube \<Rightarrow> ('w \<Rightarrow> nsname \<Rightarrow> Terraform option) \<Rightarrow> ('w \<Rightarrow> kind \<times> nsname \<Rightarrow> kobj option)
    \<Rightarrow> nsname \<Rightarrow> bool" where
  "podsSucceed cl stored view key \<longleftrightarrow> (\<forall>w tf. stored w key = Some tf \<longrightarrow>
    (\<exists>pods w'. k_list_pods cl (tf_namespace tf) (stagePodName tf)
         (tfLabelPrefix @ ''generation'', itoa (stg_generation (tfStage tf))) w = (Inr pods, w') \<and> view w' = view w \<and>
       (if stg_state (tfStage tf) = StateInProgress
        then \<exists>p rest. podsSince (tfst_retryTimestamp (tf_status tf)) pods = p # rest \<and> pod_phase p = ''Succeeded''
        else podsSince (tfst_retryTimestamp (tf_status tf)) pods = [])))"

section \<open>A resource whose workflow can run\<close>

text \<open>
  Of its spec: no git credentials and no tunnel, a service account made by the controller,
  a module and downloads whose addresses parse, volumes that fit their mounts.
\<close>

definition volumesFit :: "TaskOption list \<Rightarrow> bool" where
  "volumesFit opts \<longleftrightarrow> list_all (\<lambda>opt. set (map vol_name (topt_volumes opt)) \<inter> set prohibitedNames = {} \<and>
    set (map vol_name (topt_volumes opt)) = set (map vm_name (topt_volumeMounts opt))) opts"

definition runnable :: "urllib \<Rightarrow> Terraform \<Rightarrow> bool" where
  "runnable ul tf \<longleftrightarrow> tfs_scmAuthMethods (tf_spec tf) = [] \<and> tfs_sshTunnel (tf_spec tf) = None \<and>
    tfs_serviceAccount (tf_spec tf) = [] \<and> tf_name tf \<noteq> [] \<and>
    (\<forall>r. \<exists>r'. setupModule ul tf r = Inr r') \<and> (\<forall>r. \<exists>r'. addDownloads ul tf r = Inr r') \<and>
    volumesFit (tfs_taskOptions (tf_spec tf))"

lemma runnable_spec:
  assumes "tf_spec tf' = tf_spec tf" and "tf_name tf' = tf_name tf"
  shows "runnable ul tf' = runnable ul tf"
proof -
  have "setupModule ul tf' = setupModule ul tf" "addDownloads ul tf' = addDownloads ul tf"
    by (simp_all add: fun_eq_iff setupModule_def addDownloads_def assms(1))
  then show ?thesis by (simp add: runnable_def assms)
qed

lemma runnable_status [simp]: "runnable ul (tfSetStatus tf st) = runnable ul tf"
  by (rule runnable_spec) (simp_all add: tfSetStatus_def)

definition fits :: "OptionVars \<Rightarrow> bool" where
  "fits v \<longleftrightarrow> set (map vol_name (v_volumes v)) \<inter> set prohibitedNames = {} \<and>
    set (map vol_name (v_volumes v)) = set (map vm_name (v_volumeMounts v))"

lemma collected_volumes:
  assumes "volumesFit opts"
  shows "fits (collectTaskOptions task env opts)"
proof -
  have "fits (foldl (applyTaskOption task) v opts)" if "fits v" for v
    using assms that
  proof (induction opts arbitrary: v)
    case (Cons opt opts)
    have "fits (applyTaskOption task v opt)" using Cons.prems
      by (simp add: fits_def volumesFit_def applyTaskOption_def mergeTaskOption_def scriptTaskOption_def Int_Un_distrib2 image_Un Let_def) metis
    then show ?case using Cons.IH Cons.prems(1) by (simp add: volumesFit_def)
  qed simp
  moreover have "fits (initOptionVars env)" by (simp add: fits_def initOptionVars_def)
  ultimately show ?thesis unfolding collectTaskOptions_def by blast
qed

text \<open>What the objects and the pod of a task depend on, apart from the data they carry.\<close>

definition sameShape :: "TaskOptions \<Rightarrow> TaskOptions \<Rightarrow> bool" where
  "sameShape r r' \<longleftrightarrow> sameNames r r' \<and> o_outputsSecretName r = o_outputsSecretName r' \<and>
    o_volumes r = o_volumes r' \<and> o_volumeMounts r = o_volumeMounts r'"

lemma sameShape_trans: "sameShape a b \<Longrightarrow> sameShape b c \<Longrightarrow> sameShape a c"
  by (simp add: sameShape_def sameNames_def)

lemma sameShape_keys: "sameShape r r' \<Longrightarrow> requiredKeys r' = requiredKeys r"
  by (simp add: sameShape_def sameNames_def requiredKeys_def)

lemma sameShape_pod:
  assumes "sameShape r r'" and "validateVolume r = None"
  shows "validateVolume r' = None"
  using assms unfolding validateVolume_None sameShape_def by (elim conjE) (simp only:)

lemma sameShape_generated: "sameShape r r' \<Longrightarrow> generatedNames r \<Longrightarrow> generatedNames r'"
  by (simp add: sameShape_def sameNames_def generatedNames_def)

lemma putPluginData_shape: "sameShape a b \<Longrightarrow> sameShape a (putPluginData k v b)"
  by (simp add: sameShape_def sameNames_def putPluginData_def)

lemma sameShape_refl [simp]: "sameShape r r"
  by (simp add: sameShape_def sameNames_def)

lemma sameShape_updates [simp]:
  "sameShape r (q\<lparr>o_tfModuleParsed := pa\<rparr>) = sameShape r q" "sameShape r (q\<lparr>o_secretData := sd\<rparr>) = sameShape r q"
  "sameShape r (q\<lparr>o_sidecarPlugins := ps\<rparr>) = sameShape r q"
  by (simp_all add: sameShape_def sameNames_def)

lemma sum_bind_Inr: "sum_bind r f = Inr y \<longleftrightarrow> (\<exists>x. r = Inr x \<and> f x = Inr y)"
  by (cases r) auto

lemma setupModule_shape: "setupModule ul tf r = Inr r' \<Longrightarrow> sameShape r r'"
  by (auto simp: setupModule_def Let_def sum_bind_Inr putPluginData_shape split: if_splits option.splits)

lemma addDownloads_shape: "addDownloads ul tf r = Inr r' \<Longrightarrow> sameShape r r'"
  by (auto simp: addDownloads_def sum_bind_Inr putPluginData_shape)

lemma addInlineScripts_shape: "sameShape r (addInlineScripts opts r)"
proof -
  have inner: "sameShape r (foldl (\<lambda>r affected. if affected = ''*'' then r else putPluginData (f affected) v r) q ts)"
    if "sameShape r q" for f v q ts
    using that by (induction ts arbitrary: q) (auto intro: putPluginData_shape)
  have "sameShape r (addInlineScripts opts q)" if "sameShape r q" for q
    using that unfolding addInlineScripts_def
    by (induction opts arbitrary: q) (auto simp: inner)
  then show ?thesis by simp
qed

lemma setupGeneration_runs:
  assumes "runnable ul tf"
  shows "\<exists>r'. setupGeneration cl ul rc tf r w = (Inr r', w) \<and> sameShape r r'"
proof -
  define r1 where "r1 = addInlineScripts (tfs_taskOptions (tf_spec tf)) (defaultScripts rc r)"
  have "sameShape r (defaultScripts rc r)"
    unfolding defaultScripts_def by (intro putPluginData_shape) simp
  then have s1: "sameShape r r1" unfolding r1_def by (rule sameShape_trans) (rule addInlineScripts_shape)
  have scm: "tfs_scmAuthMethods (tf_spec tf) = []" "tfs_sshTunnel (tf_spec tf) = None"
    using assms by (simp_all add: runnable_def)
  obtain r3 where d: "addDownloads ul tf (r1\<lparr>o_secretData := AList.merge (o_secretData r1) []\<rparr>) = Inr r3"
    using assms unfolding runnable_def by blast
  have "sameShape r (r1\<lparr>o_secretData := AList.merge (o_secretData r1) []\<rparr>)" using s1 by simp
  then have s3: "sameShape r r3" by (rule sameShape_trans) (rule addDownloads_shape [OF d])
  have "formatJobSSHConfig cl tf w = (Inr [], w)" using scm by (simp add: formatJobSSHConfig_def io_bind_def)
  then have "setupGeneration cl ul rc tf r w = (Inr (putPluginData ''backend_override.tf'' (tfs_backend (tf_spec tf)) r3), w)"
    using scm d by (simp add: setupGeneration_def io_bind_def io_try_def io_of_sum_def r1_def)
  then show ?thesis using putPluginData_shape [OF s3] by blast
qed

lemma taskOptions_volumes:
  "o_volumes (taskOptionsOf rc sel tf t g env) = v_volumes (collectTaskOptions t env (tfs_taskOptions (tf_spec tf)))"
  "o_volumeMounts (taskOptionsOf rc sel tf t g env) = v_volumeMounts (collectTaskOptions t env (tfs_taskOptions (tf_spec tf)))"
  unfolding taskOptionsOf_def newTaskOptions_def Let_def by (simp_all split: prod.splits)

lemma taskOptions_valid: "runnable ul tf \<Longrightarrow> validateVolume (taskOptionsOf rc sel tf t g env) = None"
  using collected_volumes unfolding runnable_def validateVolume_None fits_def taskOptions_volumes by blast

lemma pluginOptions_valid: "runnable ul tf \<Longrightarrow> validateVolume (getPluginRunOpts rc sel tf t cfg env) = None"
  by (rule sameShape_pod [OF _ taskOptions_valid])
     (simp_all add: getPluginRunOpts_def sameShape_def sameNames_def)

section \<open>The objects of a generation\<close>

text \<open>What the later stages of a generation look for; it does not depend on the task.\<close>

definition stageKeys :: "reconciler \<Rightarrow> selectors \<Rightarrow> Terraform \<Rightarrow> (kind \<times> nsname) list" where
  "stageKeys rc sel tf = requiredKeys (taskOptionsOf rc sel tf RunSetup 0 [])"

lemma taskOptionsOf_names:
  "o_namespace (taskOptionsOf rc sel tf t g env) = tf_namespace tf"
  "o_prefixedName (taskOptionsOf rc sel tf t g env) = tfst_podNamePrefix (tf_status tf)"
  "o_versionedName (taskOptionsOf rc sel tf t g env) = tfVersionedName tf"
  "o_serviceAccount (taskOptionsOf rc sel tf t g env) =
     (if tfs_serviceAccount (tf_spec tf) = [] then ''tf-'' @ tfVersionedName tf else tfs_serviceAccount (tf_spec tf))"
  by (simp_all add: taskOptionsOf_def newTaskOptions_def Let_def case_prod_beta)

lemma taskOptions_keys: "requiredKeys (taskOptionsOf rc sel tf t g env) = stageKeys rc sel tf"
  by (simp add: stageKeys_def requiredKeys_def taskOptionsOf_names)

lemma taskOptions_generated:
  "tfst_podNamePrefix (tf_status tf) \<noteq> [] \<Longrightarrow> generatedNames (taskOptionsOf rc sel tf t g env)"
  unfolding taskOptionsOf_def by (cases sel) (simp add: newTaskOptions_names)

lemma stageKeys_status:
  "tfst_podNamePrefix st = tfst_podNamePrefix (tf_status tf) \<Longrightarrow> stageKeys rc sel (tfSetStatus tf st) = stageKeys rc sel tf"
  by (simp add: stageKeys_def requiredKeys_def taskOptionsOf_names tfVersionedName_def tfSetStatus_def)

lemma requiredKeys_pods: "x \<in> set (requiredKeys r) \<Longrightarrow> fst x \<noteq> PodKind"
  by (auto simp: requiredKeys_def)

text \<open>The objects \<open>ks\<close> are there.\<close>

definition present :: "(kind \<times> nsname) list \<Rightarrow> (kind \<times> nsname \<Rightarrow> kobj option) \<Rightarrow> bool" where
  "present ks v \<longleftrightarrow> (\<forall>x \<in> set ks. fst x \<noteq> PodKind \<and> v x \<noteq> None)"

lemma present_same: "present ks v \<Longrightarrow> sameObjects v v' \<Longrightarrow> present ks v'"
  unfolding present_def sameObjects_def by (metis surjective_pairing)

lemma present_checked:
  "present (requiredKeys r) v \<Longrightarrow> find (\<lambda>x. v x = None) (requiredKeys r) = None"
  by (simp add: present_def find_None_set)

lemma present_created:
  assumes "objectsInPlace r v"
  shows "present (requiredKeys r) v"
proof -
  have "sameNames r r" by (simp add: sameNames_def)
  from objectsInPlace_found [OF assms this] show ?thesis
    unfolding find_None_set present_def using requiredKeys_pods by blast
qed

lemma sameObjects_refl [simp]: "sameObjects v v"
  by (simp add: sameObjects_def)

section \<open>The steps of a reconciliation\<close>

text \<open>
  The reconciliation of the resource \<open>key\<close> on a healthy cluster, with the selectors \<open>sel\<close> in
  the controller's cache. \<open>keeping ks old s\<close>: \<open>old\<close> is stored and the objects \<open>ks\<close> are there;
  \<open>holding ks old tf\<close>: in addition the reconciliation holds \<open>tf\<close>.
\<close>

locale healthy_cluster =
  fixes cl :: "'w kube" and stored :: "'w \<Rightarrow> nsname \<Rightarrow> Terraform option"
    and view :: "'w \<Rightarrow> kind \<times> nsname \<Rightarrow> kobj option" and key :: nsname and ul :: urllib
  assumes healthy: "healthy cl stored view"
    and succeed: "podsSucceed cl stored view key"
begin

lemma calls:
  "tf_store cl stored" "store_laws cl view"
  "stored w k = Some tf \<Longrightarrow> k_get_tf cl k w = (Inr tf, w)"
  "stored w (tfKey tf) = Some tf \<Longrightarrow>
    \<exists>w'. k_status_update_tf cl (tfSetStatus tf st) w = (Inr (tfSetStatus tf st), w') \<and>
       stored w' = (stored w)(tfKey tf \<mapsto> tfSetStatus tf st) \<and> view w' = view w"
  "stored w (tfKey tf) = Some tf \<Longrightarrow>
    \<exists>w'. k_update_tf cl (tfSetFinalizers tf fs) w = (Inr (tfSetFinalizers tf fs), w') \<and> view w' = view w \<and>
       stored w' = (stored w)(tfKey tf := if fs = [] \<and> tf_deletionTimestamp tf \<noteq> None then None
         else Some (tfSetFinalizers tf fs))"
  "pod_name p = [] \<Longrightarrow> \<exists>n w'. k_create cl ow (KPod p) w = (Inr n, w') \<and> sameObjects (view w) (view w')"
  "k_delete cl PodKind k w = (r, w') \<Longrightarrow> sameObjects (view w) (view w') \<and> (\<forall>e. r = Inl e \<longrightarrow> \<not> is_panic e)"
  "k_get_secret cl k w = (q, w') \<Longrightarrow> view w' = view w \<and> (\<forall>e. q = Inl e \<longrightarrow> \<not> is_panic e)"
proof -
  note h = healthy [unfolded healthy_def]
  show "tf_store cl stored" by (rule h [THEN conjunct1])
  show "store_laws cl view" by (rule h [THEN conjunct2, THEN conjunct1])
  note h = h [THEN conjunct2, THEN conjunct2]
  show "stored w k = Some tf \<Longrightarrow> k_get_tf cl k w = (Inr tf, w)" using h [THEN conjunct1] by blast
  note h = h [THEN conjunct2]
  show "stored w (tfKey tf) = Some tf \<Longrightarrow>
    \<exists>w'. k_status_update_tf cl (tfSetStatus tf st) w = (Inr (tfSetStatus tf st), w') \<and>
       stored w' = (stored w)(tfKey tf \<mapsto> tfSetStatus tf st) \<and> view w' = view w"
    using h [THEN conjunct1] by blast
  note h = h [THEN conjunct2]
  show "stored w (tfKey tf) = Some tf \<Longrightarrow>
    \<exists>w'. k_update_tf cl (tfSetFinalizers tf fs) w = (Inr (tfSetFinalizers tf fs), w') \<and> view w' = view w \<and>
       stored w' = (stored w)(tfKey tf := if fs = [] \<and> tf_deletionTimestamp tf \<noteq> None then None
         else Some (tfSetFinalizers tf fs))"
    using h [THEN conjunct1] by blast
  note h = h [THEN conjunct2]
  show "pod_name p = [] \<Longrightarrow> \<exists>n w'. k_create cl ow (KPod p) w = (Inr n, w') \<and> sameObjects (view w) (view w')"
    using h [THEN conjunct1] by blast
  note h = h [THEN conjunct2]
  show "k_delete cl PodKind k w = (r, w') \<Longrightarrow> sameObjects (view w) (view w') \<and> (\<forall>e. r = Inl e \<longrightarrow> \<not> is_panic e)"
    using h [THEN conjunct1] by blast
  show "k_get_secret cl k w = (q, w') \<Longrightarrow> view w' = view w \<and> (\<forall>e. q = Inl e \<longrightarrow> \<not> is_panic e)"
    using h [THEN conjunct2] by blast
qed

lemma frame: "cluster_frame cl (\<lambda>w. stored w = T)"
  using untouched_frame [OF tf_server.store_calls(1), of cl stored "\<lambda>v. v = T"] tf_server.intro [OF calls(1)] by blast

lemma unstored: "keeps (\<lambda>w. stored w = stored w0) m \<Longrightarrow> m w0 = (r, w') \<Longrightarrow> stored w' = stored w0"
  unfolding keeps_def by (metis snd_conv)

lemma stored_key: "stored w k = Some tf \<Longrightarrow> tfKey tf = k"
  using tf_server.store_calls(2) [OF tf_server.intro [OF calls(1)] calls(3)] by blast

definition keeping :: "(kind \<times> nsname) list \<Rightarrow> Terraform \<Rightarrow> reconciler \<Rightarrow> selectors \<Rightarrow> ('w, Terraform) rstate \<Rightarrow> bool" where
  "keeping ks old rc sel s \<longleftrightarrow> stored (r_cluster s) key = Some old \<and> present ks (view (r_cluster s)) \<and>
    getNodeSelectorsFromCache rc (r_cache s) = Inr sel"

definition holding :: "(kind \<times> nsname) list \<Rightarrow> Terraform \<Rightarrow> reconciler \<Rightarrow> selectors \<Rightarrow> Terraform \<Rightarrow> ('w, Terraform) rstate \<Rightarrow> bool" where
  "holding ks old rc sel tf s \<longleftrightarrow> keeping ks old rc sel s \<and> r_res s = tf"

lemma holding_key: "holding ks old rc sel tf s \<Longrightarrow> tfKey old = key"
  by (auto simp: holding_def keeping_def dest: stored_key)

lemma hold_modify: "brings (holding ks old rc sel tf) (modifyRes f) (\<lambda>_. holding ks old rc sel (f tf))"
  by (auto simp: brings_def holding_def keeping_def)

lemma hold_set: "brings (keeping ks old rc sel) (setRes tf) (\<lambda>_. holding ks old rc sel tf)"
  by (auto simp: brings_def holding_def keeping_def)

lemma hold_spawn: "brings (holding ks old rc sel tf) (spawn g) (\<lambda>_. holding ks old rc sel tf)"
  by (auto simp: brings_def holding_def keeping_def)

text \<open>A call that changes no resource and no object but pods.\<close>

lemma hold_call:
  assumes "\<And>w. keeps (\<lambda>v. stored v = stored w) m"
    and "\<And>w. stored w key = Some old \<Longrightarrow> \<exists>x w'. m w = (Inr x, w') \<and> sameObjects (view w) (view w') \<and> Q x"
  shows "brings (holding ks old rc sel tf) (on_cluster m) (\<lambda>x s. holding ks old rc sel tf s \<and> Q x)"
proof (rule brings_on_cluster)
  fix s assume h: "holding ks old rc sel tf s"
  then have "stored (r_cluster s) key = Some old" by (simp add: holding_def keeping_def)
  then obtain x w' where m: "m (r_cluster s) = (Inr x, w')" "sameObjects (view (r_cluster s)) (view w')" "Q x"
    using assms(2) by blast
  moreover have "stored w' = stored (r_cluster s)" using unstored [OF assms(1) m(1)] .
  ultimately show "\<exists>x w. m (r_cluster s) = (Inr x, w) \<and> holding ks old rc sel tf (s\<lparr>r_cluster := w\<rparr>) \<and> Q x"
    using h present_same by (auto simp: holding_def keeping_def)
qed

text \<open>Writing the status.\<close>

lemma confirmed:
  assumes "tfKey tf = key" and "stored w key = Some tf"
  shows "confirmStatus cl (tfKey tf) (tf_status tf) 10 w = (Inr True, w)"
proof (rule confirm_first)
  show "k_get_tf cl (tfKey tf) w = (Inr tf, w)" using calls(3) assms by simp
qed (simp_all add: statusConfirmed_def StageIsEqual_def)

lemma hold_status:
  assumes "tf = tfSetStatus old (tf_status tf)"
  shows "brings (holding ks old rc sel tf) (\<lambda>s. afterUpdate (updateStatusWithRetry cl al (r_res s) (tf_status (r_res s))) s)
    (\<lambda>_. holding ks tf rc sel tf)"
proof (rule bringsI)
  fix s assume h: "holding ks old rc sel tf s"
  let ?w = "r_cluster s"
  have k: "tfKey old = key" "stored ?w (tfKey old) = Some old"
    using h holding_key [OF h] by (auto simp: holding_def keeping_def)
  then obtain w' where w': "k_status_update_tf cl tf ?w = (Inr tf, w')" "stored w' = (stored ?w)(tfKey old \<mapsto> tf)"
      "view w' = view ?w"
    using calls(4) [OF k(2), of "tf_status tf", unfolded assms [symmetric]] by blast
  have "tfKey (tfSetStatus old (tf_status tf)) = key" using k(1) by (simp add: tfKey_def tfSetStatus_def)
  then have "tfKey tf = key" unfolding assms [symmetric] .
  moreover have "stored w' key = Some tf" using w'(2) k(1) by simp
  ultimately have "confirmStatus cl (tfKey tf) (tf_status tf) 10 w' = (Inr True, w')" by (rule confirmed)
  then have "updateStatusWithRetry cl al tf (tf_status tf) ?w = (Inr (None, tf), w')"
    using w'(1) by (simp add: updateStatusWithRetry_def withResource_def io_try_def io_bind_def Let_def)
  then show "\<exists>x s'. afterUpdate (updateStatusWithRetry cl al (r_res s) (tf_status (r_res s))) s = (Inr x, s') \<and>
      holding ks tf rc sel tf s'"
    using h w'(2,3) k(1) by (simp add: afterUpdate_def holding_def keeping_def)
qed

lemma hold_save:
  "tf = tfSetStatus old (tf_status tf) \<Longrightarrow> brings (holding ks old rc sel tf) (save cl) (\<lambda>_. holding ks tf rc sel tf)"
  unfolding save_def saveStatus_def by (rule hold_status)

lemma hold_saves:
  assumes "tf = tfSetStatus old (tf_status tf)"
  shows "brings (holding ks old rc sel tf) (saveThen cl res) (\<lambda>_. holding ks tf rc sel tf)"
    and "brings (holding ks old rc sel tf) (saveOrFail cl) (\<lambda>_. holding ks tf rc sel tf)"
  unfolding saveThen_def saveOrFail_def
  by (rule brings_try [OF hold_save [OF assms]] brings_bind [OF hold_save [OF assms]]; simp add: brings_return)+

text \<open>The objects and the pod.\<close>

lemma hold_pod:
  assumes "generatePod r = Inr p"
  shows "brings (holding ks old rc sel tf) (on_cluster (createPod cl tf r)) (\<lambda>_. holding ks old rc sel tf)"
proof -
  have n: "pod_name p = []" using assms by (auto simp: generatePod_def split: option.splits prod.splits)
  have "brings (holding ks old rc sel tf) (on_cluster (createPod cl tf r)) (\<lambda>x s. holding ks old rc sel tf s \<and> True)"
  proof (rule hold_call)
    show "keeps (\<lambda>v. stored v = stored w) (createPod cl tf r)" for w
      unfolding createPod_def assms sum.case by (rule cluster_frame.frame_createReported [OF frame])
    fix w
    obtain nm w' where "k_create cl (tfOwner tf) (KPod p) w = (Inr nm, w')" "sameObjects (view w) (view w')"
      using calls(6) [OF n] by blast
    then show "\<exists>x w'. createPod cl tf r w = (Inr x, w') \<and> sameObjects (view w) (view w') \<and> True"
      using calls(2) by (simp add: createPod_def assms createReported_def io_try_def recordCreated_def)
  qed
  then show ?thesis by simp
qed

lemma hold_objects:
  assumes "generatedNames r" and "runnable ul tf" and "first \<or> ks = requiredKeys r"
  shows "brings (holding ks old rc sel tf)
    (on_cluster (if first then createObjects cl rc tf r else checkObjects cl r)) (\<lambda>_. holding (if first then requiredKeys r else ks) old rc sel tf)"
proof (rule brings_on_cluster)
  fix s assume h: "holding ks old rc sel tf s"
  let ?w = "r_cluster s"
  show "\<exists>x w. (if first then createObjects cl rc tf r else checkObjects cl r) ?w = (Inr x, w) \<and>
      holding (if first then requiredKeys r else ks) old rc sel tf (s\<lparr>r_cluster := w\<rparr>)"
  proof (cases first)
    case True
    have "tf_name tf \<noteq> []" "tfs_serviceAccount (tf_spec tf) = []" using assms(2) by (simp_all add: runnable_def)
    then obtain w' where w': "createObjects cl rc tf r ?w = (Inr (), w')" "objectsInPlace r (view w')"
      using createObjects_does [OF calls(2) _ assms(1)] by blast
    have "stored w' = stored ?w"
      by (rule unstored [OF cluster_frame.frame_createObjects [OF frame] w'(1)])
    then show ?thesis using h w' present_created True by (auto simp: holding_def keeping_def)
  next
    case False
    then have "find (\<lambda>x. view ?w x = None) (requiredKeys r) = None"
      using h assms(3) by (intro present_checked) (simp add: holding_def keeping_def)
    then have "checkObjects cl r ?w = (Inr (), ?w)" using checkObjects_store [OF calls(2), of r ?w] by simp
    then show ?thesis using h False by simp
  qed
qed

section \<open>Starting a stage\<close>

text \<open>
  \<open>startable\<close>: the stage is the first of its generation, which creates the objects, or they
  are there already.
\<close>

definition startable :: "(kind \<times> nsname) list \<Rightarrow> reconciler \<Rightarrow> selectors \<Rightarrow> Terraform \<Rightarrow> bool" where
  "startable ks rc sel tf \<longleftrightarrow> tfst_podNamePrefix (tf_status tf) \<noteq> [] \<and> runnable ul tf \<and>
    (generationChanged (stg_reason (tfStage tf)) \<or> firstInstall (stg_reason (tfStage tf)) \<or> ks = stageKeys rc sel tf)"

lemma hold_setupAndRun:
  assumes "startable ks rc sel tf" and "r = (taskOptionsOf rc sel tf t g env)\<lparr>o_sidecarPlugins := sides\<rparr>"
  shows "brings (holding ks tf rc sel tf) (setupAndRun cl ul rc r) (\<lambda>_. holding (stageKeys rc sel tf) tf rc sel tf)"
proof -
  let ?new = "generationChanged (stg_reason (tfStage tf))" and ?first = "firstInstall (stg_reason (tfStage tf))"
  let ?H = "holding ks tf rc sel tf"
  have run: "runnable ul tf" using assms(1) by (simp add: startable_def)
  obtain r1 where r1: "setupModule ul tf r = Inr r1" using run unfolding runnable_def by blast
  define fine where "fine = (\<lambda>q. generatedNames q \<and> requiredKeys q = stageKeys rc sel tf \<and> validateVolume q = None)"
  have sh: "sameShape (taskOptionsOf rc sel tf t g env) r" unfolding assms(2) by simp
  have "tfst_podNamePrefix (tf_status tf) \<noteq> []" using assms(1) by (simp add: startable_def)
  from sameShape_generated [OF sh taskOptions_generated [OF this]]
  have "generatedNames r" "requiredKeys r = stageKeys rc sel tf" "validateVolume r = None"
    using sameShape_keys [OF sh] sameShape_pod [OF sh taskOptions_valid [OF run]]
    by (simp_all only: taskOptions_keys)
  then have shape: "fine q" if "sameShape r q" for q
    using sameShape_generated [OF that] sameShape_keys [OF that] sameShape_pod [OF that] unfolding fine_def by (simp del: validateVolume_None)
  have "updateSecretFinalizer cl tf w = (Inr (), w)" for w
    using run by (simp add: runnable_def updateSecretFinalizer_def getGitSecrets_def lockGitSecrets_def io_for_def)
  then have fin: "brings ?H (on_cluster (updateSecretFinalizer cl tf)) (\<lambda>_. ?H)"
    by (auto intro: brings_on_cluster)
  have secrets: "brings ?H (if b then io_try (on_cluster (updateSecretFinalizer cl tf)) (\<lambda>_. io_return ()) io_return
      else io_return ()) (\<lambda>_. ?H)" for b
    by (cases b) (auto intro: brings_try [OF fin] brings_return)
  have reap: "brings ?H (if b then spawn g else io_return ()) (\<lambda>_. ?H)" for b g
    by (cases b) (auto intro: hold_spawn brings_return)
  have gen: "brings ?H (if b then on_cluster (setupGeneration cl ul rc tf r1) else io_return r1) (\<lambda>q s. ?H s \<and> sameShape r q)" for b
  proof (cases b)
    case True
    have "\<exists>x w'. setupGeneration cl ul rc tf r1 w = (Inr x, w') \<and> ?H (s\<lparr>r_cluster := w'\<rparr>) \<and> sameShape r x"
      if "?H s" "w = r_cluster s" for w s
      using setupGeneration_runs [OF run] that sameShape_trans [OF setupModule_shape [OF r1]] by fastforce
    then show ?thesis using True by (auto intro: brings_on_cluster)
  qed (use setupModule_shape [OF r1] in \<open>auto intro: brings_return\<close>)
  have go: "brings (\<lambda>s. ?H s \<and> sameShape r q) (on_cluster (run cl rc tf q ?new ?first))
      (\<lambda>_. holding (stageKeys rc sel tf) tf rc sel tf)" for q
  proof (cases "sameShape r q")
    case True
    note q = shape [OF True, unfolded fine_def]
    obtain p where p: "generatePod q = Inr p" using generatePod_valid q by blast
    let ?c = "?first \<or> ?new"
    have ks: "?c \<or> ks = requiredKeys q" using assms(1) q by (auto simp: startable_def)
    have o: "brings ?H (on_cluster (if ?c then createObjects cl rc tf q else checkObjects cl q)) (\<lambda>_. holding (stageKeys rc sel tf) tf rc sel tf)"
      using hold_objects [OF _ run ks, where rc = rc and old = tf and sel = sel] q ks by (auto split: if_splits)
    have "on_cluster (run cl rc tf q ?new ?first) s = io_seq [on_cluster (if ?c then createObjects cl rc tf q else checkObjects cl q),
       on_cluster (createPod cl tf q)] s" for s :: "('w, Terraform) rstate"
      by (simp add: run_def on_cluster_def split: prod.splits sum.splits)
    then show ?thesis
      using brings_cong [OF _ brings_Cons [OF o brings_Cons [OF hold_pod [OF p] brings_Nil]]] True by simp
  qed (simp add: brings_def)
  have "brings ?H (io_bind (io_return r1) (\<lambda>r1.
       io_bind (if ?new \<or> ?first then io_try (on_cluster (updateSecretFinalizer cl tf)) (\<lambda>_. io_return ()) io_return
          else io_return ()) (\<lambda>_.
       io_bind (if ?new \<or> ?first then spawn (ReapPlugins (tfOwner tf) (tfKey tf) 0) else io_return ()) (\<lambda>_.
       io_bind (if ?new \<or> ?first then on_cluster (setupGeneration cl ul rc tf r1) else io_return r1) (\<lambda>r2.
       on_cluster (run cl rc tf r2 ?new ?first))))))
     (\<lambda>_. holding (stageKeys rc sel tf) tf rc sel tf)"
    by (rule brings_cong [OF _ brings_bind [OF secrets brings_bind [OF reap brings_bind [OF gen go]]]])
       (simp add: io_bind_def [of "io_return r1"])
  then show ?thesis
    by (rule brings_cong [rotated]) (simp add: setupAndRun_def holding_def Let_def r1 io_of_sum_def)
qed

lemma hold_launch:
  assumes "startable ks rc sel tf" and "r = (taskOptionsOf rc sel tf t g env)\<lparr>o_sidecarPlugins := sides\<rparr>"
    and "started = setStageState StateInProgress (tfSetPhase tf (phaseAfterStart (tfPhase tf)))"
  shows "brings (holding ks tf rc sel tf) (launch cl ul rc r) (\<lambda>_. holding (stageKeys rc sel tf) started rc sel started)"
proof -
  have "started = tfSetStatus tf (tf_status started)" by (simp add: assms(3) setStageState_def tfSet_defs)
  from hold_saves(1) [OF this] show ?thesis
    unfolding launch_def assms(3)
    by (intro brings_bind [OF hold_setupAndRun [OF assms(1,2)] brings_bind [OF hold_modify]])
qed

text \<open>The loops over the plugins never find a pod that cannot be made.\<close>

lemma pluginLoop_completes:
  assumes "runnable ul tf"
  shows "fst (pluginLoop rc sel tf podType env plugins acc)"
proof (induction plugins arbitrary: acc)
  case (Cons p plugins)
  obtain name cfg where p: "p = (name, cfg)" by (cases p)
  obtain pod where "getPluginSidecarPod rc sel tf name cfg env = Inr pod"
    using pluginOptions_valid [OF assms] unfolding getPluginSidecarPod_def by (rule generatePod_valid)
  then show ?case using Cons.IH by (simp add: p)
qed simp

lemma addApproval_works:
  assumes "runnable ul tf"
  shows "addApproval rc sel tf podType env r acc \<noteq> None"
proof -
  obtain pod where "getPluginSidecarPod rc sel tf ''require-approval'' (approvalPlugin r) env = Inr pod"
    using pluginOptions_valid [OF assms] unfolding getPluginSidecarPod_def by (rule generatePod_valid)
  then show ?thesis by (simp add: addApproval_def)
qed

text \<open>A plugin's job is started and noted in the status; \<open>G\<close> does not look at the plugins.\<close>

lemma hold_pluginJob:
  assumes "\<And>tf ps. G tf \<Longrightarrow> G (tfSetPlugins tf ps)"
  shows "brings (\<lambda>s. \<exists>tf. holding ks tf rc sel tf s \<and> G tf) (createPluginJob cl rc env plugin)
    (\<lambda>_ s. \<exists>tf. holding ks tf rc sel tf s \<and> G tf)"
proof (rule bringsI)
  fix s assume "\<exists>tf. holding ks tf rc sel tf s \<and> G tf"
  then obtain tf where h: "holding ks tf rc sel tf s" and g: "G tf" by blast
  define tf' where "tf' = tfSetPlugins tf (tfst_pluginsStarted (tf_status tf) @ [fst plugin])"
  have same: "tf' = tfSetStatus tf (tf_status tf')" by (simp add: tf'_def tfSet_defs)
  have "brings (holding ks tf rc sel tf) (io_seq
     [spawn (CreateJob (tfOwner tf) (getPluginRunOpts rc sel tf (fst plugin) (snd plugin) env)),
      modifyRes (\<lambda>tf. tfSetPlugins tf (tfst_pluginsStarted (tf_status tf) @ [fst plugin])), save cl])
     (\<lambda>_. holding ks tf' rc sel tf')"
    by (rule brings_Cons [OF hold_spawn brings_Cons [OF hold_modify brings_Cons [OF _ brings_Nil]]])
      (use hold_save [OF same] in \<open>simp_all add: tf'_def\<close>)
  then obtain s' where "createPluginJob cl rc env plugin s = (Inr (), s')" "holding ks tf' rc sel tf' s'"
    using h unfolding createPluginJob_def by (auto simp: holding_def keeping_def elim: bringsE)
  moreover have "G tf'" unfolding tf'_def by (rule assms [OF g])
  ultimately show "\<exists>x s'. createPluginJob cl rc env plugin s = (Inr x, s') \<and> (\<exists>tf. holding ks tf rc sel tf s' \<and> G tf)"
    by blast
qed

lemma hold_startStage:
  assumes "startable ks rc sel tf"
    and "\<And>tf ps. G tf \<Longrightarrow> G (tfSetPlugins tf ps)"
    and "G (setStageState StateInProgress (tfSetPhase tf (phaseAfterStart (tfPhase tf))))"
  shows "brings (holding ks tf rc sel tf) (startStage cl ul rc sel env (taskOptionsOf rc sel tf t g env) podType)
    (\<lambda>_ s. \<exists>tf'. holding (stageKeys rc sel tf) tf' rc sel tf' s \<and> G tf')"
proof -
  let ?r = "taskOptionsOf rc sel tf t g env"
  let ?acc0 = "\<lparr>pa_jobs = [], pa_names = [], pa_pods = []\<rparr>"
  have run: "runnable ul tf" using assms(1) by (simp add: startable_def)
  obtain acc where l: "pluginLoop rc sel tf podType env (tfs_plugins (tf_spec tf)) ?acc0 = (True, acc)"
    using pluginLoop_completes [OF run] by (metis prod.collapse)
  obtain acc' where a: "addApproval rc sel tf podType env ?r acc = Some acc'"
    using addApproval_works [OF run] by blast
  have "brings (holding ks tf rc sel tf)
      (withDeferred (map (createPluginJob cl rc env) (pa_jobs acc))
        (launch cl ul rc (?r\<lparr>o_sidecarPlugins := o_sidecarPlugins ?r @ pa_pods acc'\<rparr>)))
      (\<lambda>_ s. \<exists>tf'. holding (stageKeys rc sel tf) tf' rc sel tf' s \<and> G tf')"
  proof (rule brings_withDeferred)
    fix d assume "d \<in> set (map (createPluginJob cl rc env) (pa_jobs acc))"
    then obtain plugin where d: "d = createPluginJob cl rc env plugin" unfolding set_map by blast
    show "brings (\<lambda>s. \<exists>tf'. holding (stageKeys rc sel tf) tf' rc sel tf' s \<and> G tf') d
        (\<lambda>_ s. \<exists>tf'. holding (stageKeys rc sel tf) tf' rc sel tf' s \<and> G tf')"
      unfolding d by (rule hold_pluginJob) (rule assms(2))
  next
    show "brings (holding ks tf rc sel tf) (launch cl ul rc (?r\<lparr>o_sidecarPlugins := o_sidecarPlugins ?r @ pa_pods acc'\<rparr>))
      (\<lambda>_ s. \<exists>tf'. holding (stageKeys rc sel tf) tf' rc sel tf' s \<and> G tf')"
      by (rule brings_post [OF hold_launch [OF assms(1) refl refl]]) (intro exI conjI, assumption, rule assms(3))
  qed
  then show ?thesis
    by (rule brings_cong [rotated]) (simp add: startStage_def holding_def Let_def l a)
qed

section \<open>Following its pod and moving on\<close>

lemma hold_followPod:
  assumes "pod_phase pod = ''Succeeded''"
  shows "brings (holding ks tf rc sel tf) (followPod cl pod)
    (\<lambda>_ s. \<exists>now tf'. holding ks tf' rc sel tf' s \<and> tf' = stopStage StateComplete now (observePod pod tf))"
proof (rule bringsI)
  fix s assume h: "holding ks tf rc sel tf s"
  define tf' where "tf' = stopStage StateComplete (k_now cl (r_cluster s)) (observePod pod tf)"
  have same: "tf' = tfSetStatus tf (tf_status tf')" by (simp add: tf'_def stopStage_def observePod_def tfSet_defs)
  let ?H = "\<lambda>_. holding ks tf' rc sel tf'"
  have del: "brings (?H ()) (\<lambda>s'. (if \<not> tfs_keepCompletedPods (tf_spec (r_res s')) \<and> \<not> tfs_keepLatestPodsOnly (tf_spec (r_res s'))
      then io_try (on_cluster (k_delete cl PodKind (pod_namespace pod, pod_name pod))) (\<lambda>_. io_return Done) (\<lambda>_. io_return Done)
      else io_return Done) s') ?H"
  proof (rule bringsI)
    fix t assume t: "holding ks tf' rc sel tf' t"
    have "holding ks tf' rc sel tf' u \<and> (\<forall>e. r = Inl e \<longrightarrow> \<not> is_panic e)"
      if hv: "holding ks tf' rc sel tf' v" and dv: "on_cluster (k_delete cl PodKind pk) v = (r, u)" for v r u pk
    proof -
      obtain w where w: "k_delete cl PodKind pk (r_cluster v) = (r, w)" "u = v\<lparr>r_cluster := w\<rparr>"
        using dv by (auto simp: on_cluster_def split: prod.splits)
      have "stored w = stored (r_cluster v)" by (rule unstored [OF cluster_frame.frame_delete [OF frame] w(1)])
      then show ?thesis using hv w(2) calls(7) [OF w(1)] present_same by (auto simp: holding_def keeping_def)
    qed
    then have "brings (?H ()) (io_try (on_cluster (k_delete cl PodKind (pod_namespace pod, pod_name pod)))
        (\<lambda>_. io_return Done) (\<lambda>_. io_return Done)) ?H"
      by (rule brings_try_any) (auto intro: brings_return)
    then show "\<exists>x s'. (if \<not> tfs_keepCompletedPods (tf_spec (r_res t)) \<and> \<not> tfs_keepLatestPodsOnly (tf_spec (r_res t))
      then io_try (on_cluster (k_delete cl PodKind (pod_namespace pod, pod_name pod))) (\<lambda>_. io_return Done) (\<lambda>_. io_return Done)
      else io_return Done) t = (Inr x, s') \<and> holding ks tf' rc sel tf' s'"
      using t by (auto elim: bringsE)
  qed
  have "brings (holding ks tf rc sel (observePod pod tf)) (io_bind (modifyRes (stopStage StateComplete (k_now cl (r_cluster s))))
      (\<lambda>_. io_bind (save cl) (\<lambda>_ s'. (if \<not> tfs_keepCompletedPods (tf_spec (r_res s')) \<and> \<not> tfs_keepLatestPodsOnly (tf_spec (r_res s'))
      then io_try (on_cluster (k_delete cl PodKind (pod_namespace pod, pod_name pod))) (\<lambda>_. io_return Done) (\<lambda>_. io_return Done)
      else io_return Done) s'))) ?H"
    using hold_save [OF same] unfolding tf'_def by (intro brings_bind [OF hold_modify brings_bind [OF _ del [unfolded tf'_def]]])
  moreover have "holding ks tf rc sel (observePod pod tf) (s\<lparr>r_res := observePod pod tf\<rparr>)"
    using h by (simp add: holding_def keeping_def)
  ultimately obtain x s' where
    "io_bind (modifyRes (stopStage StateComplete (k_now cl (r_cluster s))))
      (\<lambda>_. io_bind (save cl) (\<lambda>_ s'. (if \<not> tfs_keepCompletedPods (tf_spec (r_res s')) \<and> \<not> tfs_keepLatestPodsOnly (tf_spec (r_res s'))
      then io_try (on_cluster (k_delete cl PodKind (pod_namespace pod, pod_name pod))) (\<lambda>_. io_return Done) (\<lambda>_. io_return Done)
      else io_return Done) s')) (s\<lparr>r_res := observePod pod tf\<rparr>) = (Inr x, s')" "?H x s'"
    by (rule bringsE)
  then have "followPod cl pod s = (Inr x, s')"
    using h assms by (simp add: followPod_def io_bind_def [of "modifyRes (observePod pod)"] holding_def)
  then show "\<exists>x s'. followPod cl pod s = (Inr x, s') \<and>
      (\<exists>now tf'. holding ks tf' rc sel tf' s' \<and> tf' = stopStage StateComplete now (observePod pod tf))"
    using \<open>?H x s'\<close> unfolding tf'_def by blast
qed

lemma hold_moveStage:
  assumes "\<not> isRestart (stg_reason st)" and "tf = tfSetStatus old (tf_status tf)"
  shows "brings (holding ks old rc sel tf) (moveStage cl st) (\<lambda>_. holding ks (tfSetStage tf st) rc sel (tfSetStage tf st))"
proof -
  have same: "tfSetStage tf st = tfSetStatus old (tf_status (tfSetStage tf st))"
    by (subst assms(2)) (simp add: tfSet_defs)
  let ?H = "\<lambda>_. holding ks (tfSetStage tf st) rc sel (tfSetStage tf st)"
  have "brings (holding ks old rc sel (tfSetStage tf st)) (io_try (\<lambda>s. afterUpdate (updateStatusWithRetry cl False (r_res s) (tf_status (r_res s))) s)
      (\<lambda>_. io_return ()) io_return) ?H"
    by (rule brings_try [OF hold_status [OF same]]) (auto intro: brings_return)
  then have up: "brings (holding ks old rc sel (tfSetStage tf st)) (\<lambda>s. io_try (afterUpdate (updateStatusWithRetry cl False (r_res s) (tf_status (r_res s))))
               (\<lambda>_. io_return ()) io_return s) ?H"
    by (simp add: io_try_def)
  have reap: "brings (?H ()) (\<lambda>s. (if tfs_keepLatestPodsOnly (tf_spec (r_res s))
       then io_bind (spawn (ReapOldGenerationPods (tfOwner (r_res s)) (tfKey (r_res s)) 0)) (\<lambda>_. io_return Done)
       else io_return Done) s) ?H"
    by (auto simp: brings_def io_bind_def holding_def keeping_def)
  have "brings (holding ks old rc sel tf) (io_bind (io_return ()) (\<lambda>_. io_bind (modifyRes (\<lambda>tf. tfSetStage tf st)) (\<lambda>_.
    io_bind (\<lambda>s. io_try (afterUpdate (updateStatusWithRetry cl False (r_res s) (tf_status (r_res s))))
               (\<lambda>_. io_return ()) io_return s) (\<lambda>_.
    (\<lambda>s. (if tfs_keepLatestPodsOnly (tf_spec (r_res s))
       then io_bind (spawn (ReapOldGenerationPods (tfOwner (r_res s)) (tfKey (r_res s)) 0)) (\<lambda>_. io_return Done)
       else io_return Done) s))))) ?H"
    by (rule brings_bind [OF brings_return], assumption,
        rule brings_bind [OF hold_modify], rule brings_bind [OF up], rule reap)
  then show ?thesis by (rule brings_cong [rotated]) (simp add: moveStage_def assms(1) io_bind_def)
qed

end

end
