(* ===== verification/TfLive.thy ===== *)
theory TfLive
  imports TfHealthy
begin

text \<open>
  That a workflow gets to its end. On a healthy cluster on which every pod that is started
  succeeds, \<open>reconcile\<close> takes a resource, called again and again, through exactly the tasks
  of its schedule to the phase \<open>completed\<close> (or \<open>deleted\<close>): three calls for each task
  (start the pod, see it succeed, move on) and one to finish.
\<close>

section \<open>A resource between two calls\<close>

text \<open>No label asks for a retry that has not been made.\<close>

definition retrySettled :: "Terraform \<Rightarrow> bool" where
  "retrySettled tf \<longleftrightarrow> map_of (tf_labels tf) changeCause \<in> {None, tfst_retryEventReason (tf_status tf)}"

lemma settled_retry: "retrySettled tf \<Longrightarrow> markRetry now tf = (False, tf)"
  by (auto simp: retrySettled_def markRetry_def split: option.splits)

text \<open>The phases before the first pod of a workflow, while it runs, and after it.\<close>

definition firstPhase :: "bool \<Rightarrow> StatusPhase" where
  "firstPhase del = (if del then PhaseInitDelete else PhaseInitializing)"

definition runPhase :: "bool \<Rightarrow> StatusPhase" where
  "runPhase del = (if del then PhaseDeleting else PhaseRunning)"

definition lastPhase :: "bool \<Rightarrow> StatusPhase" where
  "lastPhase del = (if del then PhaseDeleted else PhaseCompleted)"

lemmas phase_defs = firstPhase_def runPhase_def lastPhase_def

text \<open>
  \<open>underway del tf\<close>: nothing but its stages is left to do for \<open>tf\<close>. Its name prefix is chosen,
  its finalizer is settled, its stage is of its own generation, and it is in the workflow
  that \<open>del\<close> says.
\<close>

definition underway :: "bool \<Rightarrow> Terraform \<Rightarrow> bool" where
  "underway del tf \<longleftrightarrow> tfst_podNamePrefix (tf_status tf) \<noteq> [] \<and> tf_generation tf \<noteq> 0 \<and>
    stg_generation (tfStage tf) = tf_generation tf \<and>
    (tfFinalizer \<in> set (tf_finalizers tf) \<longleftrightarrow> \<not> tfs_ignoreDelete (tf_spec tf)) \<and>
    retrySettled tf \<and> (tf_deletionTimestamp tf \<noteq> None \<longrightarrow> del) \<and> tfPhase tf \<in> {firstPhase del, runPhase del}"

lemma underway_marks:
  assumes "underway del tf"
  shows "tfPhase tf \<noteq> PhaseDeleted" and "updateFinalizer tf = Some (False, tf)"
    and "markDeletion tf = tf" and "markRetry now tf = (False, tf)"
  using assms settled_retry
  by (auto simp: underway_def phase_defs updateFinalizer_def markDeletion_def Let_def split: if_splits)

text \<open>What becomes of \<open>tf0\<close> in its workflow: the status changes, but not what \<open>underway\<close> asks for.\<close>

definition follows :: "Terraform \<Rightarrow> Terraform \<Rightarrow> bool" where
  "follows tf0 tf \<longleftrightarrow> tf = tfSetStatus tf0 (tf_status tf) \<and>
    tfst_podNamePrefix (tf_status tf) = tfst_podNamePrefix (tf_status tf0) \<and>
    tfst_retryEventReason (tf_status tf) = tfst_retryEventReason (tf_status tf0) \<and>
    stg_generation (tfStage tf) = stg_generation (tfStage tf0)"

lemma follows_fields:
  assumes "follows tf0 tf"
  shows "tf_spec tf = tf_spec tf0" "tf_generation tf = tf_generation tf0" "tf_labels tf = tf_labels tf0"
    "tf_finalizers tf = tf_finalizers tf0" "tf_deletionTimestamp tf = tf_deletionTimestamp tf0"
    "runnable ul tf = runnable ul tf0" "stageKeys rc sel tf = stageKeys rc sel tf0"
proof -
  have e: "tf = tfSetStatus tf0 (tf_status tf)" using assms unfolding follows_def by blast
  show "tf_spec tf = tf_spec tf0" by (subst e) (simp add: tfSetStatus_def)
  show "tf_generation tf = tf_generation tf0" by (subst e) (simp add: tfSetStatus_def)
  show "tf_labels tf = tf_labels tf0" by (subst e) (simp add: tfSetStatus_def)
  show "tf_finalizers tf = tf_finalizers tf0" by (subst e) (simp add: tfSetStatus_def)
  show "tf_deletionTimestamp tf = tf_deletionTimestamp tf0" by (subst e) (simp add: tfSetStatus_def)
  show "runnable ul tf = runnable ul tf0" by (subst e) simp
  show "stageKeys rc sel tf = stageKeys rc sel tf0"
    by (subst e) (rule stageKeys_status, use assms in \<open>simp add: follows_def\<close>)
qed

lemma tfSetStatus_same: "tf = tfSetStatus tf (tf_status tf)"
  by (simp add: tfSetStatus_def)

lemma tfSetStatus_twice: "tfSetStatus (tfSetStatus tf st) st' = tfSetStatus tf st'"
  by (simp add: tfSetStatus_def)

lemma follows_refl: "follows tf tf"
  by (simp add: follows_def tfSetStatus_def)

lemma follows_status:
  assumes "follows tf0 tf" and "tf' = tfSetStatus tf st"
    and "tfst_podNamePrefix st = tfst_podNamePrefix (tf_status tf)"
    and "tfst_retryEventReason st = tfst_retryEventReason (tf_status tf)"
    and "stg_generation (tfst_stage st) = stg_generation (tfStage tf)"
  shows "follows tf0 tf'"
proof -
  have e: "tf = tfSetStatus tf0 (tf_status tf)" using assms(1) unfolding follows_def by blast
  have "tf' = tfSetStatus tf0 (tf_status tf')" unfolding assms(2) by (subst e) (simp add: tfSetStatus_def)
  then show ?thesis using assms by (simp add: follows_def) (simp add: tfSetStatus_def)
qed

lemma follows_underway:
  assumes "follows tf0 tf" and "underway del tf0" and "tfPhase tf \<in> {firstPhase del, runPhase del}"
  shows "underway del tf"
proof -
  have "tfst_podNamePrefix (tf_status tf) = tfst_podNamePrefix (tf_status tf0)"
    "tfst_retryEventReason (tf_status tf) = tfst_retryEventReason (tf_status tf0)"
    "stg_generation (tfStage tf) = stg_generation (tfStage tf0)" using assms(1) unfolding follows_def by blast+
  then show ?thesis using assms(2,3) follows_fields(1-5) [OF assms(1)]
    by (auto simp: underway_def retrySettled_def split: option.splits)
qed

text \<open>The stage and the phase of \<open>tf\<close>.\<close>

definition stands :: "TaskName \<Rightarrow> StageState \<Rightarrow> StatusPhase \<Rightarrow> Terraform \<Rightarrow> bool" where
  "stands t st ph tf \<longleftrightarrow> stg_taskType (tfStage tf) = t \<and> stg_state (tfStage tf) = st \<and> tfPhase tf = ph"

text \<open>The first and the last calls see a resource in other states.\<close>

text \<open>
  \<open>fresh\<close>: a user has created the resource and the controller has not seen it.
\<close>

definition fresh :: "Terraform \<Rightarrow> bool" where
  "fresh tf \<longleftrightarrow> tfst_podNamePrefix (tf_status tf) = [] \<and> stg_generation (tfStage tf) = 0 \<and> tf_generation tf \<noteq> 0 \<and>
    tfPhase tf \<noteq> PhaseDeleted \<and> tf_deletionTimestamp tf = None \<and> retrySettled tf \<and>
    tfFinalizer \<notin> set (tf_finalizers tf)"

definition settlingCalls :: "Terraform \<Rightarrow> nat" where
  "settlingCalls tf = (if tfs_ignoreDelete (tf_spec tf) then 2 else 3)"

text \<open>The finalizer is settled: the next two calls choose the name prefix and the first stage.\<close>

definition settled :: "Terraform \<Rightarrow> bool" where
  "settled tf \<longleftrightarrow> tf_generation tf \<noteq> 0 \<and> tfPhase tf \<noteq> PhaseDeleted \<and> tf_deletionTimestamp tf = None \<and> retrySettled tf \<and>
    (tfFinalizer \<in> set (tf_finalizers tf) \<longleftrightarrow> \<not> tfs_ignoreDelete (tf_spec tf)) \<and> stg_generation (tfStage tf) = 0"

lemma settled_finalizer: "settled tf \<Longrightarrow> updateFinalizer tf = Some (False, tf)"
  by (auto simp: settled_def updateFinalizer_def Let_def)

text \<open>
  \<open>doomed\<close>: a user has deleted the resource, which stays while it has the controller's
  finalizer; its stage may be interrupted.
\<close>

definition doomed :: "Terraform \<Rightarrow> bool" where
  "doomed tf \<longleftrightarrow> tf_deletionTimestamp tf \<noteq> None \<and> \<not> tfDeleting tf \<and> \<not> tfs_ignoreDelete (tf_spec tf) \<and>
    count_list (tf_finalizers tf) tfFinalizer = 1 \<and> tfst_podNamePrefix (tf_status tf) \<noteq> [] \<and>
    tf_generation tf \<noteq> 0 \<and> stg_generation (tfStage tf) \<notin> {0, tf_generation tf} \<and> retrySettled tf \<and>
    \<not> (stg_interruptible (tfStage tf) = CanNotBeInterrupt \<and> stg_state (tfStage tf) = StateInProgress)"

section \<open>One call\<close>

context healthy_cluster begin

text \<open>A call gets past the marks and the finalizer to the stage of the stored resource.\<close>

lemma enter:
  assumes "keeping ks tf rc sel s" and "underway del tf"
    and "checkSetNewStage cl False tf (r_cluster s) = (Inr (so, tf), r_cluster s)"
  shows "reconcileLocked cl ul rc rnd key s =
    (case so of Some st \<Rightarrow> moveStage cl st | None \<Rightarrow> handleStage cl ul rc) (s\<lparr>r_res := tf\<rparr>)"
proof -
  note u = underway_marks [OF assms(2)]
  have n: "tfst_podNamePrefix (tf_status tf) \<noteq> []" "stg_generation (tfStage tf) \<noteq> 0"
    using assms(2) by (auto simp: underway_def)
  have "stored (r_cluster s) key = Some tf" using assms(1) by (simp add: keeping_def)
  then have g: "getTfResource cl key 3 (r_cluster s) = (Inr tf, r_cluster s)"
    unfolding getTfResource_def by (intro getRetry_success calls(3)) simp_all
  have "reconcileStage cl ul rc (s\<lparr>r_res := tf\<rparr>) =
      (case so of Some st \<Rightarrow> moveStage cl st | None \<Rightarrow> handleStage cl ul rc) (s\<lparr>r_res := tf\<rparr>)"
    using assms(3) by (simp add: reconcileStage_def io_bind_def u on_cluster_def)
  then show ?thesis
    using g u(1,2) n by (simp add: reconcileLocked_def io_try_def on_cluster_def io_bind_def [of "setRes tf"])
qed

text \<open>While a stage is neither complete nor failed, it stays.\<close>

lemma stage_stays:
  assumes "underway del tf" and "stg_state (tfStage tf) \<in> {StateInitializing, StateInProgress}"
  shows "checkSetNewStage cl False tf w = (Inr (None, tf), w)"
proof -
  have "stg_generation (tfStage tf) = tf_generation tf" using assms(1) by (simp add: underway_def)
  moreover have "stg_state (tfStage tf) \<noteq> StateComplete" "stg_state (tfStage tf) \<noteq> StateFailed" using assms(2) by auto
  ultimately show ?thesis unfolding checkSetNewStage_def Let_def by simp
qed

lemma work:
  assumes "keeping ks tf rc sel s" and "underway del tf"
    and "stg_state (tfStage tf) \<in> {StateInitializing, StateInProgress}" and "stg_taskType (tfStage tf) \<noteq> RunNil"
    and "\<And>pod. stg_state (tfStage tf) = StateInProgress \<Longrightarrow> pod_phase pod = ''Succeeded'' \<Longrightarrow>
      brings (holding ks tf rc sel tf) (followPod cl pod) (\<lambda>_. R)"
    and "\<And>env g. stg_state (tfStage tf) = StateInitializing \<Longrightarrow> brings (holding ks tf rc sel tf)
      (startStage cl ul rc sel env (taskOptionsOf rc sel tf (stg_taskType (tfStage tf)) g env) (stg_taskType (tfStage tf))) (\<lambda>_. R)"
  shows "\<exists>x s'. reconcileLocked cl ul rc rnd key s = (Inr x, s') \<and> R s'"
proof -
  let ?st = "stg_state (tfStage tf)" and ?since = "podsSince (tfst_retryTimestamp (tf_status tf))"
  let ?env = "listEnvFromSources rc tf"
  let ?r = "taskOptionsOf rc sel tf (stg_taskType (tfStage tf)) (stg_generation (tfStage tf)) ?env"
  define ok where "ok = (\<lambda>pods. if ?st = StateInProgress then \<exists>p rest. ?since pods = p # rest \<and> pod_phase p = ''Succeeded''
      else ?since pods = [])"
  have list: "brings (holding ks tf rc sel tf) (on_cluster (k_list_pods cl (tf_namespace tf) (stagePodName tf)
        (tfLabelPrefix @ ''generation'', itoa (stg_generation (tfStage tf))))) (\<lambda>pods s. holding ks tf rc sel tf s \<and> ok pods)"
  proof (rule hold_call)
    fix w show "keeps (\<lambda>v. stored v = stored w) (k_list_pods cl (tf_namespace tf) (stagePodName tf)
        (tfLabelPrefix @ ''generation'', itoa (stg_generation (tfStage tf))))"
      by (rule cluster_frame.frame_list_pods [OF frame])
    assume "stored w key = Some tf"
    then obtain pods w' where "k_list_pods cl (tf_namespace tf) (stagePodName tf)
        (tfLabelPrefix @ ''generation'', itoa (stg_generation (tfStage tf))) w = (Inr pods, w')" "view w' = view w" "ok pods"
      using succeed unfolding podsSucceed_def ok_def by blast
    then show "\<exists>x w'. k_list_pods cl (tf_namespace tf) (stagePodName tf)
        (tfLabelPrefix @ ''generation'', itoa (stg_generation (tfStage tf))) w = (Inr x, w') \<and>
        sameObjects (view w) (view w') \<and> ok x" by auto
  qed
  have each: "brings (\<lambda>s. holding ks tf rc sel tf s \<and> ok pods) (case ?since pods of
      [] \<Rightarrow> (if ?st = StateInProgress then io_bind (modifyRes (setStageState StateInitializing)) (\<lambda>_. saveThen cl Requeue)
             else startStage cl ul rc sel ?env ?r (stg_taskType (tfStage tf)))
    | pod # _ \<Rightarrow> followPod cl pod) (\<lambda>_. R)" for pods
  proof (rule brings_pure)
    assume "ok pods"
    then show "brings (holding ks tf rc sel tf) (case ?since pods of
      [] \<Rightarrow> (if ?st = StateInProgress then io_bind (modifyRes (setStageState StateInitializing)) (\<lambda>_. saveThen cl Requeue)
             else startStage cl ul rc sel ?env ?r (stg_taskType (tfStage tf)))
    | pod # _ \<Rightarrow> followPod cl pod) (\<lambda>_. R)"
      using assms(3,5,6) by (auto simp: ok_def split: if_splits)
  qed
  define t where "t = s\<lparr>r_res := tf\<rparr>"
  have t: "r_res t = tf" "r_cache t = r_cache s" by (simp_all add: t_def)
  have "holding ks tf rc sel tf t" using assms(1) by (simp add: t_def holding_def keeping_def)
  then obtain x s' where r: "io_try (on_cluster (k_list_pods cl (tf_namespace tf) (stagePodName tf)
        (tfLabelPrefix @ ''generation'', itoa (stg_generation (tfStage tf))))) (\<lambda>_. io_return Done) (\<lambda>pods. case ?since pods of
      [] \<Rightarrow> (if ?st = StateInProgress then io_bind (modifyRes (setStageState StateInitializing)) (\<lambda>_. saveThen cl Requeue)
             else startStage cl ul rc sel ?env ?r (stg_taskType (tfStage tf)))
    | pod # _ \<Rightarrow> followPod cl pod) t = (Inr x, s')" "R s'"
    by (rule bringsE [OF brings_try [OF list each]])
  have "workOnStage cl ul rc sel ?env ?r t = (Inr x, s')" unfolding workOnStage_def Let_def t by (rule r)
  moreover have "reconcileLocked cl ul rc rnd key s = handleStage cl ul rc t"
    using enter [OF assms(1,2) stage_stays [OF assms(2,3)]] by (simp add: t_def)
  moreover have "getNodeSelectorsFromCache rc (r_cache s) = Inr sel" using assms(1) by (simp add: keeping_def)
  ultimately show ?thesis using assms(4) t \<open>R s'\<close> by (simp add: handleStage_def Let_def)
qed

text \<open>
  Between two calls: what is stored follows \<open>tf0\<close>, can be started, and stands at a task, a
  state and a phase; once a task has been started, the objects of the generation are there.
\<close>

definition between :: "reconciler \<Rightarrow> selectors \<Rightarrow> Terraform \<Rightarrow> TaskName \<Rightarrow> StageState \<Rightarrow> StatusPhase
    \<Rightarrow> ('w, Terraform) rstate \<Rightarrow> bool" where
  "between rc sel tf0 t st ph s \<longleftrightarrow> (\<exists>ks tf. keeping ks tf rc sel s \<and> follows tf0 tf \<and> stands t st ph tf \<and>
     startable ks rc sel tf \<and> (st \<noteq> StateInitializing \<longrightarrow> ks = stageKeys rc sel tf))"

lemma betweenI:
  "holding ks tf rc sel tf s \<Longrightarrow> follows tf0 tf \<Longrightarrow> stands t st ph tf \<Longrightarrow> startable ks rc sel tf \<Longrightarrow>
    (st \<noteq> StateInitializing \<Longrightarrow> ks = stageKeys rc sel tf) \<Longrightarrow> between rc sel tf0 t st ph s"
  by (auto simp: between_def holding_def)

lemma between_stored:
  "between rc sel tf0 t st ph s \<Longrightarrow> \<exists>tf. stored (r_cluster s) key = Some tf \<and> stands t st ph tf"
  by (auto simp: between_def keeping_def)

lemma later_startable:
  "startable ks rc sel tf \<Longrightarrow> follows tf tf' \<Longrightarrow> startable (stageKeys rc sel tf) rc sel tf'"
  using follows_fields(6,7) [of tf tf'] by (simp add: startable_def follows_def)

text \<open>First call for a task: its pod is started.\<close>

lemma call_starts:
  assumes "underway del tf0" and "t \<noteq> RunNil" and "ph \<in> {firstPhase del, runPhase del}"
  shows "brings (between rc sel tf0 t StateInitializing ph) (reconcileLocked cl ul rc rnd key)
    (\<lambda>_. between rc sel tf0 t StateInProgress (runPhase del))"
proof (rule bringsI)
  fix s assume "between rc sel tf0 t StateInitializing ph s"
  then obtain ks tf where k: "keeping ks tf rc sel s" and f: "follows tf0 tf" and at: "stands t StateInitializing ph tf"
    and st: "startable ks rc sel tf" by (auto simp: between_def)
  have u: "underway del tf" by (rule follows_underway [OF f assms(1)]) (use at assms(3) in \<open>simp add: stands_def\<close>)
  define G where "G = (\<lambda>tf'. follows tf0 tf' \<and> follows tf tf' \<and> stands t StateInProgress (runPhase del) tf')"
  have plug: "G (tfSetPlugins tf' ps)" if "G tf'" for tf' ps
  proof -
    have e: "tfSetPlugins tf' ps = tfSetStatus tf' ((tf_status tf')\<lparr>tfst_pluginsStarted := ps\<rparr>)" by (simp add: tfSet_defs)
    have "follows x (tfSetPlugins tf' ps)" if "follows x tf'" for x by (rule follows_status [OF that e]) simp_all
    then show ?thesis using that by (auto simp: G_def stands_def tfSetPlugins_def)
  qed
  let ?started = "setStageState StateInProgress (tfSetPhase tf (phaseAfterStart (tfPhase tf)))"
  have G0: "G ?started"
  proof -
    have e: "?started = tfSetStatus tf (tf_status ?started)" by (simp add: setStageState_def tfSet_defs)
    have "follows x ?started" if "follows x tf" for x
      by (rule follows_status [OF that e]) (simp_all add: setStageState_def tfSet_defs)
    then show ?thesis using f follows_refl at assms(3)
      by (auto simp: G_def stands_def setStageState_def tfSet_defs phaseAfterStart_def phase_defs split: if_splits)
  qed
  have "\<exists>x s'. reconcileLocked cl ul rc rnd key s = (Inr x, s') \<and>
     (\<exists>tf'. holding (stageKeys rc sel tf) tf' rc sel tf' s' \<and> G tf')"
    by (rule work [OF k u]) (use at assms(2) hold_startStage [OF st plug G0] in \<open>auto simp: stands_def\<close>)
  then show "\<exists>x s'. reconcileLocked cl ul rc rnd key s = (Inr x, s') \<and>
      between rc sel tf0 t StateInProgress (runPhase del) s'"
  proof (elim exE conjE)
    fix x s' tf' assume r: "reconcileLocked cl ul rc rnd key s = (Inr x, s')"
      and h: "holding (stageKeys rc sel tf) tf' rc sel tf' s'" and "G tf'"
    then have "follows tf0 tf'" "follows tf tf'" "stands t StateInProgress (runPhase del) tf'" by (simp_all add: G_def)
    then have "between rc sel tf0 t StateInProgress (runPhase del) s'"
      using later_startable [OF st] follows_fields(7) [of tf tf'] by (intro betweenI [OF h]) simp_all
    then show ?thesis using r by blast
  qed
qed

text \<open>Second call: its pod is found to have succeeded.\<close>

lemma call_follows:
  assumes "underway del tf0" and "t \<noteq> RunNil"
  shows "brings (between rc sel tf0 t StateInProgress (runPhase del)) (reconcileLocked cl ul rc rnd key)
    (\<lambda>_. between rc sel tf0 t StateComplete (runPhase del))"
proof (rule bringsI)
  fix s assume "between rc sel tf0 t StateInProgress (runPhase del) s"
  then obtain ks tf where k: "keeping ks tf rc sel s" and f: "follows tf0 tf" and at: "stands t StateInProgress (runPhase del) tf"
    and st: "startable ks rc sel tf" "ks = stageKeys rc sel tf" by (auto simp: between_def)
  have u: "underway del tf" by (rule follows_underway [OF f assms(1)]) (use at in \<open>simp add: stands_def\<close>)
  have after: "follows tf0 (stopStage StateComplete now (observePod pod tf)) \<and>
      stands t StateComplete (runPhase del) (stopStage StateComplete now (observePod pod tf)) \<and>
      startable ks rc sel (stopStage StateComplete now (observePod pod tf)) \<and>
      ks = stageKeys rc sel (stopStage StateComplete now (observePod pod tf))" for now pod
  proof -
    let ?tf = "stopStage StateComplete now (observePod pod tf)"
    have e: "?tf = tfSetStatus tf (tf_status ?tf)" by (simp add: stopStage_def observePod_def tfSet_defs)
    have "follows x ?tf" if "follows x tf" for x
      by (rule follows_status [OF that e]) (simp_all add: stopStage_def observePod_def tfSet_defs)
    then show ?thesis using f at st follows_fields(6,7) [of tf ?tf] follows_refl [of tf]
      by (auto simp: stands_def startable_def stopStage_def observePod_def tfSet_defs)
  qed
  have "\<exists>x s'. reconcileLocked cl ul rc rnd key s = (Inr x, s') \<and>
     (\<exists>now pod tf'. holding ks tf' rc sel tf' s' \<and> tf' = stopStage StateComplete now (observePod pod tf))"
  proof (rule work [OF k u])
    fix pod :: Pod assume p: "pod_phase pod = ''Succeeded''"
    show "brings (holding ks tf rc sel tf) (followPod cl pod)
        (\<lambda>_ s'. \<exists>now pod tf'. holding ks tf' rc sel tf' s' \<and> tf' = stopStage StateComplete now (observePod pod tf))"
      by (rule brings_post [OF hold_followPod [OF p]]) blast
  qed (use at assms(2) in \<open>auto simp: stands_def\<close>)
  then show "\<exists>x s'. reconcileLocked cl ul rc rnd key s = (Inr x, s') \<and>
      between rc sel tf0 t StateComplete (runPhase del) s'"
    using after betweenI by blast
qed

text \<open>Third call: the next configured task.\<close>

lemma call_moves:
  assumes "underway del tf0" and "t \<noteq> RunNil"
    and "u = nextTask t (getConfiguredTasks (Some (tfs_taskOptions (tf_spec tf0))))"
  shows "brings (between rc sel tf0 t StateComplete (runPhase del)) (reconcileLocked cl ul rc rnd key)
    (\<lambda>_. between rc sel tf0 u (if u = RunNil then StateComplete else StateInitializing) (runPhase del))"
proof (rule bringsI)
  fix s assume "between rc sel tf0 t StateComplete (runPhase del) s"
  then obtain ks tf where k: "keeping ks tf rc sel s" and f: "follows tf0 tf" and at: "stands t StateComplete (runPhase del) tf"
    and st: "startable ks rc sel tf" "ks = stageKeys rc sel tf" by (auto simp: between_def)
  have ud: "underway del tf" by (rule follows_underway [OF f assms(1)]) (use at in \<open>simp add: stands_def\<close>)
  define stage where "stage = fst (newStage (k_now cl (r_cluster s)) tf u (''COMPLETED_'' @ toUpper t)
     (isTaskInterruptable u) (if u = RunNil then StateComplete else StateInitializing))"
  have "checkSetNewStage cl False tf (r_cluster s) = (Inr (Some stage, tf), r_cluster s)"
    using ud at assms(2) unfolding checkSetNewStage_def Let_def underway_def stands_def
    by (auto simp: setNewStage_Inr newStage_resource stage_def assms(3) follows_fields(1) [OF f])
  note e = enter [OF k ud this]
  have r: "\<not> isRestart (stg_reason stage)" by (simp add: stage_def newStage_stage isRestart_def)
  define tf' where "tf' = tfSetStage tf stage"
  have h: "holding ks tf rc sel tf (s\<lparr>r_res := tf\<rparr>)" using k by (simp add: holding_def keeping_def)
  obtain x s' where "reconcileLocked cl ul rc rnd key s = (Inr x, s')" "holding ks tf' rc sel tf' s'"
    using bringsE [OF hold_moveStage [OF r tfSetStatus_same] h] e unfolding tf'_def by (metis option.case(2))
  moreover have fo: "follows x tf'" if "follows x tf" for x
  proof (rule follows_status [OF that])
    show "tf' = tfSetStatus tf (tf_status tf')" by (simp add: tf'_def tfSet_defs)
  qed (use ud in \<open>simp_all add: tf'_def tfSet_defs stage_def newStage_stage underway_def\<close>)
  have "stands u (if u = RunNil then StateComplete else StateInitializing) (runPhase del) tf'"
    using at by (simp add: stands_def tf'_def tfSet_defs stage_def newStage_stage)
  moreover have "ks = stageKeys rc sel tf'" "startable ks rc sel tf'"
    using later_startable [OF st(1) fo [OF follows_refl]] follows_fields(7) [OF fo [OF follows_refl]] st(2) by simp_all
  ultimately show "\<exists>x s'. reconcileLocked cl ul rc rnd key s = (Inr x, s') \<and>
      between rc sel tf0 u (if u = RunNil then StateComplete else StateInitializing) (runPhase del) s'"
    using fo [OF f] unfolding between_def holding_def by blast
qed

text \<open>Last call: the workflow is finished.\<close>

lemma hold_loadOutputs:
  "brings (holding ks tf rc sel tf') (loadOutputs cl r)
    (\<lambda>_ s. \<exists>outs. holding ks tf rc sel (tfSetStatus tf' ((tf_status tf')\<lparr>tfst_outputs := outs\<rparr>)) s)"
proof -
  let ?H = "holding ks tf rc sel tf'"
  let ?get = "on_cluster (loadSecret cl (o_outputsSecretName r) (o_namespace r))"
  have "?H u \<and> (\<forall>e. q = Inl e \<longrightarrow> \<not> is_panic e)" if h: "?H v" and g: "?get v = (q, u)" for v q u
  proof -
    obtain w where w: "loadSecret cl (o_outputsSecretName r) (o_namespace r) (r_cluster v) = (q, w)" "u = v\<lparr>r_cluster := w\<rparr>"
      using g by (auto simp: on_cluster_def split: prod.splits)
    have "stored w = stored (r_cluster v)" by (rule unstored [OF cluster_frame.frame_loadSecret [OF frame] w(1)])
    then show ?thesis using h w(2) calls(8) [OF w(1) [unfolded loadSecret_def]]
      by (auto simp: holding_def keeping_def)
  qed
  then have "brings ?H (io_try ?get (\<lambda>_. io_return []) (\<lambda>secret. io_return (sec_data secret))) (\<lambda>_. ?H)"
    by (rule brings_try_any) (auto intro: brings_return)
  then show ?thesis unfolding loadOutputs_def
    by (rule brings_bind) (rule brings_post [OF hold_modify], blast)
qed

lemma call_finishes:
  assumes "underway del tf0"
  shows "brings (between rc sel tf0 RunNil StateComplete (runPhase del)) (reconcileLocked cl ul rc rnd key)
    (\<lambda>_ s. \<exists>tf. stored (r_cluster s) key = Some tf \<and> tfPhase tf = lastPhase del \<and> tf = tfSetStatus tf0 (tf_status tf))"
proof (rule bringsI)
  fix s assume "between rc sel tf0 RunNil StateComplete (runPhase del) s"
  then obtain ks tf where k: "keeping ks tf rc sel s" and f: "follows tf0 tf" and at: "stands RunNil StateComplete (runPhase del) tf"
    by (auto simp: between_def)
  have u: "underway del tf" by (rule follows_underway [OF f assms(1)]) (use at in \<open>simp add: stands_def\<close>)
  have "checkSetNewStage cl False tf (r_cluster s) = (Inr (None, tf), r_cluster s)"
    using u at unfolding checkSetNewStage_def Let_def underway_def stands_def by auto
  note e = enter [OF k u this]
  define t where "t = s\<lparr>r_res := tf\<rparr>"
  have t: "r_res t = tf" "r_cache t = r_cache s" "holding ks tf rc sel tf t"
    using k by (simp_all add: t_def holding_def keeping_def)
  define tf1 where "tf1 = tfSetPhase tf (lastPhase del)"
  define fin where "fin = (\<lambda>s :: ('w, Terraform) rstate. \<exists>tf. stored (r_cluster s) key = Some tf \<and> tfPhase tf = lastPhase del \<and>
     tf = tfSetStatus tf0 (tf_status tf))"
  have from0: "tfSetStatus tf st = tfSetStatus tf0 st" for st
  proof -
    have "tf = tfSetStatus tf0 (tf_status tf)" using f by (simp add: follows_def)
    then show ?thesis by (metis tfSetStatus_twice)
  qed
  let ?out = "\<lambda>outs. tfSetStatus tf1 ((tf_status tf1)\<lparr>tfst_outputs := outs\<rparr>)"
  have save: "brings (holding ks tf rc sel (?out outs)) (saveOrFail cl) (\<lambda>_. fin)" for outs
  proof (rule brings_post [OF hold_saves(2)])
    show "?out outs = tfSetStatus tf (tf_status (?out outs))" by (simp add: tf1_def tfSet_defs)
    fix u assume h: "holding ks (?out outs) rc sel (?out outs) u"
    have "?out outs = tfSetStatus tf (tf_status (?out outs))" "tfPhase (?out outs) = lastPhase del"
      by (simp_all add: tf1_def tfSet_defs)
    then show "fin u" using h unfolding fin_def holding_def keeping_def from0 by blast
  qed
  have tf1: "tf1 = ?out (tfst_outputs (tf_status tf1))" by (simp add: tfSet_defs)
  have out: "brings (holding ks tf rc sel tf1) (if b then loadOutputs cl r else io_return ())
      (\<lambda>_ s. \<exists>outs. holding ks tf rc sel (?out outs) s)" for b r
  proof (cases b)
    case False
    have "brings (holding ks tf rc sel tf1) (io_return ()) (\<lambda>_ s. \<exists>outs. holding ks tf rc sel (?out outs) s)"
      by (rule brings_return, rule exI [of _ "tfst_outputs (tf_status tf1)"]) (simp only: tf1 [symmetric])
    then show ?thesis using False by simp
  qed (use hold_loadOutputs in simp)
  have set: "brings (holding ks tf rc sel tf) (modifyRes (\<lambda>tf. tfSetPhase tf (lastPhase del))) (\<lambda>_. holding ks tf rc sel tf1)"
    unfolding tf1_def by (rule hold_modify)
  have create: "brings (holding ks tf rc sel tf) (io_bind (modifyRes (\<lambda>tf. tfSetPhase tf (lastPhase del))) (\<lambda>_.
      io_bind (if b then loadOutputs cl r else io_return ()) (\<lambda>_. saveOrFail cl))) (\<lambda>_. fin)" for b r
    by (rule brings_bind [OF set brings_bind [OF out brings_ex [OF save]]])
  have destroy: "brings (holding ks tf rc sel tf) (io_bind (modifyRes (\<lambda>tf. tfSetPhase tf (lastPhase del))) (\<lambda>_. saveOrFail cl)) (\<lambda>_. fin)"
    by (rule brings_bind [OF set]) (subst tf1, rule save)
  have "\<exists>x s'. finishWorkflow cl r t = (Inr x, s') \<and> fin s'" for r
  proof (cases del)
    case True
    then have "finishWorkflow cl r t = io_bind (modifyRes (\<lambda>tf. tfSetPhase tf (lastPhase del))) (\<lambda>_. saveOrFail cl) t"
      using at t(1) by (simp add: finishWorkflow_def stands_def phase_defs)
    then show ?thesis using bringsE [OF destroy t(3)] by metis
  next
    case False
    then have "finishWorkflow cl r t = io_bind (modifyRes (\<lambda>tf. tfSetPhase tf (lastPhase del))) (\<lambda>_.
        io_bind (if tfs_writeOutputsToStatus (tf_spec tf) then loadOutputs cl r else io_return ()) (\<lambda>_. saveOrFail cl)) t"
      using at t(1) by (simp add: finishWorkflow_def stands_def phase_defs)
    then show ?thesis using bringsE [OF create t(3)] by metis
  qed
  moreover have "reconcileLocked cl ul rc rnd key s = handleStage cl ul rc t" using e by (simp add: t_def)
  moreover have "getNodeSelectorsFromCache rc (r_cache s) = Inr sel" using k by (simp add: keeping_def)
  ultimately show "\<exists>x s'. reconcileLocked cl ul rc rnd key s = (Inr x, s') \<and>
      (\<exists>tf. stored (r_cluster s') key = Some tf \<and> tfPhase tf = lastPhase del \<and> tf = tfSetStatus tf0 (tf_status tf))"
    using at t by (simp add: handleStage_def Let_def fin_def stands_def)
qed

section \<open>All the calls\<close>

lemma calls_run:
  assumes "underway del tf0"
    and "workflowFrom fuel (getConfiguredTasks (Some (tfs_taskOptions (tf_spec tf0)))) t = Some ts"
    and "between rc sel tf0 t (if t = RunNil then StateComplete else StateInitializing) ph s"
    and "ph \<in> {firstPhase del, runPhase del}" and "t = RunNil \<Longrightarrow> ph = runPhase del"
    and "m = reconcileLocked cl ul rc rnd key"
  shows "returns m (3 * length ts + 1) s \<and>
    (\<exists>tf. stored (r_cluster (again m (3 * length ts + 1) s)) key = Some tf \<and> tfPhase tf = lastPhase del \<and>
       tf = tfSetStatus tf0 (tf_status tf)) \<and>
    (\<forall>i < length ts. \<exists>tf. stored (r_cluster (again m (3 * i) s)) key = Some tf \<and>
       stg_taskType (tfStage tf) = ts ! i \<and> stg_state (tfStage tf) = StateInitializing)"
  using assms(2-5)
proof (induction fuel arbitrary: t ts s ph)
  case (Suc fuel)
  let ?c = "getConfiguredTasks (Some (tfs_taskOptions (tf_spec tf0)))"
  show ?case
  proof (cases "t = RunNil")
    case True
    then have "between rc sel tf0 RunNil StateComplete (runPhase del) s" "ts = []" using Suc.prems by auto
    then show ?thesis using brings_once [OF call_finishes [OF assms(1)]] by (simp add: assms(6))
  next
    case False
    define u where "u = nextTask t ?c"
    let ?st = "if u = RunNil then StateComplete else StateInitializing"
    obtain us where us: "ts = t # us" "workflowFrom fuel ?c u = Some us"
      using Suc.prems(1) False by (auto simp: u_def)
    have b: "between rc sel tf0 t StateInitializing ph s" using Suc.prems(2) False by simp
    have "returns m 1 s \<and> between rc sel tf0 t StateInProgress (runPhase del) (again m 1 s)"
      unfolding assms(6) by (rule brings_once [OF call_starts [OF assms(1) False Suc.prems(3)] b])
    then have "returns m (1 + 1) s \<and> between rc sel tf0 t StateComplete (runPhase del) (again m (1 + 1) s)"
      unfolding assms(6) by (rule brings_then [OF _ call_follows [OF assms(1) False]])
    then have "returns m (1 + 1 + 1) s \<and> between rc sel tf0 u ?st (runPhase del) (again m (1 + 1 + 1) s)"
      unfolding assms(6) by (rule brings_then [OF _ call_moves [OF assms(1) False u_def]])
    then have three: "returns m 3 s" "between rc sel tf0 u ?st (runPhase del) (again m 3 s)"
      by (simp_all add: numeral_3_eq_3)
    note IH = Suc.IH [OF us(2) three(2)]
    have n: "3 * length ts + 1 = 3 + (3 * length us + 1)" using us(1) by simp
    have "\<exists>tf. stored (r_cluster (again m (3 * i) s)) key = Some tf \<and>
       stg_taskType (tfStage tf) = ts ! i \<and> stg_state (tfStage tf) = StateInitializing" if i: "i < length ts" for i
    proof (cases i)
      case 0
      then show ?thesis using between_stored [OF b] us(1) by (auto simp: stands_def)
    next
      case (Suc j)
      then have "3 * i = 3 + 3 * j" by simp
      then show ?thesis using IH Suc i us(1) by (simp add: again_add del: again.simps)
    qed
    then show ?thesis using IH three(1) unfolding n returns_add again_add by simp
  qed
qed simp

section \<open>The beginning of a resource\<close>

text \<open>What the calls before the first stage look for.\<close>

lemma get_stored:
  assumes "stored w key = Some tf"
  shows "getTfResource cl key 3 w = (Inr tf, w)"
  unfolding getTfResource_def by (intro getRetry_success calls(3) assms) simp

lemma call_addsFinalizer:
  assumes "keeping [] tf rc sel s" and "fresh tf" and "\<not> tfs_ignoreDelete (tf_spec tf)"
  shows "\<exists>x s'. reconcileLocked cl ul rc rnd key s = (Inr x, s') \<and>
    keeping [] (tfSetFinalizers tf (tf_finalizers tf @ [tfFinalizer])) rc sel s'"
proof -
  let ?tf = "tfSetFinalizers tf (tf_finalizers tf @ [tfFinalizer])"
  have st: "stored (r_cluster s) key = Some tf" using assms(1) by (simp add: keeping_def)
  have k: "tfKey tf = key" using stored_key [OF st] .
  obtain w' where w': "k_update_tf cl ?tf (r_cluster s) = (Inr ?tf, w')" "view w' = view (r_cluster s)"
      "stored w' = (stored (r_cluster s))(key \<mapsto> ?tf)"
    using calls(5) [of "r_cluster s" tf "tf_finalizers tf @ [tfFinalizer]"] st k by auto
  have "updateFinalizer tf = Some (True, ?tf)"
    using assms(2,3) by (simp add: updateFinalizer_def fresh_def Let_def)
  then have "reconcileLocked cl ul rc rnd key s = (Inr Done, s\<lparr>r_cluster := w', r_res := ?tf\<rparr>)"
    using get_stored [OF st] w'(1) assms(2)
    by (simp add: reconcileLocked_def io_try_def on_cluster_def io_bind_def fresh_def updateRes_def updateTf_def)
  then show ?thesis using assms(1) w'(2,3) by (simp add: keeping_def)
qed

lemma call_initializes:
  assumes "keeping [] tf rc sel s" and "settled tf" and "tfst_podNamePrefix (tf_status tf) = []"
  shows "\<exists>x s' tf'. reconcileLocked cl ul rc rnd key s = (Inr x, s') \<and> keeping [] tf' rc sel s' \<and> settled tf' \<and>
    tf_spec tf' = tf_spec tf \<and> tf_name tf' = tf_name tf \<and> tfst_podNamePrefix (tf_status tf') \<noteq> [] \<and> tfPhase tf' = PhaseInitializing"
proof -
  have st: "stored (r_cluster s) key = Some tf" using assms(1) by (simp add: keeping_def)
  obtain prefix where p: "podNamePrefixOf rnd (tf_name tf) = Some prefix" "prefix \<noteq> []"
    by (auto simp: podNamePrefixOf_def StringWithCharset_def AlphaNum_def)
  define tf' where "tf' = tfSetStatus tf ((tf_status tf)\<lparr>tfst_podNamePrefix := prefix,
     tfst_lastCompletedGeneration := 0, tfst_phase := PhaseInitializing\<rparr>)"
  have same: "tf' = tfSetStatus tf (tf_status tf')" by (simp add: tf'_def tfSetStatus_def)
  have save: "brings (holding [] tf rc sel tf) (io_bind (modifyRes (\<lambda>tf. tfSetStatus tf ((tf_status tf)\<lparr>tfst_podNamePrefix := prefix,
     tfst_lastCompletedGeneration := 0, tfst_phase := PhaseInitializing\<rparr>))) (\<lambda>_. saveThen cl Done)) (\<lambda>_. holding [] tf' rc sel tf')"
    by (rule brings_bind [OF hold_modify]) (subst tf'_def [symmetric], rule hold_saves(1) [OF same])
  define t where "t = s\<lparr>r_res := tf\<rparr>"
  have t: "r_res t = tf" "holding [] tf rc sel tf t" using assms(1) by (simp_all add: t_def holding_def keeping_def)
  obtain x s' where b: "io_bind (modifyRes (\<lambda>tf. tfSetStatus tf ((tf_status tf)\<lparr>tfst_podNamePrefix := prefix,
     tfst_lastCompletedGeneration := 0, tfst_phase := PhaseInitializing\<rparr>))) (\<lambda>_. saveThen cl Done) t = (Inr x, s')"
      and h: "holding [] tf' rc sel tf' s'" by (rule bringsE [OF save t(2)])
  have "initializeResource cl rnd t = (Inr x, s')"
    unfolding initializeResource_def t(1) p(1) option.case(2) by (rule b)
  note r = this h
  have "reconcileLocked cl ul rc rnd key s = initializeResource cl rnd t"
    using get_stored [OF st] settled_finalizer [OF assms(2)] assms(2,3)
    by (simp add: reconcileLocked_def io_try_def on_cluster_def io_bind_def [of "setRes tf"] settled_def t_def)
  moreover have "settled tf'" using assms(2) by (simp add: settled_def tf'_def tfSetStatus_def retrySettled_def)
  ultimately show ?thesis using r p(2)
    by (intro exI [of _ x] exI [of _ s'] exI [of _ tf']) (simp add: holding_def tf'_def tfSetStatus_def)
qed

lemma call_addsStage:
  assumes "keeping [] tf rc sel s" and "settled tf" and "tfst_podNamePrefix (tf_status tf) \<noteq> []"
    and "tfPhase tf = PhaseInitializing" and "runnable ul tf"
  shows "\<exists>x s' tf'. reconcileLocked cl ul rc rnd key s = (Inr x, s') \<and> underway False tf' \<and> tf_spec tf' = tf_spec tf \<and>
    between rc sel tf' RunSetup StateInitializing PhaseInitializing s'"
proof -
  have st: "stored (r_cluster s) key = Some tf" using assms(1) by (simp add: keeping_def)
  define stage where "stage = fst (newStage (k_now cl (r_cluster s)) tf RunSetup ''TF_RESOURCE_CREATED'' CanNotBeInterrupt StateInitializing)"
  define tf' where "tf' = tfSetPlugins (tfSetStage tf stage) []"
  have same: "tf' = tfSetStatus tf (tf_status tf')" by (simp add: tf'_def tfSet_defs)
  define t where "t = s\<lparr>r_res := tf'\<rparr>"
  have "holding [] tf rc sel tf' t" using assms(1) by (simp add: t_def holding_def keeping_def)
  then obtain x s' where r: "saveOrFail cl t = (Inr x, s')" "holding [] tf' rc sel tf' s'"
    by (rule bringsE [OF hold_saves(2) [OF same]])
  have "addFirstStage cl (s\<lparr>r_res := tf\<rparr>) = saveOrFail cl t"
    by (simp add: addFirstStage_def io_bind_def t_def tf'_def stage_def newStage_def Let_def tfSet_defs)
  then have "reconcileLocked cl ul rc rnd key s = (Inr x, s')"
    using get_stored [OF st] settled_finalizer [OF assms(2)] assms(2,3) r(1)
    by (simp add: reconcileLocked_def io_try_def on_cluster_def io_bind_def [of "setRes tf"] settled_def)
  moreover have "runnable ul tf'" by (subst same) (simp add: assms(5))
  moreover have f: "tf_spec tf' = tf_spec tf" "tfst_podNamePrefix (tf_status tf') \<noteq> []"
    using assms(3) by (simp_all add: tf'_def tfSet_defs)
  moreover have s: "tfStage tf' = stage" "tfPhase tf' = PhaseInitializing"
    using assms(4) by (simp_all add: tf'_def tfSet_defs)
  moreover have "underway False tf'" using assms(2-4)
    by (simp add: underway_def settled_def tf'_def tfSet_defs stage_def newStage_stage retrySettled_def phase_defs)
  moreover have "between rc sel tf' RunSetup StateInitializing PhaseInitializing s'"
  proof (rule betweenI [OF r(2) follows_refl])
    show "startable [] rc sel tf'" using f s \<open>runnable ul tf'\<close>
      by (simp add: startable_def stage_def newStage_stage firstInstall_def)
    show "stands RunSetup StateInitializing PhaseInitializing tf'"
      using s by (simp add: stands_def stage_def newStage_stage)
  qed simp
  ultimately show ?thesis by blast
qed

text \<open>The calls before the first stage, and what follows.\<close>

lemma calls_settle:
  assumes "keeping [] tf rc sel s" and "fresh tf" and "runnable ul tf" and "m = reconcileLocked cl ul rc rnd key"
  shows "returns m (settlingCalls tf) s \<and>
    (\<exists>tf'. underway False tf' \<and> tf_spec tf' = tf_spec tf \<and>
       between rc sel tf' RunSetup StateInitializing PhaseInitializing (again m (settlingCalls tf) s))"
proof -
  have two: "returns m 2 u \<and> (\<exists>tf'. underway False tf' \<and> tf_spec tf' = tf_spec q \<and>
       between rc sel tf' RunSetup StateInitializing PhaseInitializing (again m 2 u))"
    if k: "keeping [] q rc sel u" and q: "settled q" "tfst_podNamePrefix (tf_status q) = []" "runnable ul q" for q u
  proof -
    obtain x v q' where a: "reconcileLocked cl ul rc rnd key u = (Inr x, v)" "keeping [] q' rc sel v" "settled q'" "tf_spec q' = tf_spec q"
        "tf_name q' = tf_name q" "tfst_podNamePrefix (tf_status q') \<noteq> []" "tfPhase q' = PhaseInitializing"
      using call_initializes [OF k q(1,2), of rnd] by (elim exE conjE) (rule that)
    have "runnable ul q'" using q(3) runnable_spec [OF a(4,5)] by simp
    then obtain y w q2 where b: "m v = (Inr y, w)" "underway False q2" "tf_spec q2 = tf_spec q'"
        "between rc sel q2 RunSetup StateInitializing PhaseInitializing w"
      using call_addsStage [OF a(2,3,6,7), of rnd] unfolding assms(4) by blast
    show ?thesis using a(1) [folded assms(4)] a(4) b by (auto simp: numeral_2_eq_2 returns_Suc)
  qed
  show ?thesis
  proof (cases "tfs_ignoreDelete (tf_spec tf)")
    case True
    then have "settled tf" "tfst_podNamePrefix (tf_status tf) = []" using assms(2) by (simp_all add: fresh_def settled_def)
    then show ?thesis using two [OF assms(1)] assms(3) True by (simp add: settlingCalls_def)
  next
    case False
    let ?tf = "tfSetFinalizers tf (tf_finalizers tf @ [tfFinalizer])"
    obtain x u where a: "m s = (Inr x, u)" "keeping [] ?tf rc sel u"
      using call_addsFinalizer [OF assms(1,2) False] unfolding assms(4) by blast
    have "settled ?tf" "tfst_podNamePrefix (tf_status ?tf) = []" "tf_spec ?tf = tf_spec tf"
      using assms(2) False by (auto simp: fresh_def settled_def tfSetFinalizers_def retrySettled_def)
    moreover have "runnable ul ?tf" using runnable_spec [of ?tf tf ul] assms(3) by (simp add: tfSetFinalizers_def)
    ultimately have "returns m 2 u \<and> (\<exists>tf'. underway False tf' \<and> tf_spec tf' = tf_spec tf \<and>
       between rc sel tf' RunSetup StateInitializing PhaseInitializing (again m 2 u))"
      using two [OF a(2)] by simp
    then show ?thesis using a(1) False by (simp add: settlingCalls_def numeral_3_eq_3 numeral_2_eq_2 returns_Suc)
  qed
qed

lemma new_resource:
  assumes "keeping [] tf rc sel s" and "fresh tf" and "runnable ul tf" and "m = reconcileLocked cl ul rc rnd key"
    and "ts = schedule tasksInOrder (tfs_taskOptions (tf_spec tf))" and "n = settlingCalls tf"
  shows "returns m (n + 3 * length ts + 1) s \<and>
    (\<exists>tf'. stored (r_cluster (again m (n + 3 * length ts + 1) s)) key = Some tf' \<and> tfPhase tf' = PhaseCompleted) \<and>
    (\<forall>i < length ts. \<exists>tf'. stored (r_cluster (again m (n + 3 * i) s)) key = Some tf' \<and>
       stg_taskType (tfStage tf') = ts ! i \<and> stg_state (tfStage tf') = StateInitializing)"
proof -
  obtain tf' where b: "returns m n s" "underway False tf'" "tf_spec tf' = tf_spec tf"
      "between rc sel tf' RunSetup StateInitializing PhaseInitializing (again m n s)"
    using calls_settle [OF assms(1-4)] unfolding assms(6) by blast
  have "workflowFrom 12 (getConfiguredTasks (Some (tfs_taskOptions (tf_spec tf')))) RunSetup = Some ts"
    using workflow_runs_schedule unfolding b(3) assms(5) by blast
  then have r: "returns m (3 * length ts + 1) (again m n s) \<and>
    (\<exists>tf. stored (r_cluster (again m (3 * length ts + 1) (again m n s))) key = Some tf \<and> tfPhase tf = lastPhase False \<and>
       tf = tfSetStatus tf' (tf_status tf)) \<and>
    (\<forall>i < length ts. \<exists>tf. stored (r_cluster (again m (3 * i) (again m n s))) key = Some tf \<and>
       stg_taskType (tfStage tf) = ts ! i \<and> stg_state (tfStage tf) = StateInitializing)"
    by (rule calls_run [OF b(2) _ _ _ _ assms(4), where ph = PhaseInitializing and sel = sel])
      (use b(4) in \<open>simp_all add: phase_defs\<close>)
  show ?thesis using b(1) r unfolding add.assoc returns_add again_add phase_defs if_False by blast
qed

section \<open>The end of a resource\<close>

lemma call_startsDestroy:
  assumes "keeping [] tf rc sel s" and "doomed tf" and "runnable ul tf"
  shows "\<exists>x s' tf'. reconcileLocked cl ul rc rnd key s = (Inr x, s') \<and> underway True tf' \<and> tf_spec tf' = tf_spec tf \<and>
    tf_finalizers tf' = tf_finalizers tf \<and> tf_deletionTimestamp tf' = tf_deletionTimestamp tf \<and> tf_name tf' = tf_name tf \<and>
    between rc sel tf' RunSetupDelete StateInitializing PhaseInitDelete s'"
proof -
  have st: "stored (r_cluster s) key = Some tf" using assms(1) by (simp add: keeping_def)
  define tfd where "tfd = tfSetPhase tf PhaseInitDelete"
  have d: "updateFinalizer tf = Some (False, tf)" "tfPhase tf \<noteq> PhaseDeleted" "markDeletion tf = tfd"
      "markRetry now tfd = (False, tfd)" for now
  proof -
    have "tfFinalizer \<in> set (tf_finalizers tf)" using assms(2) count_notin [of tfFinalizer "tf_finalizers tf"]
      by (auto simp: doomed_def)
    then show "updateFinalizer tf = Some (False, tf)" "tfPhase tf \<noteq> PhaseDeleted" "markDeletion tf = tfd"
      using assms(2) by (auto simp: doomed_def updateFinalizer_def Let_def tfDeleting_def deletePhases_def markDeletion_def tfd_def)
    show "markRetry now tfd = (False, tfd)"
      using assms(2) by (intro settled_retry) (simp add: doomed_def retrySettled_def tfd_def tfSetPhase_def)
  qed
  define stage where "stage = fst (newStage (k_now cl (r_cluster s)) tfd RunSetupDelete ''TF_RESOURCE_DELETED'' CanNotBeInterrupt StateInitializing)"
  have c: "checkSetNewStage cl False tfd (r_cluster s) = (Inr (Some stage, tfd), r_cluster s)"
    using assms(2) by (auto simp: checkSetNewStage_def Let_def doomed_def deletePhases_def setNewStage_Inr newStage_resource
        stage_def tfd_def tfSetPhase_def)
  have stage: "stg_reason stage = ''TF_RESOURCE_DELETED''" "stg_taskType stage = RunSetupDelete" "stg_state stage = StateInitializing"
      "stg_generation stage = tf_generation tf" by (simp_all add: stage_def newStage_stage tfd_def tfSetPhase_def)
  define tf' where "tf' = tfSetStage tfd stage"
  have same: "tfd = tfSetStatus tf (tf_status tfd)" by (simp add: tfd_def tfSet_defs)
  have h: "holding [] tf rc sel tfd (s\<lparr>r_res := tfd\<rparr>)" using assms(1) by (simp add: holding_def keeping_def)
  have "\<not> isRestart (stg_reason stage)" by (simp add: stage isRestart_def)
  then obtain x s' where m: "moveStage cl stage (s\<lparr>r_res := tfd\<rparr>) = (Inr x, s')" "holding [] tf' rc sel tf' s'"
    using bringsE [OF hold_moveStage [OF _ same] h] unfolding tf'_def by blast
  have "reconcileStage cl ul rc (s\<lparr>r_res := tf\<rparr>) = moveStage cl stage (s\<lparr>r_res := tfd\<rparr>)"
    using c by (simp add: reconcileStage_def io_bind_def d on_cluster_def)
  then have "reconcileLocked cl ul rc rnd key s = (Inr x, s')"
    using get_stored [OF st] d(1,2) m(1) assms(2)
    by (simp add: reconcileLocked_def io_try_def on_cluster_def io_bind_def [of "setRes tf"] doomed_def)
  moreover have f: "tf_spec tf' = tf_spec tf" "tf_finalizers tf' = tf_finalizers tf" "tf_deletionTimestamp tf' = tf_deletionTimestamp tf"
      "tf_generation tf' = tf_generation tf" "tf_name tf' = tf_name tf" "tf_labels tf' = tf_labels tf"
      "tfStage tf' = stage" "tfPhase tf' = PhaseInitDelete"
      "tfst_podNamePrefix (tf_status tf') = tfst_podNamePrefix (tf_status tf)"
      "tfst_retryEventReason (tf_status tf') = tfst_retryEventReason (tf_status tf)"
    by (simp_all add: tf'_def tfd_def tfSet_defs)
  moreover have "underway True tf'"
    using assms(2) count_notin [of tfFinalizer "tf_finalizers tf"]
    by (auto simp: underway_def doomed_def f stage retrySettled_def phase_defs)
  moreover have "between rc sel tf' RunSetupDelete StateInitializing PhaseInitDelete s'"
  proof (rule betweenI [OF m(2) follows_refl])
    show "startable [] rc sel tf'" using assms(2,3) runnable_spec [OF f(1,5)]
      by (simp add: startable_def doomed_def f stage generationChanged_def)
  qed (simp_all add: stands_def f stage)
  ultimately show ?thesis by blast
qed

text \<open>The last call releases the destroyed resource.\<close>

lemma call_releases:
  assumes "stored (r_cluster s) key = Some tf" and "tfPhase tf = PhaseDeleted" and "runnable ul tf"
    and "count_list (tf_finalizers tf) tfFinalizer = 1" and "tf_deletionTimestamp tf \<noteq> None"
    and "others = filter (\<lambda>f. f \<noteq> tfFinalizer) (tf_finalizers tf)"
  shows "\<exists>x s'. reconcileLocked cl ul rc rnd key s = (Inr x, s') \<and>
    stored (r_cluster s') key = (if others = [] then None else Some (tfSetFinalizers tf others))"
proof -
  have k: "tfKey tf = key" by (rule stored_key [OF assms(1)])
  have in_fin: "tfFinalizer \<in> set (tf_finalizers tf)" using assms(4) count_notin [of tfFinalizer "tf_finalizers tf"] by auto
  have u: "updateFinalizer tf = Some (True, tfSetFinalizers tf others)"
    using updateFinalizer_cases [of tf] assms(2,4,6) in_fin by (simp add: Let_def)
  obtain w' where w': "k_update_tf cl (tfSetFinalizers tf others) (r_cluster s) = (Inr (tfSetFinalizers tf others), w')"
      "stored w' = (stored (r_cluster s))(key := if others = [] then None else Some (tfSetFinalizers tf others))"
    using calls(5) [of "r_cluster s" tf others] assms(1,5) k by auto
  have "updateSecretFinalizer cl tf w = (Inr (), w)" for w
    using assms(3) by (simp add: runnable_def updateSecretFinalizer_def getGitSecrets_def lockGitSecrets_def io_for_def)
  then have "reconcileLocked cl ul rc rnd key s = (Inr Done, s\<lparr>r_cluster := w', r_res := tfSetFinalizers tf others\<rparr>)"
    using get_stored [OF assms(1)] assms(2) u w'(1)
    by (simp add: reconcileLocked_def removeFinalizers_def withEvent_def io_try_def on_cluster_def io_bind_def updateRes_def updateTf_def)
  then show ?thesis using w'(2) by simp
qed

lemma doomed_resource:
  assumes "keeping [] tf rc sel s" and "doomed tf" and "runnable ul tf" and "m = reconcileLocked cl ul rc rnd key"
    and "ts = schedule deleteTasksInOrder (tfs_taskOptions (tf_spec tf))" and "n = 1 + (3 * length ts + 1)"
    and "others = filter (\<lambda>f. f \<noteq> tfFinalizer) (tf_finalizers tf)"
  shows "returns m (n + 1) s \<and>
    (\<forall>i < length ts. \<exists>tf'. stored (r_cluster (again m (1 + 3 * i) s)) key = Some tf' \<and>
       stg_taskType (tfStage tf') = ts ! i \<and> stg_state (tfStage tf') = StateInitializing) \<and>
    (\<exists>tf'. stored (r_cluster (again m n s)) key = Some tf' \<and> tfPhase tf' = PhaseDeleted \<and>
       stored (r_cluster (again m (n + 1) s)) key = (if others = [] then None else Some (tfSetFinalizers tf' others)))"
proof -
  obtain x s1 tf1 where b: "reconcileLocked cl ul rc rnd key s = (Inr x, s1)" "underway True tf1" "tf_spec tf1 = tf_spec tf"
      "tf_finalizers tf1 = tf_finalizers tf" "tf_deletionTimestamp tf1 = tf_deletionTimestamp tf" "tf_name tf1 = tf_name tf"
      "between rc sel tf1 RunSetupDelete StateInitializing PhaseInitDelete s1"
    using call_startsDestroy [OF assms(1-3), of rnd] by (elim exE conjE) (rule that)
  have one: "returns m 1 s" "again m 1 s = s1" using b(1) [folded assms(4)] by (simp_all add: returns_def)
  have "workflowFrom 12 (getConfiguredTasks (Some (tfs_taskOptions (tf_spec tf1)))) RunSetupDelete = Some ts"
    using workflow_runs_schedule unfolding b(3) assms(5) by blast
  then have r: "returns m (3 * length ts + 1) s1 \<and>
    (\<exists>tf. stored (r_cluster (again m (3 * length ts + 1) s1)) key = Some tf \<and> tfPhase tf = lastPhase True \<and>
       tf = tfSetStatus tf1 (tf_status tf)) \<and>
    (\<forall>i < length ts. \<exists>tf. stored (r_cluster (again m (3 * i) s1)) key = Some tf \<and>
       stg_taskType (tfStage tf) = ts ! i \<and> stg_state (tfStage tf) = StateInitializing)"
    by (rule calls_run [OF b(2) _ _ _ _ assms(4), where ph = PhaseInitDelete and sel = sel])
      (use b(7) in \<open>simp_all add: phase_defs\<close>)
  have n: "returns m n s" "again m n s = again m (3 * length ts + 1) s1"
    using one r unfolding assms(6) returns_add again_add by simp_all
  obtain tf2 where t0: "stored (r_cluster (again m (3 * length ts + 1) s1)) key = Some tf2"
      and t2: "tfPhase tf2 = PhaseDeleted" "tf2 = tfSetStatus tf1 (tf_status tf2)"
    using r unfolding phase_defs if_True by (elim conjE exE) (rule that)
  note t = t0 [folded n(2)] t2
  have set: "tf_finalizers (tfSetStatus tf1 st) = tf_finalizers tf" "tf_deletionTimestamp (tfSetStatus tf1 st) = tf_deletionTimestamp tf"
      "runnable ul (tfSetStatus tf1 st)" for st
    using b(4,5) runnable_spec [OF b(3,6), of ul] assms(3) runnable_status [of ul tf1 st] by (simp_all add: tfSetStatus_def)
  have same: "tf_finalizers tf2 = tf_finalizers tf" "tf_deletionTimestamp tf2 = tf_deletionTimestamp tf" "runnable ul tf2"
    using set [of "tf_status tf2"] unfolding t2(2) [symmetric] by blast+
  have "\<exists>x s'. m (again m n s) = (Inr x, s') \<and>
      stored (r_cluster s') key = (if others = [] then None else Some (tfSetFinalizers tf2 others))"
    unfolding assms(4) by (rule call_releases [OF t(1) [unfolded assms(4)] t(2) same(3)])
      (use assms(2,7) same in \<open>simp_all add: doomed_def\<close>)
  then have "returns m (n + 1) s"
      "stored (r_cluster (again m (n + 1) s)) key = (if others = [] then None else Some (tfSetFinalizers tf2 others))"
    unfolding returns_add again_add using n(1) by (auto simp: returns_Suc)
  moreover have "again m (1 + 3 * i) s = again m (3 * i) s1" for i unfolding again_add one(2) ..
  ultimately show ?thesis using r t(1,2) by metis
qed

end

end
