(* ===== verification/TfLife.thy ===== *)
theory TfLife
  imports TfLive
begin

text \<open>
  The life of a \<open>Terraform\<close> resource as a whole, from its creation to the phase \<open>completed\<close>
  and from its deletion to its removal, and a cluster in memory on which nothing fails, the
  instance of \<open>healthy_cluster\<close> the theorems are run on.
\<close>

section \<open>A calm cluster\<close>

text \<open>
  The cluster in memory, with conflict-free writes, a pod for every request, the removal of
  deleted resources without finalizers, and, for one resource, pods that have succeeded as
  soon as its stage is in progress.
\<close>

definition succeededPod :: Pod where
  "succeededPod = \<lparr>pod_name = ''pod'', pod_generateName = [], pod_namespace = [], pod_labels = [], pod_annotations = [],
     pod_uid = ''uid'', pod_creationTimestamp = None, pod_phase = ''Succeeded'',
     pod_spec = \<lparr>ps_affinity = None, ps_nodeSelector = [], ps_tolerations = [], ps_fsGroup = 0,
       ps_serviceAccountName = [], ps_restartPolicy = [], ps_containers = [], ps_volumes = []\<rparr>\<rparr>"

definition calmPods :: "Terraform option \<Rightarrow> Pod list" where
  "calmPods stored = (case stored of None \<Rightarrow> []
     | Some tf \<Rightarrow> if stg_state (tfStage tf) = StateInProgress then [succeededPod] else [])"

fun calmCreate :: "owner \<Rightarrow> kobj \<Rightarrow> (mem, string) io" where
  "calmCreate ow (KPod p) =
     (if pod_name p = [] then (\<lambda>w. (Inr (pod_generateName p), w\<lparr>m_objs := m_objs w @ [namedObj (m_time w) (KPod p)]\<rparr>))
      else memCreate ow (KPod p))"
| "calmCreate ow ob = memCreate ow ob"

definition calmUpdate :: "Terraform \<Rightarrow> Terraform list \<Rightarrow> Terraform list" where
  "calmUpdate tf tfs = (if tf_finalizers tf = [] \<and> tf_deletionTimestamp tf \<noteq> None
     then filter (\<lambda>r. tfKey r \<noteq> tfKey tf) tfs else storeBy tfKey tf tfs)"

definition calmCluster :: "nsname \<Rightarrow> mem kube" where
  "calmCluster key = memCluster\<lparr>
     k_create := calmCreate,
     k_list_pods := (\<lambda>ns gen lab w. (Inr (calmPods (memStored w key)), w)),
     k_update_tf := (\<lambda>tf w. (Inr tf, w\<lparr>m_tfs := calmUpdate tf (m_tfs w)\<rparr>)),
     k_status_update_tf := (\<lambda>tf w. (Inr tf, w\<lparr>m_tfs := storeBy tfKey tf (m_tfs w)\<rparr>))\<rparr>"

lemma calm_calls:
  "k_exists (calmCluster key) = k_exists memCluster" "k_delete (calmCluster key) = k_delete memCluster"
  "k_update (calmCluster key) = k_update memCluster" "k_event (calmCluster key) = k_event memCluster"
  "k_get_tf (calmCluster key) = k_get_tf memCluster" "k_get_secret (calmCluster key) = k_get_secret memCluster"
  "k_create (calmCluster key) = calmCreate"
  "k_list_pods (calmCluster key) ns gen lab w = (Inr (calmPods (memStored w key)), w)"
  "k_update_tf (calmCluster key) tf w = (Inr tf, w\<lparr>m_tfs := calmUpdate tf (m_tfs w)\<rparr>)"
  "k_status_update_tf (calmCluster key) tf w = (Inr tf, w\<lparr>m_tfs := storeBy tfKey tf (m_tfs w)\<rparr>)"
  by (simp_all add: calmCluster_def)

lemma calmCreate_named: "snd (obj_key ob) \<noteq> [] \<Longrightarrow> calmCreate ow ob = memCreate ow ob"
  by (cases ob) auto

lemma calm_store_laws: "store_laws (calmCluster key) memView"
proof -
  have c: "k_create (calmCluster key) ow ob = k_create memCluster ow ob" if "snd (obj_key ob) \<noteq> []" for ow ob
    using calmCreate_named [OF that] by (simp add: calm_calls) (simp add: memCluster_def)
  note m = mem_store_laws [unfolded store_laws_def]
  note create = m [THEN conjunct2, THEN conjunct2]
  have "\<forall>ow ob w. snd (obj_key ob) \<noteq> [] \<longrightarrow> memView w (kind_of ob, obj_key ob) = None \<longrightarrow>
      (\<exists>w'. k_create (calmCluster key) ow ob w = (Inr (snd (obj_key ob)), w') \<and>
         memView w' = (memView w)((kind_of ob, obj_key ob) \<mapsto> ob))"
  proof (intro allI impI)
    fix ow ob w assume n: "snd (obj_key ob) \<noteq> []" and v: "memView w (kind_of ob, obj_key ob) = None"
    show "\<exists>w'. k_create (calmCluster key) ow ob w = (Inr (snd (obj_key ob)), w') \<and>
        memView w' = (memView w)((kind_of ob, obj_key ob) \<mapsto> ob)"
      unfolding c [OF n] by (rule create [THEN conjunct1, rule_format, OF n v])
  qed
  moreover have "\<forall>ow ob w. snd (obj_key ob) \<noteq> [] \<longrightarrow> memView w (kind_of ob, obj_key ob) \<noteq> None \<longrightarrow>
      k_create (calmCluster key) ow ob w = (Inl (ErrAlreadyExists (nsname_text (obj_key ob))), w)"
  proof (intro allI impI)
    fix ow ob w assume n: "snd (obj_key ob) \<noteq> []" and v: "memView w (kind_of ob, obj_key ob) \<noteq> None"
    show "k_create (calmCluster key) ow ob w = (Inl (ErrAlreadyExists (nsname_text (obj_key ob))), w)"
      unfolding c [OF n] by (rule create [THEN conjunct2, THEN conjunct1, rule_format, OF n v])
  qed
  ultimately show ?thesis unfolding store_laws_def calm_calls(1-4)
    by (intro conjI m [THEN conjunct1] m [THEN conjunct2, THEN conjunct1]
        create [THEN conjunct2, THEN conjunct2, THEN conjunct1] create [THEN conjunct2, THEN conjunct2, THEN conjunct2])
qed

lemma memStored_put:
  assumes "m_tfs w' = storeBy tfKey tf (m_tfs w)" and "memStored w (tfKey tf) \<noteq> None"
  shows "memStored w' = (memStored w)(tfKey tf \<mapsto> tf)"
  using assms by (auto simp: memStored_def listed_def find_storeBy fun_eq_iff)

lemma memStored_absent: "memStored w (tfKey tf) = None \<Longrightarrow> m_tfs w' = storeBy tfKey tf (m_tfs w) \<Longrightarrow> memStored w' = memStored w"
  by (auto simp: memStored_def listed_def find_storeBy fun_eq_iff)

lemma memStored_remove:
  assumes "m_tfs w' = filter (\<lambda>r. tfKey r \<noteq> k) (m_tfs w)"
  shows "memStored w' = (memStored w)(k := None)"
proof -
  have "find (\<lambda>r. tfKey r = x) (filter (\<lambda>r. tfKey r \<noteq> k) tfs) = (if x = k then None else find (\<lambda>r. tfKey r = x) tfs)" for x tfs
    by (induction tfs) auto
  then show ?thesis by (simp add: memStored_def listed_def assms fun_eq_iff)
qed

lemma memView_tfs [simp]: "memView (w\<lparr>m_tfs := tfs\<rparr>) = memView w"
  by (rule memView_eqI) simp

lemma memStored_objs [simp]: "memStored (w\<lparr>m_objs := obs\<rparr>) = memStored w" "memStored (w\<lparr>m_time := t\<rparr>) = memStored w"
  by (simp_all add: memStored_def listed_def fun_eq_iff)

lemma calm_untouched: "untouched (calmCluster key) memStored"
proof -
  have m: "untouched memCluster memStored"
    using mem_tf_store by (simp add: tf_store_def)
  have "leaves memStored (calmCreate ow ob)" for ow ob
  proof (cases "calmCreate ow ob = memCreate ow ob")
    case True
    have "leaves memStored (memCreate ow ob)" by (auto simp: leaves_def memCreate_def Let_def memStored_def listed_def)
    then show ?thesis using True by simp
  next
    case False
    then show ?thesis by (cases ob) (auto simp: leaves_def)
  qed
  then show ?thesis using m unfolding untouched_def calm_calls(1-7)
    by (auto simp: calmCluster_def leaves_def memCluster_def)
qed

lemma calm_tf_store: "tf_store (calmCluster key) memStored"
  unfolding tf_store_def
proof (intro conjI allI impI)
  show "untouched (calmCluster key) memStored" by (rule calm_untouched)
next
  fix k w tf w' assume "k_get_tf (calmCluster key) k w = (Inr tf, w')"
  then have "k_get_tf memCluster k w = (Inr tf, w')" by (simp add: calm_calls)
  then show "tfKey tf = k" "memStored w k = Some tf" using mem_tf_store unfolding tf_store_def by blast+
next
  fix tf w tf' w' assume "k_status_update_tf (calmCluster key) tf w = (Inr tf', w')"
  then have "tf' = tf" "m_tfs w' = storeBy tfKey tf (m_tfs w)" by (auto simp: calm_calls)
  then show "tfKey tf' = tfKey tf" "tf_status tf' = tf_status tf" "memStored w' \<in> {memStored w, (memStored w)(tfKey tf \<mapsto> tf')}"
    using memStored_put [of w' tf w] memStored_absent [of w tf w'] by auto
next
  fix tf w tf' w' assume "k_update_tf (calmCluster key) tf w = (Inr tf', w')"
  then have "tf' = tf" "m_tfs w' = calmUpdate tf (m_tfs w)" by (auto simp: calm_calls)
  then show "tfKey tf' = tfKey tf"
      "tfStage tf' = tfStage tf \<or> (\<exists>old. memStored w (tfKey tf) = Some old \<and> tfStage tf' = tfStage old)"
      "memStored w' \<in> {memStored w, (memStored w)(tfKey tf \<mapsto> tf'), (memStored w)(tfKey tf := None)}"
    using memStored_put [of w' tf w] memStored_absent [of w tf w'] memStored_remove [of w' "tfKey tf" w]
    by (auto simp: calmUpdate_def split: if_splits)
qed (simp_all add: calm_calls)

lemma calm_healthy: "healthy (calmCluster key) memStored memView"
  unfolding healthy_def
proof (intro conjI allI impI)
  show "tf_store (calmCluster key) memStored" by (rule calm_tf_store)
  show "store_laws (calmCluster key) memView" by (rule calm_store_laws)
next
  fix k w tf assume "memStored w k = Some tf"
  then show "k_get_tf (calmCluster key) k w = (Inr tf, w)"
    by (simp add: calm_calls mem_calls memGet_def memStored_def listed_def)
next
  fix tf st w assume t: "memStored w (tfKey tf) = Some tf"
  have k: "tfKey (tfSetStatus tf st) = tfKey tf" by (simp add: tfKey_def tfSetStatus_def)
  then have "memStored (w\<lparr>m_tfs := storeBy tfKey (tfSetStatus tf st) (m_tfs w)\<rparr>) = (memStored w)(tfKey tf \<mapsto> tfSetStatus tf st)"
    using memStored_put [of "w\<lparr>m_tfs := storeBy tfKey (tfSetStatus tf st) (m_tfs w)\<rparr>" "tfSetStatus tf st" w] t by simp
  then show "\<exists>w'. k_status_update_tf (calmCluster key) (tfSetStatus tf st) w = (Inr (tfSetStatus tf st), w') \<and>
      memStored w' = (memStored w)(tfKey tf \<mapsto> tfSetStatus tf st) \<and> memView w' = memView w"
    by (simp add: calm_calls)
next
  fix tf fs w assume t: "memStored w (tfKey tf) = Some tf"
  let ?tf = "tfSetFinalizers tf fs" and ?w = "w\<lparr>m_tfs := calmUpdate (tfSetFinalizers tf fs) (m_tfs w)\<rparr>"
  have k: "tfKey ?tf = tfKey tf" "tf_finalizers ?tf = fs" "tf_deletionTimestamp ?tf = tf_deletionTimestamp tf"
    by (simp_all add: tfKey_def tfSetFinalizers_def)
  have "memStored ?w = (memStored w)(tfKey tf := if fs = [] \<and> tf_deletionTimestamp tf \<noteq> None then None else Some ?tf)"
    using memStored_put [of ?w ?tf w] memStored_remove [of ?w "tfKey tf" w] t k by (auto simp: calmUpdate_def)
  then show "\<exists>w'. k_update_tf (calmCluster key) ?tf w = (Inr ?tf, w') \<and> memView w' = memView w \<and>
      memStored w' = (memStored w)(tfKey tf := if fs = [] \<and> tf_deletionTimestamp tf \<noteq> None then None else Some ?tf)"
    by (simp add: calm_calls)
next
  fix ow :: owner and p :: Pod and w assume "pod_name p = []"
  moreover have "sameObjects (memView w) (memView (w\<lparr>m_objs := m_objs w @ [namedObj (m_time w) (KPod p)]\<rparr>))"
    unfolding sameObjects_def by (auto simp: find_append split: option.splits)
  ultimately show "\<exists>n w'. k_create (calmCluster key) ow (KPod p) w = (Inr n, w') \<and> sameObjects (memView w) (memView w')"
    by (simp add: calm_calls)
next
  fix k w r w' assume d: "k_delete (calmCluster key) PodKind k w = (r, w')"
  let ?w = "w\<lparr>m_objs := filter (\<lambda>p. \<not> (kind_of p = PodKind \<and> obj_key p = k)) (m_objs w)\<rparr>"
  have "memView ?w = (memView w)((PodKind, k) := None)" by (rule memView_eqI) (use find_filter_other in simp)
  moreover have "w' = w \<or> w' = ?w" using d by (auto simp: calm_calls memCluster_def memDelete_def split: if_splits)
  ultimately show "sameObjects (memView w) (memView w')" by (auto simp: sameObjects_def simp del: memView.simps)
  fix e assume "r = Inl e"
  then show "\<not> is_panic e" using d by (auto simp: calm_calls memCluster_def memDelete_def split: if_splits)
next
  fix k w r w' assume g: "k_get_secret (calmCluster key) k w = (r, w')"
  then show "memView w' = memView w" by (auto simp: calm_calls memCluster_def memGet_def split: option.splits)
  fix e assume "r = Inl e"
  then show "\<not> is_panic e" using g by (auto simp: calm_calls memCluster_def memGet_def split: option.splits)
qed

lemma calm_succeed: "podsSucceed (calmCluster key) memStored memView key"
  by (auto simp: podsSucceed_def calm_calls calmPods_def podsSince_def succeededPod_def split: option.splits)

interpretation calm: healthy_cluster "calmCluster key" memStored memView key ul
    for key :: nsname and ul :: urllib
  by unfold_locales (rule calm_healthy calm_succeed)+

section \<open>Properties\<close>


definition inlined :: "Terraform \<Rightarrow> Terraform" where
  "inlined tf = tf\<lparr>tf_spec := exampleTfSpec\<lparr>tfs_module := exampleModule\<lparr>mod_inline := ''resource {}''\<rparr>\<rparr>\<rparr>"

lemma inlined_runnable: "tf_name tf \<noteq> [] \<Longrightarrow> runnable ul (inlined tf)"
  by (simp add: runnable_def inlined_def exampleTfSpec_def setupModule_def addDownloads_def volumesFit_def)

lemma inlined_schedule:
  "schedule tasksInOrder (tfs_taskOptions (tf_spec (inlined tf))) = [RunSetup, RunInit, RunPlan, RunApply]"
  "schedule deleteTasksInOrder (tfs_taskOptions (tf_spec (inlined tf))) =
     [RunSetupDelete, RunInitDelete, RunPlanDelete, RunApplyDelete]"
  by (simp_all add: inlined_def exampleTfSpec_def schedule_def order_defs defaultTasks_def)

lemma exampleReconciler_cacheTyped: "cacheTyped exampleReconciler []"
  by (simp add: cacheTyped_def)

definition exampleNew :: Terraform where
  "exampleNew = inlined (exampleTf\<lparr>tf_finalizers := [], tf_status := zeroTfStatus\<rparr>)"

abbreviation exampleCalls :: "nat \<Rightarrow> Terraform \<Rightarrow> (mem, Terraform) rstate" where
  "exampleCalls n tf \<equiv> again (reconcileLocked (calmCluster exampleKey) exampleUrllib exampleReconciler (\<lambda>i n. 0) exampleKey) n
     (exampleState tf)"



definition exampleDoomed :: Terraform where
  "exampleDoomed = inlined ((exampleAt RunNil StateComplete)\<lparr>tf_generation := 2, tf_deletionTimestamp := Some 7\<rparr>)"


end
