(* ===== verification/TofuStage.thy ===== *)
theory TofuStage
  imports TfStatus
begin

text \<open>
  How a \<open>Tofu\<close> resource moves from stage to stage (\<open>pkg/controllers/tofu_controller.go\<close>):
  \<open>newTofuStage\<close>, \<open>checkSetNewStage\<close> and the marks of \<open>reconcile\<close>, written from that file.
  The two kinds of resource hold the same data under different names: \<open>asTf\<close> reads a
  \<open>Tofu\<close> as the \<open>Terraform\<close> with the same data. Seen through \<open>asTf\<close> the Tofu
  controller takes the same decisions as the Terraform controller, so the laws of
  \<open>TfStage\<close> hold for it as well, and \<open>stage_controller\<close> is interpreted on it.
\<close>

section \<open>Changing parts of a resource\<close>

text \<open>Assignments \<open>tofu.Status.X = v\<close> through the pointer.\<close>

definition tofuSetStatus :: "Tofu \<Rightarrow> TofuStatus \<Rightarrow> Tofu" where
  "tofuSetStatus tofu s = tofu\<lparr>to_status := s\<rparr>"

definition tofuSetPhase :: "Tofu \<Rightarrow> StatusPhase \<Rightarrow> Tofu" where
  "tofuSetPhase tofu p = tofu\<lparr>to_status := (to_status tofu)\<lparr>tost_phase := p\<rparr>\<rparr>"

definition tofuSetStage :: "Tofu \<Rightarrow> Stage \<Rightarrow> Tofu" where
  "tofuSetStage tofu st = tofu\<lparr>to_status := (to_status tofu)\<lparr>tost_stage := st\<rparr>\<rparr>"

definition tofuSetPlugins :: "Tofu \<Rightarrow> TaskName list \<Rightarrow> Tofu" where
  "tofuSetPlugins tofu ps = tofu\<lparr>to_status := (to_status tofu)\<lparr>tost_pluginsStarted := ps\<rparr>\<rparr>"

abbreviation tofuStage :: "Tofu \<Rightarrow> Stage" where
  "tofuStage tofu \<equiv> tost_stage (to_status tofu)"

abbreviation tofuPhase :: "Tofu \<Rightarrow> StatusPhase" where
  "tofuPhase tofu \<equiv> tost_phase (to_status tofu)"

lemmas tofuSet_defs = tofuSetStatus_def tofuSetPhase_def tofuSetStage_def tofuSetPlugins_def

section \<open>New stages\<close>

definition newTofuStage :: "int \<Rightarrow> Tofu \<Rightarrow> TaskName \<Rightarrow> string \<Rightarrow> Interruptible \<Rightarrow> StageState \<Rightarrow> Stage \<times> Tofu" where
  "newTofuStage now tofu taskType reason interruptible stageState =
    (let tofu' = (if reason = ''GENERATION_CHANGE'' then tofuSetPhase (tofuSetPlugins tofu []) PhaseInitializing else tofu);
         startTime = now;
         stopTime = (if stageState = StateComplete then startTime else 0)
     in (\<lparr>stg_generation = to_generation tofu', stg_state = stageState, stg_taskType = taskType,
          stg_interruptible = interruptible, stg_reason = reason, stg_startTime = startTime,
          stg_stopTime = stopTime, stg_message = [], stg_podName = [], stg_podUID = []\<rparr>, tofu'))"

text \<open>The last lines of \<open>checkSetNewStage\<close>: a new stage, or nil.\<close>

definition tofuSetNewStage :: "'w kube \<Rightarrow> Tofu \<Rightarrow> TaskName \<Rightarrow> string \<Rightarrow> Interruptible \<Rightarrow> StageState
    \<Rightarrow> ('w, Stage option \<times> Tofu) io" where
  "tofuSetNewStage cl tofu podType reason interruptible stageState = (\<lambda>w.
    let (st, tofu') = newTofuStage (k_now cl w) tofu podType reason interruptible stageState
    in (Inr (Some st, tofu'), w))"

definition tofuNoNewStage :: "Tofu \<Rightarrow> ('w, Stage option \<times> Tofu) io" where
  "tofuNoNewStage tofu = io_return (None, tofu)"

text \<open>The branch of a failed apply: the workflow restarts when its pod is gone.\<close>

definition tofuRestartWhenPodGone :: "'w kube \<Rightarrow> Tofu \<Rightarrow> string \<Rightarrow> TaskName \<Rightarrow> TaskName list
    \<Rightarrow> ('w, Stage option \<times> Tofu) io" where
  "tofuRestartWhenPodGone cl tofu reason after configuredTasks =
    io_try (k_exists cl PodKind (to_namespace tofu, stg_podName (tofuStage tofu)))
      (\<lambda>err. if IsNotFound err
         then let podType = nextTask after configuredTasks
              in tofuSetNewStage cl tofu podType reason (isTaskInterruptable podType) StateInitializing
         else tofuNoNewStage tofu)
      (\<lambda>_. tofuNoNewStage tofu)"

definition tofuCheckSetNewStage :: "'w kube \<Rightarrow> bool \<Rightarrow> Tofu \<Rightarrow> ('w, Stage option \<times> Tofu) io" where
  "tofuCheckSetNewStage cl isRetry tofu =
    (let configuredTasks = getConfiguredTasks (Some (tos_taskOptions (to_spec tofu)));
         isToBeDeletedOrIsDeleting = ListContainsStr deletePhases (tofuPhase tofu);
         initDelete = (tofuPhase tofu = PhaseInitDelete);
         currentStage = tofuStage tofu;
         currentStageCanNotBeInterrupted = (stg_interruptible currentStage = CanNotBeInterrupt);
         currentStageIsRunning = (stg_state currentStage = StateInProgress);
         isNewGeneration = (stg_generation currentStage \<noteq> to_generation tofu)
     in
     if isRetry \<and> \<not> isToBeDeletedOrIsDeleting \<and> \<not> isNewGeneration then
       (case tost_retryEventReason (to_status tofu) of
          None \<Rightarrow> io_throw (ErrPanic ''nil pointer dereference'')
        | Some reason \<Rightarrow>
            let podType = (if hasSuffix reason ''.setup'' then RunSetup else RunInit)
            in tofuSetNewStage cl tofu podType reason (isTaskInterruptable podType) StateInitializing)
     else if isRetry \<and> isToBeDeletedOrIsDeleting \<and> \<not> isNewGeneration then
       (case tost_retryEventReason (to_status tofu) of
          None \<Rightarrow> io_throw (ErrPanic ''nil pointer dereference'')
        | Some reason \<Rightarrow>
            let podType = (if hasSuffix reason ''.setup'' then RunSetupDelete else RunInitDelete)
            in tofuSetNewStage cl tofu podType reason (isTaskInterruptable podType) StateInitializing)
     else if currentStageCanNotBeInterrupted \<and> currentStageIsRunning then tofuNoNewStage tofu
     else if isNewGeneration \<and> \<not> isToBeDeletedOrIsDeleting then
       tofuSetNewStage cl tofu RunSetup ''GENERATION_CHANGE'' CanBeInterrupt StateInitializing
     else if isNewGeneration \<and> initDelete then
       tofuSetNewStage cl tofu RunSetupDelete ''TF_RESOURCE_DELETED'' CanNotBeInterrupt StateInitializing
     else if isNewGeneration \<and> isToBeDeletedOrIsDeleting then
       tofuSetNewStage cl tofu RunSetupDelete ''TF_RESOURCE_DELETED'' CanBeInterrupt StateInitializing
     else if stg_state currentStage = StateComplete then
       (if stg_taskType currentStage = RunNil then tofuNoNewStage tofu
        else let podType = nextTask (stg_taskType currentStage) configuredTasks;
                 stageState = (if podType = RunNil then StateComplete else StateInitializing)
             in tofuSetNewStage cl tofu podType (''COMPLETED_'' @ toUpper (stg_taskType currentStage))
                  (isTaskInterruptable podType) stageState)
     else if stg_state currentStage = StateFailed then
       (if stg_taskType currentStage = RunApply then
          tofuRestartWhenPodGone cl tofu ''RESTARTED_WORKFLOW'' RunPostInit configuredTasks
        else if stg_taskType currentStage = RunApplyDelete then
          tofuRestartWhenPodGone cl tofu ''RESTARTED_DELETE_WORKFLOW'' RunPostInitDelete configuredTasks
        else tofuNoNewStage tofu)
     else tofuNoNewStage tofu)"

section \<open>Deletion and retry marks\<close>

text \<open>
  The two assignments of \<open>reconcile\<close> before \<open>checkSetNewStage\<close>, as for \<open>Terraform\<close>.
\<close>

definition tofuMarkDeletion :: "Tofu \<Rightarrow> Tofu" where
  "tofuMarkDeletion tofu =
    (if to_deletionTimestamp tofu \<noteq> None \<and> \<not> ListContainsStr [PhaseDeleting, PhaseInitDelete, PhaseDeleted] (tofuPhase tofu)
     then tofuSetPhase tofu PhaseInitDelete else tofu)"

definition tofuMarkRetry :: "int \<Rightarrow> Tofu \<Rightarrow> bool \<times> Tofu" where
  "tofuMarkRetry now tofu =
    (case map_of (to_labels tofu) changeCause of
       None \<Rightarrow> (False, tofu)
     | Some label \<Rightarrow>
         let retry = (case tost_retryEventReason (to_status tofu) of None \<Rightarrow> True | Some r \<Rightarrow> r \<noteq> label)
         in if retry
            then (True, tofuSetStatus tofu ((to_status tofu)\<lparr>tost_retryEventReason := Some label,
                    tost_retryTimestamp := Some now, tost_phase := PhaseInitializing\<rparr>))
            else (False, tofu))"

text \<open>
  \<open>tofuDeleting\<close> is the source's \<open>isToBeDeletedOrIsDeleting\<close>.
\<close>

definition tofuDeleting :: "Tofu \<Rightarrow> bool" where
  "tofuDeleting tofu = ListContainsStr deletePhases (tofuPhase tofu)"

section \<open>The same resource of the other kind\<close>

definition asTfImages :: "TofuImages \<Rightarrow> Images" where
  "asTfImages i = \<lparr>img_terraform = timg_tofu i, img_script = timg_script i, img_setup = timg_setup i\<rparr>"

definition asTofuImages :: "Images \<Rightarrow> TofuImages" where
  "asTofuImages i = \<lparr>timg_tofu = img_terraform i, timg_script = img_script i, timg_setup = img_setup i\<rparr>"

definition asTfSpec :: "TofuSpec \<Rightarrow> TerraformSpec" where
  "asTfSpec s = \<lparr>tfs_keepLatestPodsOnly = tos_keepLatestPodsOnly s,
     tfs_keepCompletedPods = tos_keepCompletedPods s, tfs_outputsSecret = tos_outputsSecret s,
     tfs_outputsToInclude = tos_outputsToInclude s, tfs_outputsToOmit = tos_outputsToOmit s,
     tfs_writeOutputsToStatus = tos_writeOutputsToStatus s,
     tfs_persistentVolumeSize = tos_persistentVolumeSize s,
     tfs_storageClassName = tos_storageClassName s, tfs_serviceAccount = tos_serviceAccount s,
     tfs_credentials = tos_credentials s, tfs_ignoreDelete = tos_ignoreDelete s,
     tfs_sshTunnel = tos_sshTunnel s, tfs_scmAuthMethods = tos_scmAuthMethods s,
     tfs_images = map_option asTfImages (tos_images s), tfs_setup = tos_setup s,
     tfs_module = tos_module s, tfs_version = tos_version s, tfs_backend = tos_backend s,
     tfs_taskOptions = tos_taskOptions s, tfs_plugins = tos_plugins s,
     tfs_requireApproval = tos_requireApproval s\<rparr>"

definition asTofuSpec :: "TerraformSpec \<Rightarrow> TofuSpec" where
  "asTofuSpec s = \<lparr>tos_keepLatestPodsOnly = tfs_keepLatestPodsOnly s,
     tos_keepCompletedPods = tfs_keepCompletedPods s, tos_outputsSecret = tfs_outputsSecret s,
     tos_outputsToInclude = tfs_outputsToInclude s, tos_outputsToOmit = tfs_outputsToOmit s,
     tos_writeOutputsToStatus = tfs_writeOutputsToStatus s,
     tos_persistentVolumeSize = tfs_persistentVolumeSize s,
     tos_storageClassName = tfs_storageClassName s, tos_serviceAccount = tfs_serviceAccount s,
     tos_credentials = tfs_credentials s, tos_ignoreDelete = tfs_ignoreDelete s,
     tos_sshTunnel = tfs_sshTunnel s, tos_scmAuthMethods = tfs_scmAuthMethods s,
     tos_images = map_option asTofuImages (tfs_images s), tos_setup = tfs_setup s,
     tos_module = tfs_module s, tos_version = tfs_version s, tos_backend = tfs_backend s,
     tos_taskOptions = tfs_taskOptions s, tos_plugins = tfs_plugins s,
     tos_requireApproval = tfs_requireApproval s\<rparr>"

definition asTfStatus :: "TofuStatus \<Rightarrow> TerraformStatus" where
  "asTfStatus s = \<lparr>tfst_podNamePrefix = tost_podNamePrefix s, tfst_phase = tost_phase s,
     tfst_lastCompletedGeneration = tost_lastCompletedGeneration s, tfst_outputs = tost_outputs s,
     tfst_stage = tost_stage s, tfst_pluginsStarted = tost_pluginsStarted s,
     tfst_retryEventReason = tost_retryEventReason s, tfst_retryTimestamp = tost_retryTimestamp s\<rparr>"

definition asTofuStatus :: "TerraformStatus \<Rightarrow> TofuStatus" where
  "asTofuStatus s = \<lparr>tost_podNamePrefix = tfst_podNamePrefix s, tost_phase = tfst_phase s,
     tost_lastCompletedGeneration = tfst_lastCompletedGeneration s, tost_outputs = tfst_outputs s,
     tost_stage = tfst_stage s, tost_pluginsStarted = tfst_pluginsStarted s,
     tost_retryEventReason = tfst_retryEventReason s, tost_retryTimestamp = tfst_retryTimestamp s\<rparr>"

definition asTf :: "Tofu \<Rightarrow> Terraform" where
  "asTf t = \<lparr>tf_name = to_name t, tf_namespace = to_namespace t, tf_uid = to_uid t,
     tf_generation = to_generation t, tf_labels = to_labels t, tf_finalizers = to_finalizers t,
     tf_deletionTimestamp = to_deletionTimestamp t, tf_spec = asTfSpec (to_spec t),
     tf_status = asTfStatus (to_status t)\<rparr>"

definition asTofu :: "Terraform \<Rightarrow> Tofu" where
  "asTofu t = \<lparr>to_name = tf_name t, to_namespace = tf_namespace t, to_uid = tf_uid t,
     to_generation = tf_generation t, to_labels = tf_labels t, to_finalizers = tf_finalizers t,
     to_deletionTimestamp = tf_deletionTimestamp t, to_spec = asTofuSpec (tf_spec t),
     to_status = asTofuStatus (tf_status t)\<rparr>"

lemma asTofu_images [simp]: "asTofuImages (asTfImages i) = i" "asTfImages (asTofuImages j) = j"
  by (simp_all add: asTofuImages_def asTfImages_def)

lemma asTofu_images_opt [simp]:
  "map_option asTofuImages (map_option asTfImages x) = x" "map_option asTfImages (map_option asTofuImages y) = y"
  by (cases x, simp_all) (cases y, simp_all)

lemma asTofu_spec [simp]: "asTofuSpec (asTfSpec s) = s" "asTfSpec (asTofuSpec r) = r"
  by (simp_all add: asTofuSpec_def asTfSpec_def del: option.map_comp)

lemma asTofu_status [simp]: "asTofuStatus (asTfStatus s) = s" "asTfStatus (asTofuStatus r) = r"
  by (simp_all add: asTofuStatus_def asTfStatus_def)

lemma asTofu_stage [simp]: "tofuStage (asTofu r) = tfStage r"
  by (simp add: asTofu_def asTofuStatus_def)

lemma asTofu_asTf [simp]: "asTofu (asTf t) = t" "asTf (asTofu r) = r"
  by (simp_all add: asTofu_def asTf_def)

lemma asTf_select [simp]:
  "tf_name (asTf t) = to_name t" "tf_namespace (asTf t) = to_namespace t"
  "tf_uid (asTf t) = to_uid t" "tf_generation (asTf t) = to_generation t"
  "tf_labels (asTf t) = to_labels t" "tf_finalizers (asTf t) = to_finalizers t"
  "tf_deletionTimestamp (asTf t) = to_deletionTimestamp t" "tf_spec (asTf t) = asTfSpec (to_spec t)"
  "tf_status (asTf t) = asTfStatus (to_status t)" "tfs_taskOptions (asTfSpec p) = tos_taskOptions p"
  "tfs_scmAuthMethods (asTfSpec p) = tos_scmAuthMethods p" "tfst_podNamePrefix (asTfStatus s) = tost_podNamePrefix s"
  "tfst_phase (asTfStatus s) = tost_phase s" "tfst_lastCompletedGeneration (asTfStatus s) = tost_lastCompletedGeneration s"
  "tfst_outputs (asTfStatus s) = tost_outputs s" "tfst_stage (asTfStatus s) = tost_stage s"
  "tfst_pluginsStarted (asTfStatus s) = tost_pluginsStarted s" "tfst_retryEventReason (asTfStatus s) = tost_retryEventReason s"
  "tfst_retryTimestamp (asTfStatus s) = tost_retryTimestamp s"
  by (simp_all add: asTf_def asTfSpec_def asTfStatus_def)

lemma asTf_assign [simp]:
  "asTf (tofuSetPhase t p) = tfSetPhase (asTf t) p" "asTf (tofuSetPlugins t ps) = tfSetPlugins (asTf t) ps"
  "asTf (tofuSetStage t st) = tfSetStage (asTf t) st" "asTf (tofuSetStatus t s) = tfSetStatus (asTf t) (asTfStatus s)"
  by (simp_all add: tofuSet_defs tfSet_defs asTf_def asTfStatus_def)

section \<open>The same decisions\<close>

text \<open>An answer about a \<open>Tofu\<close>, read as one about the \<open>Terraform\<close> with the same data.\<close>

definition answerAsTf :: "(goerr + 'a \<times> Tofu) \<times> 'w \<Rightarrow> (goerr + 'a \<times> Terraform) \<times> 'w" where
  "answerAsTf r = (map_sum id (map_prod id asTf) (fst r), snd r)"

lemma answerAsTf_simps [simp]:
  "answerAsTf (Inl e, w) = (Inl e, w)" "answerAsTf (Inr (x, t), w) = (Inr (x, asTf t), w)"
  by (simp_all add: answerAsTf_def)

lemma answerAsTf_InrD: "answerAsTf r = (Inr (x, u), w) \<Longrightarrow> r = (Inr (x, asTofu u), w)"
  by (cases r; cases "fst r") (auto simp: answerAsTf_def)

lemma same_newStage:
  "newStage now (asTf t) k r i s = map_prod id asTf (newTofuStage now t k r i s)"
  by (simp add: newStage_def newTofuStage_def Let_def) (simp add: tfSet_defs tofuSet_defs)

lemma same_setNewStage: "setNewStage cl (asTf t) k r i s w = answerAsTf (tofuSetNewStage cl t k r i s w)"
  by (simp add: setNewStage_def tofuSetNewStage_def same_newStage split: prod.splits)

lemma same_noNewStage: "noNewStage (asTf t) w = answerAsTf (tofuNoNewStage t w)"
  by (simp add: noNewStage_def tofuNoNewStage_def)

lemma same_restart:
  "restartWhenPodGone cl (asTf t) r after c w = answerAsTf (tofuRestartWhenPodGone cl t r after c w)"
  unfolding restartWhenPodGone_def tofuRestartWhenPodGone_def io_try_def Let_def
  by (simp add: same_setNewStage same_noNewStage split: prod.splits sum.splits)

lemma same_checkSetNewStage:
  "checkSetNewStage cl retry (asTf t) w = answerAsTf (tofuCheckSetNewStage cl retry t w)"
  unfolding checkSetNewStage_def tofuCheckSetNewStage_def Let_def
  by (simp add: same_setNewStage same_noNewStage same_restart split: option.split)

lemma same_markDeletion: "markDeletion (asTf t) = asTf (tofuMarkDeletion t)"
  by (simp add: markDeletion_def tofuMarkDeletion_def)

lemma same_markRetry: "markRetry now (asTf t) = map_prod id asTf (tofuMarkRetry now t)"
  by (simp add: markRetry_def tofuMarkRetry_def Let_def asTfStatus_def split: option.split)

text \<open>The moves of this controller: any resource, any cluster, any state of it.\<close>

definition tofuAdvance :: "'w kube \<Rightarrow> Stage \<Rightarrow> Stage \<Rightarrow> bool" where
  "tofuAdvance cl cur st \<longleftrightarrow> (\<exists>isRetry tofu w tofu' w'. tofuStage tofu = cur \<and>
     tofuCheckSetNewStage cl isRetry tofu w = (Inr (Some st, tofu'), w'))"

lemma tofuCheckSetNewStage_lawful:
  assumes "tofuCheckSetNewStage cl isRetry t w = (Inr (Some st, t'), w')"
  shows "stage_law (to_generation t) (tofuStage t) st"
  using checkSetNewStage_lawful [of cl isRetry "asTf t" w st "asTf t'" w'] assms by (simp add: same_checkSetNewStage)

interpretation tofu_stages: stage_controller "tofuAdvance cl" for cl :: "'w kube"
  by unfold_locales (auto simp: tofuAdvance_def dest: tofuCheckSetNewStage_lawful)

section \<open>Properties\<close>

text \<open>C7: The Tofu controller moves a resource exactly as the Terraform controller moves the
  \<open>Terraform\<close> with the same data: deletion and retry marks, the new stage, the error or panic
  instead of one, the resource afterwards and the state of the cluster all agree; and what
  it moves to, from any stage, in any state of any cluster, is what the law allows.\<close>

theorem tofu_moves_like_terraform:
  "markDeletion (asTf t) = asTf (tofuMarkDeletion t) \<and>
   markRetry now (asTf t) = map_prod id asTf (tofuMarkRetry now t) \<and>
   checkSetNewStage cl isRetry (asTf t) w = answerAsTf (tofuCheckSetNewStage cl isRetry t w) \<and>
   (\<forall>cur st. tofuAdvance cl cur st \<longleftrightarrow> tfAdvance cl cur st)"
proof -
  have "tofuAdvance cl cur st" if a: "tfAdvance cl cur st" for cur st
  proof -
    obtain retry r v r' v' where "tfStage r = cur" "checkSetNewStage cl retry r v = (Inr (Some st, r'), v')"
      using a by (auto simp: tfAdvance_def)
    then have "tofuStage (asTofu r) = cur"
        "tofuCheckSetNewStage cl retry (asTofu r) v = (Inr (Some st, asTofu r'), v')"
      using same_checkSetNewStage [of cl retry "asTofu r" v] by (simp_all add: answerAsTf_InrD)
    then show ?thesis unfolding tofuAdvance_def by blast
  qed
  moreover have "tfAdvance cl cur st" if a: "tofuAdvance cl cur st" for cur st
  proof -
    obtain retry r v r' v' where "tofuStage r = cur" "tofuCheckSetNewStage cl retry r v = (Inr (Some st, r'), v')"
      using a by (auto simp: tofuAdvance_def)
    then have "tfStage (asTf r) = cur" "checkSetNewStage cl retry (asTf r) v = (Inr (Some st, asTf r'), v')"
      by (simp_all add: same_checkSetNewStage)
    then show ?thesis unfolding tfAdvance_def by blast
  qed
  ultimately show ?thesis by (auto simp: same_markDeletion same_markRetry same_checkSetNewStage)
qed

end
