(* ===== verification/TofuStatus.thy ===== *)
theory TofuStatus
  imports TofuStage
begin

text \<open>
  Writing a \<open>Tofu\<close> resource back (\<open>pkg/controllers/tofu_controller.go\<close>): its finalizer,
  the finalizers that lock its git secrets, \<open>update\<close> and \<open>updateStatusWithRetry\<close>. The file
  repeats the code of the Terraform controller on the other type; the methods that do not
  mention the resource (\<open>lockGitSecretDeletion\<close>, \<open>unlockGitSecretDeletion\<close> and the loop over
  the secrets) have one model for both. \<open>tfView\<close> is a cluster whose \<open>Tofu\<close> resources are
  read and written as \<open>Terraform\<close> resources; on it the Terraform controller writes what
  the Tofu controller writes on the cluster itself.
\<close>

section \<open>The finalizer\<close>

definition tofuSetFinalizers :: "Tofu \<Rightarrow> string list \<Rightarrow> Tofu" where
  "tofuSetFinalizers tofu fs = tofu\<lparr>to_finalizers := fs\<rparr>"

text \<open>
  The answer of \<open>updateTofuFinalizer\<close> and the resource it leaves; \<open>None\<close> where \<open>ListRemoveStr\<close>
  panics.
\<close>

definition updateTofuFinalizer :: "Tofu \<Rightarrow> (bool \<times> Tofu) option" where
  "updateTofuFinalizer tofu =
    (let finalizers = to_finalizers tofu;
         remove = map_option (\<lambda>fs. (True, tofuSetFinalizers tofu fs)) (ListRemoveStr finalizers tfFinalizer)
     in
     if tofuPhase tofu = PhaseDeleted \<and> ListContainsStr finalizers tfFinalizer then remove
     else if tos_ignoreDelete (to_spec tofu) \<and> 0 < length finalizers \<and> ListContainsStr finalizers tfFinalizer then remove
     else if \<not> tos_ignoreDelete (to_spec tofu) \<and> \<not> ListContainsStr finalizers tfFinalizer
       then Some (True, tofuSetFinalizers tofu (finalizers @ [tfFinalizer]))
     else Some (False, tofu))"

section \<open>The locks on git secrets\<close>

definition tofuGetGitSecrets :: "Tofu \<Rightarrow> gitSecret list option" where
  "tofuGetGitSecrets tofu = collectGitSecrets (to_namespace tofu) (tos_ignoreDelete (to_spec tofu)) (tos_scmAuthMethods (to_spec tofu))"

definition tofuUpdateSecretFinalizer :: "'w kube \<Rightarrow> Tofu \<Rightarrow> ('w, unit) io" where
  "tofuUpdateSecretFinalizer cl tofu =
    (case tofuGetGitSecrets tofu of
       None \<Rightarrow> io_throw (ErrPanic ''nil pointer dereference'')
     | Some secrets \<Rightarrow> lockGitSecrets cl (to_name tofu) (tofuPhase tofu) secrets)"

section \<open>Writing the resource\<close>

text \<open>\<open>update\<close>: the resource as it is afterwards.\<close>

definition updateTofu :: "'w kube \<Rightarrow> Tofu \<Rightarrow> ('w, Tofu) io" where
  "updateTofu cl tofu =
    io_try (k_update_tofu cl tofu)
      (\<lambda>err. io_throw (ErrMsg (''failed to update tofu resource: '' @ err_text err))) io_return"

text \<open>The comparison of the confirming loop of \<open>updateStatusWithRetry\<close>.\<close>

definition tofuStatusConfirmed :: "TofuStatus \<Rightarrow> TofuStatus \<Rightarrow> bool" where
  "tofuStatusConfirmed have desired \<longleftrightarrow>
    TaskListsAreEqual (tost_pluginsStarted have) (tost_pluginsStarted desired) \<and>
    StageIsEqual (tost_stage have) (tost_stage desired) = [] \<and>
    tost_phase have = tost_phase desired \<and>
    tost_podNamePrefix have = tost_podNamePrefix desired"

text \<open>The confirming loop, over the rounds that remain; its answer is \<open>isUpdateConfirmed\<close>.\<close>

fun tofuConfirmStatus :: "'w kube \<Rightarrow> nsname \<Rightarrow> TofuStatus \<Rightarrow> nat \<Rightarrow> ('w, bool) io" where
  "tofuConfirmStatus cl key desired 0 = io_return False"
| "tofuConfirmStatus cl key desired (Suc j) =
     io_try (getTofuResource cl key 10)
       (\<lambda>err. io_throw (ErrMsg (''failed to get latest tofu while validating status: '' @ err_text err)))
       (\<lambda>tofu. if tofuStatusConfirmed (to_status tofu) desired then io_return True else tofuConfirmStatus cl key desired j)"

text \<open>
  The rounds of the writing loop after the first: read the resource, put the desired
  status into it, write, confirm. \<open>updateErr\<close> is the error of the last write. The
  pauses between the rounds do not show in the result.
\<close>

definition tofuUpdateResult :: "goerr option \<Rightarrow> ('w, unit) io" where
  "tofuUpdateResult updateErr =
    (case updateErr of
       Some err \<Rightarrow> io_throw (ErrMsg (''failed to update tofu status: '' @ err_text err))
     | None \<Rightarrow> io_return ())"

fun tofuUpdateStatusRounds :: "'w kube \<Rightarrow> nsname \<Rightarrow> TofuStatus \<Rightarrow> nat \<Rightarrow> goerr option \<Rightarrow> ('w, unit) io" where
  "tofuUpdateStatusRounds cl key desired 0 updateErr = tofuUpdateResult updateErr"
| "tofuUpdateStatusRounds cl key desired (Suc i) updateErr =
     io_try (getTofuResource cl key 10)
       (\<lambda>err. io_throw (ErrMsg (''failed to get latest tofu while updating status: '' @ err_text err)))
       (\<lambda>tofu. io_try (k_status_update_tofu cl (tofuSetStatus tofu desired))
          (\<lambda>err. tofuUpdateStatusRounds cl key desired i (Some err))
          (\<lambda>_. io_bind (tofuConfirmStatus cl key desired 10)
             (\<lambda>confirmed. if confirmed then io_return () else tofuUpdateStatusRounds cl key desired i None)))"

text \<open>
  \<open>updateStatusWithRetry\<close>. The first write goes through the caller's pointer, so on
  success the caller's resource is what the API server answered. Every caller but one
  passes \<open>&tofu.Status\<close> as the desired status (\<open>alias\<close>), which then is that answer's
  status; the other passes a copy. The caller goes on with its resource also when an
  error is returned, so the result is the error, if any, with the resource.
\<close>

definition tofuWithResource :: "Tofu \<Rightarrow> ('w, unit) io \<Rightarrow> ('w, goerr option \<times> Tofu) io" where
  "tofuWithResource tofu m = io_try m (\<lambda>err. io_return (Some err, tofu)) (\<lambda>_. io_return (None, tofu))"

definition tofuUpdateStatusWithRetry :: "'w kube \<Rightarrow> bool \<Rightarrow> Tofu \<Rightarrow> TofuStatus
    \<Rightarrow> ('w, goerr option \<times> Tofu) io" where
  "tofuUpdateStatusWithRetry cl alias tofu desiredStatus =
    io_try (k_status_update_tofu cl tofu)
      (\<lambda>err. tofuWithResource tofu (tofuUpdateStatusRounds cl (tofuKey tofu) desiredStatus 9 (Some err)))
      (\<lambda>tofu'. let desired = (if alias then to_status tofu' else desiredStatus) in
         tofuWithResource tofu' (io_bind (tofuConfirmStatus cl (tofuKey tofu) desired 10)
           (\<lambda>confirmed. if confirmed then io_return () else tofuUpdateStatusRounds cl (tofuKey tofu) desired 9 None)))"

text \<open>The usual call \<open>updateStatusWithRetry(ctx, tofu, &tofu.Status, logger)\<close>.\<close>

definition tofuSaveStatus :: "'w kube \<Rightarrow> Tofu \<Rightarrow> ('w, goerr option \<times> Tofu) io" where
  "tofuSaveStatus cl tofu = tofuUpdateStatusWithRetry cl True tofu (to_status tofu)"


section \<open>Reading Tofu resources as Terraform resources\<close>

definition tfView :: "'w kube \<Rightarrow> 'w kube" where
  "tfView cl = cl\<lparr>
     k_get_tf := \<lambda>key w. map_prod (map_sum id asTf) id (k_get_tofu cl key w),
     k_update_tf := \<lambda>r w. map_prod (map_sum id asTf) id (k_update_tofu cl (asTofu r) w),
     k_status_update_tf := \<lambda>r w. map_prod (map_sum id asTf) id (k_status_update_tofu cl (asTofu r) w)\<rparr>"

lemma tfView_calls [simp]:
  "k_get_tf (tfView cl) key w = map_prod (map_sum id asTf) id (k_get_tofu cl key w)"
  "k_update_tf (tfView cl) r w = map_prod (map_sum id asTf) id (k_update_tofu cl (asTofu r) w)"
  "k_status_update_tf (tfView cl) r w = map_prod (map_sum id asTf) id (k_status_update_tofu cl (asTofu r) w)"
  "k_get_secret (tfView cl) = k_get_secret cl" "k_update_secret (tfView cl) = k_update_secret cl"
  by (simp_all add: tfView_def)

text \<open>
  Two calls that end alike: in the same state of the world, with corresponding values, or
  both with an error (a panic only for a panic). The texts of the errors name the kind of
  the resource and differ.
\<close>

definition alike :: "('a \<Rightarrow> 'b \<Rightarrow> bool) \<Rightarrow> (goerr + 'a) \<times> 'w \<Rightarrow> (goerr + 'b) \<times> 'w \<Rightarrow> bool" where
  "alike R r r' \<longleftrightarrow> snd r' = snd r \<and>
    (case (fst r, fst r') of
       (Inl e, Inl e') \<Rightarrow> is_panic e' = is_panic e
     | (Inr x, Inr y) \<Rightarrow> R x y
     | _ \<Rightarrow> False)"

text \<open>The resource of one call corresponds to that of the other.\<close>

definition sameTf :: "Tofu \<Rightarrow> Terraform \<Rightarrow> bool" where
  "sameTf t r \<longleftrightarrow> r = asTf t"

text \<open>The answers of \<open>updateStatusWithRetry\<close>: an error for an error, and the resource.\<close>

definition sameSaved :: "goerr option \<times> Tofu \<Rightarrow> goerr option \<times> Terraform \<Rightarrow> bool" where
  "sameSaved a b \<longleftrightarrow> (fst a = None \<longleftrightarrow> fst b = None) \<and> sameTf (snd a) (snd b)"

lemma alike_simps [simp]:
  "alike R (Inr x, w) (Inr y, w') \<longleftrightarrow> w' = w \<and> R x y"
  "alike R (Inl e, w) (Inl e', w') \<longleftrightarrow> w' = w \<and> is_panic e' = is_panic e"
  "\<not> alike R (Inr x, w) (Inl e', w')" "\<not> alike R (Inl e, w) (Inr y, w')"
  by (simp_all add: alike_def)

lemma alike_mapped: "alike sameTf r (map_prod (map_sum id asTf) id r)"
  by (cases r; cases "fst r") (auto simp: alike_def sameTf_def)

lemma alike_bind:
  assumes "alike R (m w) (m' w)" and "\<And>x y v. R x y \<Longrightarrow> alike S (k x v) (k' y v)"
  shows "alike S (io_bind m k w) (io_bind m' k' w)"
proof (cases "m w"; cases "m' w")
  fix r v r' v' assume "m w = (r, v)" "m' w = (r', v')"
  then show ?thesis using assms by (cases r; cases r') (auto simp: io_bind_def)
qed

lemma alike_try:
  assumes "alike R (m w) (m' w)" and "\<And>x y v. R x y \<Longrightarrow> alike S (k x v) (k' y v)"
    and "\<And>e e' v. alike S (h e v) (h' e' v)"
  shows "alike S (io_try m h k w) (io_try m' h' k' w)"
proof (cases "m w"; cases "m' w")
  fix r v r' v' assume "m w = (r, v)" "m' w = (r', v')"
  then show ?thesis using assms by (cases r; cases r') (auto simp: io_try_def)
qed

lemma alike_getResource: "alike sameTf (getTofuResource cl key n w) (getTfResource (tfView cl) key n w)"
  unfolding getTfResource_def getTofuResource_def
proof (induction n arbitrary: w)
  case 0
  show ?case by (simp add: sameTf_def zeroTf_def zeroTofu_def asTf_def asTfSpec_def asTfStatus_def
        zeroTfStatus_def zeroTofuStatus_def)
next
  case (Suc n)
  obtain r v where "k_get_tofu cl key w = (r, v)" by (rule prod.exhaust)
  then show ?case using Suc [of v] by (cases r) (auto simp: sameTf_def)
qed

section \<open>The same writes\<close>

lemma same_updateFinalizer:
  "updateFinalizer (asTf t) = map_option (map_prod id asTf) (updateTofuFinalizer t)"
proof -
  have "asTf (tofuSetFinalizers t fs) = tfSetFinalizers (asTf t) fs" for fs
    by (simp add: tofuSetFinalizers_def tfSetFinalizers_def asTf_def)
  moreover have "tfs_ignoreDelete (asTfSpec p) = tos_ignoreDelete p" for p by (simp add: asTfSpec_def)
  ultimately show ?thesis
    by (simp add: updateFinalizer_def updateTofuFinalizer_def Let_def option.map_comp o_def)
qed

lemma same_updateSecretFinalizer: "updateSecretFinalizer (tfView cl) (asTf t) = tofuUpdateSecretFinalizer cl t"
proof -
  have "loadSecret (tfView cl) = loadSecret cl" by (intro ext) (simp add: loadSecret_def)
  then have "lockGitSecretDeletion (tfView cl) = lockGitSecretDeletion cl"
       "unlockGitSecretDeletion (tfView cl) = unlockGitSecretDeletion cl"
    by (intro ext; simp add: lockGitSecretDeletion_def unlockGitSecretDeletion_def cong: if_cong)+
  moreover have "getGitSecrets (asTf t) = tofuGetGitSecrets t"
    by (simp add: getGitSecrets_def tofuGetGitSecrets_def asTfSpec_def)
  ultimately show ?thesis by (simp cong: if_cong add: updateSecretFinalizer_def tofuUpdateSecretFinalizer_def lockGitSecrets_def split: option.split)
qed

lemma same_update: "alike sameTf (updateTofu cl t w) (updateTf (tfView cl) (asTf t) w)"
  unfolding updateTf_def updateTofu_def
  by (rule alike_try [where R = sameTf]) (simp_all add: alike_mapped)

lemma same_confirmed: "statusConfirmed (asTfStatus a) (asTfStatus b) = tofuStatusConfirmed a b"
  by (simp add: statusConfirmed_def tofuStatusConfirmed_def)

lemma same_confirmStatus:
  "alike (=) (tofuConfirmStatus cl key desired n w) (confirmStatus (tfView cl) key (asTfStatus desired) n w)"
proof (induction n arbitrary: w)
  case (Suc n)
  show ?case unfolding confirmStatus.simps tofuConfirmStatus.simps
    by (rule alike_try, rule alike_getResource) (use Suc in \<open>simp_all add: same_confirmed sameTf_def\<close>)
qed simp

lemma same_statusWrite:
  "alike sameTf (k_status_update_tofu cl t w) (k_status_update_tf (tfView cl) (asTf t) w)"
  by (simp add: alike_mapped)

lemma same_updateStatusRounds:
  assumes "e = None \<longleftrightarrow> e' = None"
  shows "alike (=) (tofuUpdateStatusRounds cl key desired n e w)
    (updateStatusRounds (tfView cl) key (asTfStatus desired) n e' w)"
  using assms
proof (induction n arbitrary: e e' w)
  case 0
  then show ?case by (auto simp: updateResult_def tofuUpdateResult_def split: option.split)
next
  case (Suc n)
  have wr: "alike sameTf (k_status_update_tofu cl (tofuSetStatus t desired) v)
      (k_status_update_tf (tfView cl) (tfSetStatus r (asTfStatus desired)) v)" if sm: "sameTf t r" for t r v
    using same_statusWrite [of cl "tofuSetStatus t desired" v] sm by (simp add: sameTf_def)
  show ?case unfolding updateStatusRounds.simps tofuUpdateStatusRounds.simps
    by (rule alike_try, rule alike_getResource, rule alike_try, rule wr, assumption,
        rule alike_bind, rule same_confirmStatus) (use Suc in simp_all)
qed

lemma same_withResource:
  assumes "alike (=) (m w) (m' w)" and "sameTf t r"
  shows "alike sameSaved (tofuWithResource t m w) (withResource r m' w)"
  unfolding tofuWithResource_def withResource_def
  by (rule alike_try, rule assms(1)) (use assms(2) in \<open>simp_all add: sameSaved_def\<close>)

lemma same_updateStatusWithRetry:
  "alike sameSaved (tofuUpdateStatusWithRetry cl aliased t s w)
     (updateStatusWithRetry (tfView cl) aliased (asTf t) (asTfStatus s) w)"
proof -
  have key: "tfKey (asTf t) = tofuKey t" by (simp add: tfKey_def tofuKey_def)
  have confirm: "alike (=) (io_bind (tofuConfirmStatus cl key d 10)
         (\<lambda>confirmed. if confirmed then io_return () else tofuUpdateStatusRounds cl key d 9 None) v)
      (io_bind (confirmStatus (tfView cl) key (asTfStatus d) 10)
         (\<lambda>confirmed. if confirmed then io_return () else updateStatusRounds (tfView cl) key (asTfStatus d) 9 None) v)"
    for key d v
    by (rule alike_bind, rule same_confirmStatus) (simp_all add: same_updateStatusRounds)
  show ?thesis unfolding updateStatusWithRetry_def tofuUpdateStatusWithRetry_def Let_def key
  proof (rule alike_try, rule same_statusWrite)
    fix t' r v assume "sameTf t' r"
    then have d: "(if aliased then tf_status r else asTfStatus s) = asTfStatus (if aliased then to_status t' else s)"
      by (simp add: sameTf_def)
    show "alike sameSaved
       (tofuWithResource t' (io_bind (tofuConfirmStatus cl (tofuKey t) (if aliased then to_status t' else s) 10)
          (\<lambda>confirmed. if confirmed then io_return ()
             else tofuUpdateStatusRounds cl (tofuKey t) (if aliased then to_status t' else s) 9 None)) v)
       (withResource r (io_bind (confirmStatus (tfView cl) (tofuKey t) (if aliased then tf_status r else asTfStatus s) 10)
          (\<lambda>confirmed. if confirmed then io_return ()
             else updateStatusRounds (tfView cl) (tofuKey t) (if aliased then tf_status r else asTfStatus s) 9 None)) v)"
      unfolding d by (rule same_withResource, rule confirm, rule \<open>sameTf t' r\<close>)
  qed (rule same_withResource, rule same_updateStatusRounds, simp_all add: sameTf_def)
qed

section \<open>Properties\<close>

text \<open>C8: The Tofu controller writes resources back as the Terraform controller does: its finalizers
  change alike, the git secrets get and lose the same locks, and \<open>update\<close> and
  \<open>updateStatusWithRetry\<close> end in the same state of the cluster, with the same resource, and
  with an error exactly when the other does, whatever the cluster answers to the calls.\<close>

theorem tofu_writes_like_terraform:
  "updateFinalizer (asTf t) = map_option (map_prod id asTf) (updateTofuFinalizer t) \<and>
   updateSecretFinalizer (tfView cl) (asTf t) w = tofuUpdateSecretFinalizer cl t w \<and>
   alike sameTf (updateTofu cl t w) (updateTf (tfView cl) (asTf t) w) \<and>
   alike sameSaved (tofuUpdateStatusWithRetry cl aliased t s w)
     (updateStatusWithRetry (tfView cl) aliased (asTf t) (asTfStatus s) w)"
  by (simp add: same_updateFinalizer same_updateSecretFinalizer same_update same_updateStatusWithRetry)

end
