(* ===== verification/TofuResources.thy ===== *)
theory TofuResources
  imports TofuStatus TfResources
begin

text \<open>
  The objects around the pods of a \<open>Tofu\<close> resource
  (\<open>pkg/controllers/tofu_controller.go\<close>): the Terraform controller's functions over one
  pair of helpers, \<open>resourceExists\<close> and \<open>deleteAndCreate\<close>. They differ from the Terraform
  controller's in what they do when an object is gone by the time it is deleted. \<open>twin\<close>
  is the cluster as a controller acting for another owner sees it, on which such a delete
  succeeds; on it the Terraform controller creates what the Tofu controller creates.
\<close>

section \<open>The helpers\<close>

text \<open>\<open>Get\<close>: not found is no error.\<close>

definition resourceExists :: "'w kube \<Rightarrow> kind \<Rightarrow> nsname \<Rightarrow> ('w, bool) io" where
  "resourceExists cl k key =
    io_try (k_exists cl k key)
      (\<lambda>err. if IsNotFound err then io_return False else io_throw err)
      (\<lambda>_. io_return True)"

text \<open>\<open>Delete\<close> of an object just read; that it is not there any more is no error.\<close>

definition deleteExisting :: "'w kube \<Rightarrow> kind \<Rightarrow> nsname \<Rightarrow> ('w, unit) io" where
  "deleteExisting cl k key =
    io_try (k_exists cl k key)
      (\<lambda>err. if IsNotFound err then io_return () else io_throw err)
      (\<lambda>_. io_try (k_delete cl k key)
         (\<lambda>delErr. if IsNotFound delErr then io_return () else io_throw delErr)
         (\<lambda>_. io_return ()))"

definition deleteAndCreate :: "'w kube \<Rightarrow> Tofu \<Rightarrow> kobj \<Rightarrow> ('w, unit) io" where
  "deleteAndCreate cl tofu ob =
    io_seq
      [deleteExisting cl (kind_of ob) (obj_key ob),
       io_try (k_create cl (tofuOwner tofu) ob)
         (recordCreateError cl (tofuOwner tofu) (kind_of ob))
         (recordCreated cl (tofuOwner tofu) (kind_of ob))]"

section \<open>The global environment and the volume claim\<close>

definition tofuCreateEnvFromSources :: "'w kube \<Rightarrow> reconciler \<Rightarrow> Tofu \<Rightarrow> ('w, unit) io" where
  "tofuCreateEnvFromSources cl rc tofu =
    io_seq
      [if 0 < length (rc_globalEnvFromConfigmapData rc)
       then createOrUpdate cl (tofuOwner tofu) (envConfigMap rc (to_name tofu) (to_namespace tofu)) else io_return (),
       if 0 < length (rc_globalEnvFromSecretData rc)
       then createOrUpdate cl (tofuOwner tofu) (envSecret rc (to_name tofu) (to_namespace tofu)) else io_return ()]"

definition tofuListEnvFromSources :: "reconciler \<Rightarrow> Tofu \<Rightarrow> EnvFromSource list" where
  "tofuListEnvFromSources rc tofu =
    (if 0 < length (rc_globalEnvFromConfigmapData rc) then [ConfigMapRef (envFromName rc (to_name tofu))] else []) @
    (if 0 < length (rc_globalEnvFromSecretData rc) then [SecretRef (envFromName rc (to_name tofu))] else [])"

text \<open>An error of the check is dropped: the function then returns without a claim.\<close>

definition tofuCreatePVC :: "'w kube \<Rightarrow> Tofu \<Rightarrow> TaskOptions \<Rightarrow> ('w, unit) io" where
  "tofuCreatePVC cl tofu runOpts =
    io_try (resourceExists cl PVCKind (o_namespace runOpts, o_prefixedName runOpts))
      (\<lambda>_. io_return ())
      (\<lambda>found. if found then io_return ()
         else
           let persistentVolumeSize = (case tos_persistentVolumeSize (to_spec tofu) of None \<Rightarrow> ''2Gi'' | Some q \<Rightarrow> q)
           in createReported cl (tofuOwner tofu)
                (KPVC (generatePVC runOpts persistentVolumeSize (tos_storageClassName (to_spec tofu)))))"

section \<open>Secrets, pods and jobs\<close>

definition tofuCreateSecret :: "'w kube \<Rightarrow> Tofu \<Rightarrow> string \<Rightarrow> string \<Rightarrow> (string, string) gomap \<Rightarrow> bool
    \<Rightarrow> string list \<Rightarrow> TaskOptions \<Rightarrow> ('w, unit) io" where
  "tofuCreateSecret cl tofu name namespace data recr labelsToOmit runOpts =
    (let secretObj = secretOf name namespace data labelsToOmit runOpts in
     io_seq
       [if recr then deleteExisting cl SecretKind (sec_namespace secretObj, sec_name secretObj) else io_return (),
        io_try (k_create cl (tofuOwner tofu) (KSecret secretObj))
          (\<lambda>err. if \<not> recr \<and> IsAlreadyExists err then io_return ()
             else recordCreateError cl (tofuOwner tofu) SecretKind err)
          (recordCreated cl (tofuOwner tofu) SecretKind)])"

definition tofuCreatePod :: "'w kube \<Rightarrow> Tofu \<Rightarrow> TaskOptions \<Rightarrow> ('w, unit) io" where
  "tofuCreatePod cl tofu runOpts =
    (case generatePod runOpts of
       Inl err \<Rightarrow> io_seq [io_modify (k_event cl (tofuOwner tofu) ''Warning'' (kind_name PodKind @ ''CreateError'') (err_text err)),
                          io_throw err]
     | Inr resource \<Rightarrow> createReported cl (tofuOwner tofu) (KPod resource))"

definition tofuCreateJob :: "'w kube \<Rightarrow> Tofu \<Rightarrow> TaskOptions \<Rightarrow> ('w, unit) io" where
  "tofuCreateJob cl tofu runOpts =
    (case generateJob runOpts of
       Inl err \<Rightarrow> io_throw err
     | Inr resource \<Rightarrow> createReported cl (tofuOwner tofu) (KJob resource))"

section \<open>Running a stage\<close>

text \<open>The pattern of the checks in \<open>run\<close>.\<close>

definition tofuRequireObject :: "'w kube \<Rightarrow> kind \<Rightarrow> nsname \<Rightarrow> ('w, unit) io" where
  "tofuRequireObject cl k key =
    io_bind (resourceExists cl k key)
      (\<lambda>found. if found then io_return ()
         else io_throw (ErrMsg (''could not find '' @ kind_name k @ '' '' @ quoted (nsname_text key))))"

text \<open>The first branch of \<open>run\<close>.\<close>

definition tofuOutputsLabelsToOmit :: "TaskOptions \<Rightarrow> string list" where
  "tofuOutputsLabelsToOmit runOpts =
    (if o_stripGenerationLabelOnOutputsSecret runOpts then [tofuLabelPrefix @ ''generation''] else [])"

definition tofuCreateObjects :: "'w kube \<Rightarrow> reconciler \<Rightarrow> Tofu \<Rightarrow> TaskOptions \<Rightarrow> ('w, unit) io" where
  "tofuCreateObjects cl rc tofu runOpts = io_seq
    ([tofuCreateEnvFromSources cl rc tofu,
      tofuCreatePVC cl tofu runOpts,
      tofuCreateSecret cl tofu (o_versionedName runOpts) (o_namespace runOpts) (o_secretData runOpts) True [] runOpts,
      deleteAndCreate cl tofu (KConfigMap (generateConfigMap runOpts)),
      deleteAndCreate cl tofu (KRoleBinding (generateRoleBinding runOpts)),
      deleteAndCreate cl tofu (KRole (generateRole runOpts))] @
     (if tos_serviceAccount (to_spec tofu) = [] then [deleteAndCreate cl tofu (KServiceAccount (generateServiceAccount runOpts))] else []) @
     [tofuCreateSecret cl tofu (o_outputsSecretName runOpts) (o_namespace runOpts) [] False
        (tofuOutputsLabelsToOmit runOpts) runOpts])"

text \<open>The second branch.\<close>

definition tofuCheckObjects :: "'w kube \<Rightarrow> TaskOptions \<Rightarrow> ('w, unit) io" where
  "tofuCheckObjects cl runOpts =
    (let versionedKey = (o_namespace runOpts, o_versionedName runOpts) in
     io_seq
      [tofuRequireObject cl PVCKind (o_namespace runOpts, o_prefixedName runOpts),
       tofuRequireObject cl ConfigMapKind versionedKey,
       tofuRequireObject cl SecretKind versionedKey,
       tofuRequireObject cl RoleBindingKind versionedKey,
       tofuRequireObject cl RoleKind versionedKey,
       tofuRequireObject cl ServiceAccountKind (o_namespace runOpts, o_serviceAccount runOpts)])"

definition tofuRun :: "'w kube \<Rightarrow> reconciler \<Rightarrow> Tofu \<Rightarrow> TaskOptions \<Rightarrow> bool \<Rightarrow> bool \<Rightarrow> ('w, unit) io" where
  "tofuRun cl rc tofu runOpts isNewGeneration isFirstInstall = io_seq
    [if isFirstInstall \<or> isNewGeneration then tofuCreateObjects cl rc tofu runOpts else tofuCheckObjects cl runOpts,
     tofuCreatePod cl tofu runOpts]"

section \<open>The cluster seen by a controller that acts for another owner\<close>

definition twin :: "'w kube \<Rightarrow> owner \<Rightarrow> 'w kube" where
  "twin cl ow = cl\<lparr>
     k_create := \<lambda>_. k_create cl ow, k_update := \<lambda>_. k_update cl ow, k_event := \<lambda>_. k_event cl ow,
     k_delete := \<lambda>k key. io_try (k_delete cl k key)
       (\<lambda>err. if IsNotFound err then io_return () else io_throw err) (\<lambda>_. io_return ())\<rparr>"

lemma twin_calls [simp]:
  "k_create (twin cl ow) ow' = k_create cl ow" "k_update (twin cl ow) ow' = k_update cl ow"
  "k_event (twin cl ow) ow' = k_event cl ow" "k_exists (twin cl ow) = k_exists cl"
  "k_delete (twin cl ow) k key = io_try (k_delete cl k key)
       (\<lambda>err. if IsNotFound err then io_return () else io_throw err) (\<lambda>_. io_return ())"
  by (simp_all add: twin_def)

text \<open>On a server that keeps the store laws nothing is gone before it is deleted.\<close>

lemma twin_store_laws:
  assumes "store_laws cl view"
  shows "store_laws (twin cl ow) view"
proof -
  have delete: "\<exists>w'. k_delete (twin cl ow) k key w = (Inr (), w') \<and> view w' = (view w)((k, key) := None)"
    if p: "view w (k, key) \<noteq> None" for k key w
    using store_laws_delete [OF assms p] by (force simp: io_try_def)
  show ?thesis unfolding store_laws_def twin_calls(1-4)
  proof (intro conjI allI impI)
    fix ob w assume n: "snd (obj_key ob) \<noteq> []" "view w (kind_of ob, obj_key ob) = None"
    show "\<exists>w'. k_create cl ow ob w = (Inr (snd (obj_key ob)), w') \<and>
        view w' = (view w)((kind_of ob, obj_key ob) \<mapsto> ob)"
      by (rule store_laws_create [OF assms n, of ow]) blast
  next
    fix ob w assume n: "view w (kind_of ob, obj_key ob) \<noteq> None"
    show "\<exists>w'. k_update cl ow ob w = (Inr (), w') \<and> view w' = (view w)((kind_of ob, obj_key ob) \<mapsto> ob)"
      by (rule store_laws_update [OF assms n, of ow]) blast
  qed (rule store_laws_exists [OF assms] delete store_laws_conflict [OF assms] store_laws_event [OF assms] | assumption)+
qed

lemma twin_events:
  "recordCreateError (twin cl ow) ow' k = recordCreateError cl ow k \<and>
   recordCreated (twin cl ow) ow' k = recordCreated cl ow k"
  by (simp add: fun_eq_iff recordCreateError_def recordCreated_def)

lemma twin_creates:
  "createReported (twin cl ow) ow' ob = createReported cl ow ob"
  "createOrUpdate (twin cl ow) ow' ob = createOrUpdate cl ow ob"
  by (simp_all add: createReported_def createOrUpdate_def twin_events cong: if_cong)

lemma resourceExists_checks: "resourceExists cl = checkExists cl"
  by (intro ext) (simp add: resourceExists_def checkExists_def)

lemma twin_checks: "checkExists (twin cl ow) = checkExists cl"
  by (intro ext) (simp add: checkExists_def)

lemma deleteExisting_twin:
  "deleteExisting cl k key = deleteIfExists (twin cl ow) k (snd key) (fst key)"
  by (rule ext) (simp add: deleteExisting_def deleteIfExists_def checkExists_def io_bind_def io_try_def
      split: prod.split sum.split)

lemma deleteAndCreate_twin: "deleteAndCreate cl t ob = recreate (twin cl (tofuOwner t)) ow ob"
  by (rule ext) (simp add: deleteAndCreate_def recreate_def deleteExisting_twin [of _ _ _ "tofuOwner t"] twin_events
      createReported_def io_bind_def split: prod.split sum.split)

lemma createSecret_twin:
  "tofuCreateSecret cl t name ns data recr om r =
     createSecret (twin cl (tofuOwner t)) (asTf t) name ns data recr om r"
  by (simp add: tofuCreateSecret_def createSecret_def deleteSecretIfExists_def
      deleteExisting_twin [of _ _ _ "tofuOwner t"] twin_events Let_def cong: if_cong del: io_seq.simps)

lemma createPVC_twin: "tofuCreatePVC cl t r = createPVC (twin cl (tofuOwner t)) (asTf t) r"
  by (simp add: tofuCreatePVC_def createPVC_def checkPersistentVolumeClaimExists_def resourceExists_checks twin_checks
      twin_creates asTfSpec_def Let_def cong: if_cong)

lemma createEnv_twin: "tofuCreateEnvFromSources cl rc t = createEnvFromSources (twin cl (tofuOwner t)) rc (asTf t)"
  by (simp add: tofuCreateEnvFromSources_def createEnvFromSources_def twin_creates cong: if_cong del: io_seq.simps)

lemma checkObjects_same: "tofuCheckObjects cl r = checkObjects cl r"
  by (simp add: tofuCheckObjects_def checkObjects_def tofuRequireObject_def [abs_def] requireObject_def [abs_def]
      resourceExists_checks)

interpretation tofu_object: object_maker "\<lambda>cl. deleteAndCreate cl t ob" ob for t :: Tofu and ob :: kobj
  by unfold_locales (simp add: deleteAndCreate_twin [of _ _ _ "tofuOwner t"] made_anew.makes twin_store_laws)

text \<open>The steps of the first branch are the Terraform controller's, on the twin.\<close>

lemma createObjects_twin:
  assumes "tos_serviceAccount (to_spec t) = []"
  shows "tofuCreateObjects cl rc t r =
    io_seq (objectSteps (twin cl (tofuOwner t)) rc (asTf t) r (tofuOutputsLabelsToOmit r))"
  using assms
  by (simp add: tofuCreateObjects_def createSecret_twin createPVC_twin createEnv_twin create_is_recreate
      deleteAndCreate_twin [where ow = "tfOwner (asTf t)"])

section \<open>Properties\<close>

lemma newTofuTaskOptions_names:
  assumes "tost_podNamePrefix (to_status t) \<noteq> []"
  shows "generatedNames (newTofuTaskOptions t k g env a ns tol ra cu ad du ti)"
  using assms by (simp add: generatedNames_def newTofuTaskOptions_def Let_def tofuVersionedName_def case_prod_beta)

lemma newTofuTaskOptions_same:
  "sameNames (newTofuTaskOptions t k g env a ns tol ra cu ad du ti)
     (newTofuTaskOptions t k' g' env' a' ns' tol' ra' cu' ad' du' ti')"
  by (simp add: sameNames_def newTofuTaskOptions_def Let_def case_prod_beta)


definition exampleTofu :: Tofu where
  "exampleTofu = asTofu exampleTf"


text \<open>An object that another client deletes between the read and the delete: the Terraform
  controller gives up with the error of the delete, the Tofu controller creates the object.\<close>

lemma lost_race_is_no_error:
  assumes "k_exists cl (kind_of ob) (obj_key ob) w = (Inr (), w')"
    and "k_delete cl (kind_of ob) (obj_key ob) w' = (Inl err, w'')" and "IsNotFound err"
  shows "recreate cl ow ob w = (Inl err, w'') \<and>
    deleteAndCreate cl t ob w = createReported cl (tofuOwner t) ob w''"
proof -
  have "\<not> is_panic err" using assms(3) by (cases err) auto
  then show ?thesis using assms
    by (simp add: recreate_def deleteIfExists_def checkExists_def deleteAndCreate_def deleteExisting_def
        createReported_def io_bind_def io_try_def split: prod.split sum.split)
qed

end
