(* ===== verification/TofuSetup.thy ===== *)
theory TofuSetup
  imports TofuResources TfSetup
begin

text \<open>
  \<open>setupAndRun\<close> of the Tofu controller (\<open>pkg/controllers/tofu_controller.go\<close>): the module,
  the scripts, the git credentials, the downloads and the backend of a generation, and the
  start of its pod. The steps that do not look at the resource (inline scripts, askpass
  script, downloads, ssh hosts) are the same code in both files and have one model.
\<close>

text \<open>The files of \<open>~/.ssh\<close>.\<close>

definition formatTofuJobSSHConfig :: "'w kube \<Rightarrow> Tofu \<Rightarrow> ('w, (string, string) gomap) io" where
  "formatTofuJobSSHConfig cl tofu =
    io_bind
      (case tos_sshTunnel (to_spec tofu) of
         None \<Rightarrow> io_return []
       | Some px \<Rightarrow> io_bind (sshKeyOf cl (to_namespace tofu) (px_sshKeySecretRef px))
           (\<lambda>key. io_return (AList.update ''proxy_key'' key [(''config'', sshProxyConfig px)])))
      (sshHosts cl (to_namespace tofu) (tos_scmAuthMethods (to_spec tofu)))"

definition tofuSetupModule :: "urllib \<Rightarrow> Tofu \<Rightarrow> TaskOptions \<Rightarrow> goerr + TaskOptions" where
  "tofuSetupModule ul tofu runOpts =
    (let m = tos_module (to_spec tofu); scmMap = scmMapOf (tos_scmAuthMethods (to_spec tofu)) in
     if mod_inline m \<noteq> [] then Inr (putPluginData ''inline-module.tf'' (mod_inline m) runOpts)
     else (case mod_configMapSeclector_x m of
       Some c \<Rightarrow> Inr (putPluginData configMapModuleFile (configMapSelectorJSON c) runOpts)
     | None \<Rightarrow> (case mod_configMapSelector m of
         Some c \<Rightarrow> Inr (putPluginData configMapModuleFile (configMapSelectorJSON c) runOpts)
       | None \<Rightarrow>
          if mod_source m \<noteq> []
          then sum_bind (getParsedAddress ul (mod_source m) [] False scmMap)
                 (\<lambda>pa. Inr (runOpts\<lparr>o_tfModuleParsed := pa\<rparr>))
          else Inl (ErrMsg ''no tofu module detected''))))"

definition tofuDefaultScripts :: "reconciler \<Rightarrow> TaskOptions \<Rightarrow> TaskOptions" where
  "tofuDefaultScripts rc runOpts =
    putPluginData ''default-noop.sh'' (rc_noopScript rc)
      (putPluginData ''default-setup.sh'' (rc_setupScript rc)
        (putPluginData ''default-tofu.sh'' (rc_taskScript rc) runOpts))"

definition tofuAddDownloads :: "urllib \<Rightarrow> Tofu \<Rightarrow> TaskOptions \<Rightarrow> goerr + TaskOptions" where
  "tofuAddDownloads ul tofu runOpts =
    sum_bind (parseDownloads ul (scmMapOf (tos_scmAuthMethods (to_spec tofu)))
        (case tos_setup (to_spec tofu) of None \<Rightarrow> [] | Some su \<Rightarrow> su_resourceDownloads su))
      (\<lambda>items. Inr (putPluginData ''.__INFRAKUBE__ResourceDownloads.json'' (jsonArray (map parsedAddressJSON items)) runOpts))"

text \<open>The block \<open>if isChanged\<close> from the scripts on.\<close>

definition tofuSetupGeneration :: "'w kube \<Rightarrow> urllib \<Rightarrow> reconciler \<Rightarrow> Tofu \<Rightarrow> TaskOptions \<Rightarrow> ('w, TaskOptions) io" where
  "tofuSetupGeneration cl ul rc tofu runOpts =
    io_bind (addGitAskpass cl (tos_scmAuthMethods (to_spec tofu))
               (addInlineScripts (tos_taskOptions (to_spec tofu)) (tofuDefaultScripts rc runOpts)))
      (\<lambda>r1. io_try (formatTofuJobSSHConfig cl tofu)
         (\<lambda>err. io_bind (io_modify (k_event cl (tofuOwner tofu) ''Warning'' ''SSHConfigError'' (err_text err)))
            (\<lambda>_. io_throw (ErrMsg (''error setting up sshconfig: '' @ err_text err))))
         (\<lambda>ssh. let r2 = r1\<lparr>o_secretData := AList.merge (o_secretData r1) ssh\<rparr> in
            io_bind (io_of_sum (tofuAddDownloads ul tofu r2))
              (\<lambda>r3. io_return (putPluginData ''backend_override.tf'' (tos_backend (to_spec tofu)) r3))))"

definition tofuSetupAndRun :: "'w kube \<Rightarrow> urllib \<Rightarrow> reconciler \<Rightarrow> TaskOptions \<Rightarrow> (('w, Tofu) rstate, unit) io" where
  "tofuSetupAndRun cl ul rc runOpts = (\<lambda>s.
    let tofu = r_res s;
        reason = stg_reason (tofuStage tofu);
        isNewGeneration = generationChanged reason;
        isFirstInstall = firstInstall reason;
        isChanged = (isNewGeneration \<or> isFirstInstall)
    in io_bind (io_of_sum (tofuSetupModule ul tofu runOpts)) (\<lambda>r1.
       io_bind
         (if isChanged
          then io_try (on_cluster (tofuUpdateSecretFinalizer cl tofu)) (\<lambda>_. io_return ()) io_return
          else io_return ()) (\<lambda>_.
       io_bind (if isChanged then spawn (ReapPlugins (tofuOwner tofu) (tofuKey tofu) 0) else io_return ()) (\<lambda>_.
       io_bind (if isChanged then on_cluster (tofuSetupGeneration cl ul rc tofu r1) else io_return r1) (\<lambda>r2.
       on_cluster (tofuRun cl rc tofu r2 isNewGeneration isFirstInstall))))) s)"

end
