(* ===== verification/TofuReaper.thy ===== *)
theory TofuReaper
  imports TofuStatus TfReaper
begin

text \<open>
  Removing what a \<open>Tofu\<close> no longer needs (\<open>pkg/controllers/tofu_controller.go\<close>):
  \<open>removeOldPlan\<close>, and the goroutines that reap the objects of older generations and the
  plugins. The selectors differ from the Terraform controller's in the prefix of the
  labels; both reapers are interpreted as \<open>reaper\<close>.
\<close>

definition tofuResourceNameSelector :: "string \<Rightarrow> string" where
  "tofuResourceNameSelector name = tofuLabelPrefix @ ''resourceName='' @ AutoHashLabeler name"

definition tofuOldPlanSelector :: "string \<Rightarrow> string \<Rightarrow> int \<Rightarrow> string" where
  "tofuOldPlanSelector name reason generation =
    str_join
      ([tofuLabelPrefix @ ''generation=='' @ itoa generation, tofuResourceNameSelector name, ''app.kubernetes.io/instance''] @
       (if reason = ''RESTARTED_WORKFLOW''
        then map notInstance [RunSetup, RunPreInit, RunInit, RunPostInit]
        else if reason = ''RESTARTED_DELETE_WORKFLOW''
        then map notInstance [RunSetupDelete, RunPreInitDelete, RunInitDelete, RunPostInitDelete]
        else [])) '',''"

definition tofuRemoveOldPlan :: "'w kube \<Rightarrow> string \<Rightarrow> string \<Rightarrow> string \<Rightarrow> int \<Rightarrow> ('w, unit) io" where
  "tofuRemoveOldPlan cl namespace name reason generation =
    io_bind (parsedSelector cl (tofuOldPlanSelector name reason generation))
      (\<lambda>_. k_delete_all_of cl PodKind namespace (tofuOldPlanSelector name reason generation) notRunning)"

text \<open>Everything of the resource that carries another generation than the current one.\<close>

definition tofuOldGenerationSelector :: "string \<Rightarrow> int \<Rightarrow> string" where
  "tofuOldGenerationSelector name generation =
    str_join [tofuLabelPrefix @ ''generation'', tofuLabelPrefix @ ''generation!='' @ itoa generation,
      tofuLabelPrefix @ ''resourceName'', tofuResourceNameSelector name] '',''"

definition tofuPluginSelector :: "string \<Rightarrow> int \<Rightarrow> string" where
  "tofuPluginSelector name generation = tofuLabelPrefix @ ''isPlugin=true,'' @ tofuOldGenerationSelector name generation"

definition tofuBackgroundReapOldGenerationPods :: "'w kube \<Rightarrow> nsname \<Rightarrow> nat \<Rightarrow> ('w, bool) io" where
  "tofuBackgroundReapOldGenerationPods cl key attempt =
    (if maxAttempts < attempt then io_return False
     else
       io_try (getTofuResource cl key 3) endRound (\<lambda>tofu.
       let sel = tofuOldGenerationSelector (to_name tofu) (to_generation tofu); ns = to_namespace tofu in
       io_try (parsedSelector cl sel) endRound (\<lambda>_.
       io_try (k_delete_all_of cl PodKind ns sel notRunning) endRound (\<lambda>_.
       io_try (k_list cl PodKind ns sel) endRound (\<lambda>pods.
       if 0 < length pods then io_return True
       else io_bind (deleteKinds cl ns sel [ConfigMapKind, SecretKind, RoleKind, RoleBindingKind, ServiceAccountKind])
              (\<lambda>_. io_return False))))))"

definition tofuReapPlugins :: "'w kube \<Rightarrow> nsname \<Rightarrow> nat \<Rightarrow> ('w, bool) io" where
  "tofuReapPlugins cl key attempt =
    (if maxAttempts < attempt then io_return False
     else
       io_try (getTofuResource cl key 3) endRound (\<lambda>tofu.
       let sel = (case k_labels_parse cl (tofuPluginSelector (to_name tofu) (to_generation tofu)) of
                    None \<Rightarrow> tofuPluginSelector (to_name tofu) (to_generation tofu) | Some _ \<Rightarrow> []);
           ns = to_namespace tofu in
       io_bind (goOn (k_delete_all_of cl JobKind ns sel []) ()) (\<lambda>_.
       io_bind (goOn (k_delete_all_of cl PodKind ns sel []) ()) (\<lambda>_.
       io_bind (goOn (k_list cl PodKind ns sel) []) (\<lambda>pods. io_return (0 < length pods))))))"

interpretation tofu_pod_reaper: reaper "tofuBackgroundReapOldGenerationPods cl key" for cl :: "'w kube" and key :: nsname
  by unfold_locales (simp add: tofuBackgroundReapOldGenerationPods_def)

interpretation tofu_plugin_reaper: reaper "tofuReapPlugins cl key" for cl :: "'w kube" and key :: nsname
  by unfold_locales (simp add: tofuReapPlugins_def)

end
