(* ===== verification/TofuReconcile.thy ===== *)
theory TofuReconcile
  imports TofuSetup TofuReaper TfReconcile
begin

text \<open>
  \<open>Reconcile\<close> of the Tofu controller (\<open>pkg/controllers/tofu_controller.go\<close>), from the lock
  in the shared cache to the pod of a stage, in the order of the source. The results,
  the accumulator of the plugin loop and the functions on strings and pods are those of
  \<open>TfReconcile\<close>.
\<close>

section \<open>Shared methods and types\<close>

text \<open>
  Methods that both files repeat word for word: they do not mention the resource.
\<close>

definition tofuLoadSecret :: "'w kube \<Rightarrow> string \<Rightarrow> string \<Rightarrow> ('w, Secret) io" where
  "tofuLoadSecret = loadSecret"

definition tofuCacheNodeSelectors :: "'w controlPlane \<Rightarrow> reconciler \<Rightarrow> (('w, 'r) rstate, unit) io" where
  "tofuCacheNodeSelectors = cacheNodeSelectors"

definition tofuGetNodeSelectorsFromCache :: "reconciler \<Rightarrow> (string, cached) gomap \<Rightarrow> goerr + selectors" where
  "tofuGetNodeSelectorsFromCache = getNodeSelectorsFromCache"

definition tofuClientForCluster :: "(string \<Rightarrow> goerr + 'w kube) option \<Rightarrow> 'w kube \<Rightarrow> string \<Rightarrow> goerr + 'w kube" where
  "tofuClientForCluster = clientForCluster"

definition tofuRecorderForCluster :: "(string \<Rightarrow> goerr + 'w recorder) option \<Rightarrow> 'w recorder \<Rightarrow> string \<Rightarrow> goerr + 'w recorder" where
  "tofuRecorderForCluster = recorderForCluster"

lemmas tofu_shared_defs = tofuLoadSecret_def tofuCacheNodeSelectors_def tofuGetNodeSelectorsFromCache_def
  tofuClientForCluster_def tofuRecorderForCluster_def

type_synonym 'w tofuio = "(('w, Tofu) rstate, Result) io"

type_synonym 'w tofuproc = "(('w, Tofu) rstate, unit) io"

text \<open>\<open>updateStatusWithRetry(ctx, tofu, &tofu.Status, logger)\<close> on the resource of the state.\<close>

definition tofuAfterUpdate :: "('w, goerr option \<times> Tofu) io \<Rightarrow> 'w tofuproc" where
  "tofuAfterUpdate m = (\<lambda>s. case m (r_cluster s) of
     (Inl e, w') \<Rightarrow> (Inl e, s\<lparr>r_cluster := w'\<rparr>)
   | (Inr (eo, tofu'), w') \<Rightarrow>
       (case eo of None \<Rightarrow> Inr () | Some e \<Rightarrow> Inl e, s\<lparr>r_cluster := w', r_res := tofu'\<rparr>))"

definition tofuSave :: "'w kube \<Rightarrow> 'w tofuproc" where
  "tofuSave cl = (\<lambda>s. tofuAfterUpdate (tofuSaveStatus cl (r_res s)) s)"

text \<open>\<open>update\<close> on the resource of the state.\<close>

definition tofuUpdateRes :: "'w kube \<Rightarrow> 'w tofuproc" where
  "tofuUpdateRes cl = (\<lambda>s. io_bind (on_cluster (updateTofu cl (r_res s))) setRes s)"

text \<open>\<open>if err != nil { return Result, nil }; return Done, nil\<close> after a save.\<close>

definition tofuSaveThen :: "'w kube \<Rightarrow> Result \<Rightarrow> 'w tofuio" where
  "tofuSaveThen cl onError = io_try (tofuSave cl) (\<lambda>_. io_return onError) (\<lambda>_. io_return Done)"

definition tofuSaveOrFail :: "'w kube \<Rightarrow> 'w tofuio" where
  "tofuSaveOrFail cl = io_bind (tofuSave cl) (\<lambda>_. io_return Done)"

definition tofuEvent :: "'w kube \<Rightarrow> string \<Rightarrow> string \<Rightarrow> string \<Rightarrow> 'w tofuproc" where
  "tofuEvent cl typ reason message = (\<lambda>s. on_cluster (io_modify (k_event cl (tofuOwner (r_res s)) typ reason message)) s)"

section \<open>The end and the beginning of a resource\<close>

definition tofuWithEvent :: "'w kube \<Rightarrow> (('w, Tofu) rstate, 'a) io \<Rightarrow> (('w, Tofu) rstate, 'a) io" where
  "tofuWithEvent cl m =
    io_try m (\<lambda>err. io_bind (tofuEvent cl ''Warning'' ''ProcessingError'' (err_text err)) (\<lambda>_. io_throw err)) io_return"

definition tofuRemoveFinalizers :: "'w kube \<Rightarrow> 'w tofuio" where
  "tofuRemoveFinalizers cl =
    io_bind (tofuWithEvent cl (\<lambda>s. on_cluster (tofuUpdateSecretFinalizer cl (r_res s)) s)) (\<lambda>_.
    io_bind (\<lambda>s. case updateTofuFinalizer (r_res s) of
        None \<Rightarrow> panicWith ''slice bounds out of range'' s | Some (_, tofu') \<Rightarrow> setRes tofu' s) (\<lambda>_.
    io_bind (tofuWithEvent cl (tofuUpdateRes cl)) (\<lambda>_. io_return Done)))"

definition tofuInitializeResource :: "'w kube \<Rightarrow> (nat \<Rightarrow> nat \<Rightarrow> nat) \<Rightarrow> 'w tofuio" where
  "tofuInitializeResource cl rnd = (\<lambda>s. case podNamePrefixOf rnd (to_name (r_res s)) of
     None \<Rightarrow> panicWith ''invalid argument to Intn'' s
   | Some prefix \<Rightarrow>
       io_bind (modifyRes (\<lambda>tofu. tofuSetStatus tofu ((to_status tofu)\<lparr>tost_podNamePrefix := prefix,
                  tost_lastCompletedGeneration := 0, tost_phase := PhaseInitializing\<rparr>)))
         (\<lambda>_. tofuSaveThen cl Done) s)"

definition tofuAddFirstStage :: "'w kube \<Rightarrow> 'w tofuio" where
  "tofuAddFirstStage cl =
    io_bind (\<lambda>s. case newTofuStage (k_now cl (r_cluster s)) (r_res s) RunSetup ''TF_RESOURCE_CREATED'' CanNotBeInterrupt StateInitializing of
        (stage, tofu) \<Rightarrow> setRes (tofuSetPlugins (tofuSetStage tofu stage) []) s)
      (\<lambda>_. tofuSaveOrFail cl)"

section \<open>Moving to the next stage\<close>

text \<open>The reason handed to \<open>removeOldPlan\<close> is that of the stage being left.\<close>

definition tofuMoveStage :: "'w kube \<Rightarrow> Stage \<Rightarrow> 'w tofuio" where
  "tofuMoveStage cl stage =
    io_bind (\<lambda>s. (if isRestart (stg_reason stage)
       then io_try (on_cluster (tofuRemoveOldPlan cl (to_namespace (r_res s)) (to_name (r_res s))
               (stg_reason (tofuStage (r_res s))) (to_generation (r_res s)))) (\<lambda>_. io_return ()) io_return
       else io_return ()) s) (\<lambda>_.
    io_bind (modifyRes (\<lambda>tofu. tofuSetStage tofu stage)) (\<lambda>_.
    io_bind (\<lambda>s. io_try (tofuAfterUpdate (tofuUpdateStatusWithRetry cl False (r_res s) (to_status (r_res s))))
               (\<lambda>_. io_return ()) io_return s) (\<lambda>_.
    (\<lambda>s. (if tos_keepLatestPodsOnly (to_spec (r_res s))
       then io_bind (spawn (ReapOldGenerationPods (tofuOwner (r_res s)) (tofuKey (r_res s)) 0)) (\<lambda>_. io_return Done)
       else io_return Done) s))))"

section \<open>The end of a workflow\<close>

text \<open>A secret that cannot be loaded counts as an empty one.\<close>

definition tofuLoadOutputs :: "'w kube \<Rightarrow> TaskOptions \<Rightarrow> 'w tofuproc" where
  "tofuLoadOutputs cl runOpts =
    io_bind (io_try (on_cluster (tofuLoadSecret cl (o_outputsSecretName runOpts) (o_namespace runOpts)))
               (\<lambda>_. io_return []) (\<lambda>secret. io_return (sec_data secret)))
      (\<lambda>data. modifyRes (\<lambda>tofu. tofuSetStatus tofu
          ((to_status tofu)\<lparr>tost_outputs := mergeOutputs (tost_outputs (to_status tofu)) data\<rparr>)))"

definition tofuFinishWorkflow :: "'w kube \<Rightarrow> TaskOptions \<Rightarrow> 'w tofuio" where
  "tofuFinishWorkflow cl runOpts = (\<lambda>s.
    (if tofuPhase (r_res s) = PhaseRunning
     then io_bind (modifyRes (\<lambda>tofu. tofuSetPhase tofu PhaseCompleted)) (\<lambda>_.
          io_bind (if tos_writeOutputsToStatus (to_spec (r_res s)) then tofuLoadOutputs cl runOpts else io_return ())
            (\<lambda>_. tofuSaveOrFail cl))
     else if tofuPhase (r_res s) = PhaseDeleting
     then io_bind (modifyRes (\<lambda>tofu. tofuSetPhase tofu PhaseDeleted)) (\<lambda>_. tofuSaveOrFail cl)
     else io_return Done) s)"

section \<open>Plugins\<close>

definition tofuTaskOptionsOf :: "reconciler \<Rightarrow> selectors \<Rightarrow> Tofu \<Rightarrow> TaskName \<Rightarrow> int \<Rightarrow> EnvFromSource list \<Rightarrow> TaskOptions" where
  "tofuTaskOptionsOf rc sel tofu task generation globalEnvFrom =
    (case sel of (affinity, nodeSelector, tolerations) \<Rightarrow>
       newTofuTaskOptions tofu task generation globalEnvFrom affinity nodeSelector tolerations
         (rc_requireApprovalImage rc) (rc_cacheURL rc) (rc_autoDownload rc) (rc_downloadBaseURL rc) (rc_taskImage rc))"

definition tofuGetPluginRunOpts :: "reconciler \<Rightarrow> selectors \<Rightarrow> Tofu \<Rightarrow> TaskName \<Rightarrow> Plugin \<Rightarrow> EnvFromSource list \<Rightarrow> TaskOptions" where
  "tofuGetPluginRunOpts rc sel tofu pluginTaskName pluginConfig globalEnvFrom =
    (tofuTaskOptionsOf rc sel tofu pluginTaskName (to_generation tofu) globalEnvFrom)
      \<lparr>o_image := ic_image (pl_imageConfig pluginConfig),
       o_imagePullPolicy := ic_imagePullPolicy (pl_imageConfig pluginConfig)\<rparr>"

definition tofuGetPluginSidecarPod :: "reconciler \<Rightarrow> selectors \<Rightarrow> Tofu \<Rightarrow> TaskName \<Rightarrow> Plugin \<Rightarrow> EnvFromSource list \<Rightarrow> goerr + Pod" where
  "tofuGetPluginSidecarPod rc sel tofu pluginTaskName pluginConfig globalEnvFrom =
    generatePod (tofuGetPluginRunOpts rc sel tofu pluginTaskName pluginConfig globalEnvFrom)"

definition tofuCreatePluginJob :: "'w kube \<Rightarrow> reconciler \<Rightarrow> EnvFromSource list \<Rightarrow> TaskName \<times> Plugin \<Rightarrow> 'w tofuproc" where
  "tofuCreatePluginJob cl rc globalEnvFrom plugin = (\<lambda>s.
    case tofuGetNodeSelectorsFromCache rc (r_cache s) of
      Inl e \<Rightarrow> (Inl e, s)
    | Inr sel \<Rightarrow>
        io_seq
          [spawn (CreateJob (tofuOwner (r_res s)) (tofuGetPluginRunOpts rc sel (r_res s) (fst plugin) (snd plugin) globalEnvFrom)),
           modifyRes (\<lambda>tofu. tofuSetPlugins tofu (tost_pluginsStarted (to_status tofu) @ [fst plugin])),
           tofuSave cl] s)"

text \<open>The loop; \<open>False\<close> when a sidecar that must be there cannot be made.\<close>

fun tofuPluginLoop :: "reconciler \<Rightarrow> selectors \<Rightarrow> Tofu \<Rightarrow> TaskName \<Rightarrow> EnvFromSource list
    \<Rightarrow> (TaskName \<times> Plugin) list \<Rightarrow> pluginAcc \<Rightarrow> bool \<times> pluginAcc" where
  "tofuPluginLoop rc sel tofu podType env [] acc = (True, acc)"
| "tofuPluginLoop rc sel tofu podType env ((name, cfg) # plugins) acc =
     (if ListContainsTask (tost_pluginsStarted (to_status tofu)) name then tofuPluginLoop rc sel tofu podType env plugins acc
      else if pl_when cfg = ''After'' then
        tofuPluginLoop rc sel tofu podType env plugins
          (if TaskID (pl_task cfg) < TaskID podType then acc\<lparr>pa_jobs := pa_jobs acc @ [(name, cfg)]\<rparr> else acc)
      else if pl_when cfg = ''At'' then
        tofuPluginLoop rc sel tofu podType env plugins
          (if TaskID (pl_task cfg) = TaskID podType then acc\<lparr>pa_jobs := pa_jobs acc @ [(name, cfg)]\<rparr> else acc)
      else if pl_when cfg = ''Sidecar'' \<and> TaskID (pl_task cfg) = TaskID podType then
        (case tofuGetPluginSidecarPod rc sel tofu name cfg env of
           Inl err \<Rightarrow> if pl_must cfg then (False, acc) else tofuPluginLoop rc sel tofu podType env plugins acc
         | Inr pod \<Rightarrow> tofuPluginLoop rc sel tofu podType env plugins (addSidecarPod acc pod))
      else tofuPluginLoop rc sel tofu podType env plugins acc)"

definition tofuAddApproval :: "reconciler \<Rightarrow> selectors \<Rightarrow> Tofu \<Rightarrow> TaskName \<Rightarrow> EnvFromSource list \<Rightarrow> TaskOptions
    \<Rightarrow> pluginAcc \<Rightarrow> pluginAcc option" where
  "tofuAddApproval rc sel tofu podType env runOpts acc =
    (if (podType = RunPlan \<or> podType = RunPlanDelete) \<and> o_requireApproval runOpts
     then (case tofuGetPluginSidecarPod rc sel tofu ''require-approval'' (approvalPlugin runOpts) env of
             Inl err \<Rightarrow> None
           | Inr pod \<Rightarrow> Some (if sidecarExists acc pod then acc else acc\<lparr>pa_pods := pa_pods acc @ [pod]\<rparr>))
     else Some acc)"

section \<open>Starting the pod of a stage\<close>

definition tofuSetStageState :: "StageState \<Rightarrow> Tofu \<Rightarrow> Tofu" where
  "tofuSetStageState st tofu = tofuSetStage tofu ((tofuStage tofu)\<lparr>stg_state := st\<rparr>)"

definition tofuLaunch :: "'w kube \<Rightarrow> urllib \<Rightarrow> reconciler \<Rightarrow> TaskOptions \<Rightarrow> 'w tofuio" where
  "tofuLaunch cl ul rc runOpts =
    io_bind (tofuSetupAndRun cl ul rc runOpts) (\<lambda>_.
    io_bind (modifyRes (\<lambda>tofu. tofuSetStageState StateInProgress (tofuSetPhase tofu (phaseAfterStart (tofuPhase tofu))))) (\<lambda>_.
    tofuSaveThen cl Requeue))"

definition tofuStartStage :: "'w kube \<Rightarrow> urllib \<Rightarrow> reconciler \<Rightarrow> selectors \<Rightarrow> EnvFromSource list \<Rightarrow> TaskOptions \<Rightarrow> TaskName \<Rightarrow> 'w tofuio" where
  "tofuStartStage cl ul rc sel env runOpts podType = (\<lambda>s.
    let tofu = r_res s;
        (complete, acc) = tofuPluginLoop rc sel tofu podType env (tos_plugins (to_spec tofu)) \<lparr>pa_jobs = [], pa_names = [], pa_pods = []\<rparr>;
        deferred = map (tofuCreatePluginJob cl rc env) (pa_jobs acc)
    in withDeferred deferred
         (if \<not> complete then io_return Requeue
          else case tofuAddApproval rc sel tofu podType env runOpts acc of
                 None \<Rightarrow> io_return Requeue
               | Some acc' \<Rightarrow> tofuLaunch cl ul rc (runOpts\<lparr>o_sidecarPlugins := o_sidecarPlugins runOpts @ pa_pods acc'\<rparr>)) s)"

section \<open>Following the pod of a stage\<close>

definition tofuObservePod :: "Pod \<Rightarrow> Tofu \<Rightarrow> Tofu" where
  "tofuObservePod pod tofu = tofuSetStage tofu ((tofuStage tofu)
     \<lparr>stg_podUID := pod_uid pod, stg_podName := pod_name pod,
      stg_message := ''Pod '' @ quoted (pod_name pod) @ '' '' @ pod_phase pod\<rparr>)"

definition tofuStopStage :: "StageState \<Rightarrow> int \<Rightarrow> Tofu \<Rightarrow> Tofu" where
  "tofuStopStage st now tofu = tofuSetStage tofu ((tofuStage tofu)\<lparr>stg_state := st, stg_stopTime := now\<rparr>)"

definition tofuFollowPod :: "'w kube \<Rightarrow> Pod \<Rightarrow> 'w tofuio" where
  "tofuFollowPod cl pod =
    io_bind (modifyRes (tofuObservePod pod)) (\<lambda>_ s.
      (if pod_phase pod = ''Failed''
       then io_bind (modifyRes (tofuStopStage StateFailed (k_now cl (r_cluster s)))) (\<lambda>_. tofuSaveOrFail cl)
       else if pod_phase pod = ''Succeeded''
       then io_bind (modifyRes (tofuStopStage StateComplete (k_now cl (r_cluster s)))) (\<lambda>_.
            io_bind (tofuSave cl) (\<lambda>_ s'.
              (if \<not> tos_keepCompletedPods (to_spec (r_res s')) \<and> \<not> tos_keepLatestPodsOnly (to_spec (r_res s'))
               then io_try (on_cluster (k_delete cl PodKind (pod_namespace pod, pod_name pod)))
                      (\<lambda>_. io_return Done) (\<lambda>_. io_return Done)
               else io_return Done) s'))
       else io_bind (modifyRes (tofuSetStageState (pod_phase pod))) (\<lambda>_. tofuSaveOrFail cl)) s)"

definition tofuStagePodName :: "Tofu \<Rightarrow> string" where
  "tofuStagePodName tofu = generateNameOf (tost_podNamePrefix (to_status tofu) @ ''-v'' @ itoa (stg_generation (tofuStage tofu)))
     (stg_taskType (tofuStage tofu))"

definition tofuWorkOnStage :: "'w kube \<Rightarrow> urllib \<Rightarrow> reconciler \<Rightarrow> selectors \<Rightarrow> EnvFromSource list \<Rightarrow> TaskOptions \<Rightarrow> 'w tofuio" where
  "tofuWorkOnStage cl ul rc sel env runOpts = (\<lambda>s.
    let tofu = r_res s; podType = stg_taskType (tofuStage tofu) in
    io_try (on_cluster (k_list_pods cl (to_namespace tofu) (tofuStagePodName tofu)
              (tofuLabelPrefix @ ''generation'', itoa (stg_generation (tofuStage tofu)))))
      (\<lambda>_. io_return Done)
      (\<lambda>found. case podsSince (tost_retryTimestamp (to_status tofu)) found of
         [] \<Rightarrow> (if stg_state (tofuStage tofu) = StateInProgress
               then io_bind (modifyRes (tofuSetStageState StateInitializing)) (\<lambda>_. tofuSaveThen cl Requeue)
               else tofuStartStage cl ul rc sel env runOpts podType)
       | pod # _ \<Rightarrow> tofuFollowPod cl pod) s)"

section \<open>The reconciliation\<close>

text \<open>No new stage: the current one is finished or worked on.\<close>

definition tofuHandleStage :: "'w kube \<Rightarrow> urllib \<Rightarrow> reconciler \<Rightarrow> 'w tofuio" where
  "tofuHandleStage cl ul rc = (\<lambda>s.
    case tofuGetNodeSelectorsFromCache rc (r_cache s) of
      Inl e \<Rightarrow> (Inl e, s)
    | Inr sel \<Rightarrow>
        let env = tofuListEnvFromSources rc (r_res s);
            stage = tofuStage (r_res s);
            runOpts = tofuTaskOptionsOf rc sel (r_res s) (stg_taskType stage) (stg_generation stage) env
        in (if stg_taskType stage = RunNil then tofuFinishWorkflow cl runOpts
            else tofuWorkOnStage cl ul rc sel env runOpts) s)"

definition tofuReconcileStage :: "'w kube \<Rightarrow> urllib \<Rightarrow> reconciler \<Rightarrow> 'w tofuio" where
  "tofuReconcileStage cl ul rc =
    io_bind (modifyRes tofuMarkDeletion) (\<lambda>_.
    io_bind (\<lambda>s. case tofuMarkRetry (k_now cl (r_cluster s)) (r_res s) of
        (retry, tofu) \<Rightarrow> (Inr retry, s\<lparr>r_res := tofu\<rparr>)) (\<lambda>retry.
    io_bind (\<lambda>s. on_cluster (tofuCheckSetNewStage cl retry (r_res s)) s) (\<lambda>(newStg, tofu).
    io_bind (setRes tofu) (\<lambda>_.
      (case newStg of
         Some stage \<Rightarrow> tofuMoveStage cl stage
       | None \<Rightarrow> tofuHandleStage cl ul rc)))))"

definition tofuReconcileLocked :: "'w kube \<Rightarrow> urllib \<Rightarrow> reconciler \<Rightarrow> (nat \<Rightarrow> nat \<Rightarrow> nat) \<Rightarrow> nsname \<Rightarrow> 'w tofuio" where
  "tofuReconcileLocked cl ul rc rnd key =
    io_try (on_cluster (getTofuResource cl key 3))
      (\<lambda>err. if IsNotFound err then io_return Done else io_throw err)
      (\<lambda>tofu. io_bind (setRes tofu) (\<lambda>_.
        if tofuPhase tofu = PhaseDeleted then tofuRemoveFinalizers cl
        else case updateTofuFinalizer tofu of
          None \<Rightarrow> panicWith ''slice bounds out of range''
        | Some (True, tofu') \<Rightarrow> io_bind (setRes tofu') (\<lambda>_. io_bind (tofuUpdateRes cl) (\<lambda>_. io_return Done))
        | Some (False, _) \<Rightarrow>
            if tost_podNamePrefix (to_status tofu) = [] then tofuInitializeResource cl rnd
            else if stg_generation (tofuStage tofu) = 0 then tofuAddFirstStage cl
            else tofuReconcileStage cl ul rc))"

definition tofuReconcile :: "'w kube \<Rightarrow> 'w controlPlane \<Rightarrow> urllib \<Rightarrow> reconciler \<Rightarrow> (nat \<Rightarrow> nat \<Rightarrow> nat) \<Rightarrow> string
    \<Rightarrow> nsname \<Rightarrow> string \<Rightarrow> 'w tofuio" where
  "tofuReconcile cl cp ul rc rnd reconcilerID key lockKeyBase =
    io_bind (tofuCacheNodeSelectors cp rc) (\<lambda>_ s.
      let lockKey = lockKeyBase @ lockSuffix in
      (case map_of (r_cache s) lockKey of
         Some (CachedText lockOwner) \<Rightarrow> io_return (RequeueAfter 30)
       | Some _ \<Rightarrow> panicWith ''interface conversion''
       | None \<Rightarrow> io_bind (cacheSet lockKey (CachedText reconcilerID))
           (\<lambda>_. io_finally (tofuReconcileLocked cl ul rc rnd key) (cacheDelete lockKey))) s)"

definition ReconcileTofu :: "(string \<Rightarrow> goerr + 'w kube) option \<Rightarrow> (string \<Rightarrow> goerr + 'w recorder) option \<Rightarrow> 'w kube
    \<Rightarrow> 'w controlPlane \<Rightarrow> urllib \<Rightarrow> reconciler \<Rightarrow> (nat \<Rightarrow> nat \<Rightarrow> nat) \<Rightarrow> string \<Rightarrow> string \<Rightarrow> nsname \<Rightarrow> string \<Rightarrow> 'w tofuio" where
  "ReconcileTofu clients recorders own cp ul rc rnd reconcilerID clusterName key requestText =
    (case tofuClientForCluster clients own clusterName of
       Inl err \<Rightarrow> io_throw err
     | Inr cl \<Rightarrow>
        (case tofuRecorderForCluster recorders (k_event own) clusterName of
           Inl err \<Rightarrow> io_throw err
         | Inr rec \<Rightarrow> tofuReconcile (cl\<lparr>k_event := rec\<rparr>) cp ul rc rnd reconcilerID key requestText))"

end
