(* ===== verification/TofuWalk.thy ===== *)
theory TofuWalk
  imports TfWalk TofuReconcile
begin

text \<open>
  Once through the code of the Tofu controller behind the lock, as \<open>TfWalk\<close> through that of
  the Terraform controller: what its calls leave alone, and the locale \<open>tofu_walk\<close>.
\<close>

section \<open>What the calls of this controller leave alone\<close>

context cluster_frame begin

lemma frame_tofuUpdateSecretFinalizer: "keeps P (tofuUpdateSecretFinalizer cl tofu)"
  unfolding tofuUpdateSecretFinalizer_def lockGitSecrets_def by (intro frame_intros frame_objects)

lemma frame_helpers:
  "keeps P (resourceExists cl k key)" "keeps P (deleteExisting cl k key)" "keeps P (deleteAndCreate cl tofu ob)"
  "keeps P (tofuRequireObject cl k key)"
  unfolding resourceExists_def deleteExisting_def deleteAndCreate_def tofuRequireObject_def
  by (intro frame_intros frame_reports)+

lemma frame_tofuCreates:
  "keeps P (tofuCreateEnvFromSources cl rc tofu)" "keeps P (tofuCreatePVC cl tofu r)"
  "keeps P (tofuCreateSecret cl tofu name ns data recr om r)" "keeps P (tofuCreatePod cl tofu r)"
  "keeps P (tofuCreateJob cl tofu r)"
  unfolding tofuCreateEnvFromSources_def tofuCreatePVC_def tofuCreateSecret_def tofuCreatePod_def tofuCreateJob_def Let_def
  by (intro frame_intros frame_objects frame_helpers)+

lemma frame_tofuRun: "keeps P (tofuRun cl rc tofu r isNew isFirst)"
proof -
  have "keeps P (tofuCreateObjects cl rc tofu r)"
    unfolding tofuCreateObjects_def by (rule keeps_seq) (auto simp: frame_tofuCreates frame_helpers split: if_splits)
  moreover have "keeps P (tofuCheckObjects cl r)"
    unfolding tofuCheckObjects_def Let_def by (rule keeps_seq) (auto simp: frame_helpers)
  ultimately show ?thesis unfolding tofuRun_def by (intro frame_intros frame_tofuCreates)
qed

lemma frame_formatTofuJobSSHConfig: "keeps P (formatTofuJobSSHConfig cl tofu)"
  unfolding formatTofuJobSSHConfig_def sshKeyOf_def by (intro frame_intros frame_objects frame_sshHosts)

lemma frame_tofuSetupGeneration: "keeps P (tofuSetupGeneration cl ul rc tofu r)"
  unfolding tofuSetupGeneration_def io_of_sum_def Let_def
  by (intro frame_intros frame_objects frame_formatTofuJobSSHConfig frame_addGitAskpass)

lemma frame_tofuRemoveOldPlan: "keeps P (tofuRemoveOldPlan cl ns name reason g)"
  unfolding tofuRemoveOldPlan_def parsedSelector_def by (intro frame_intros)

lemma frame_tofuCheckSetNewStage: "keeps P (tofuCheckSetNewStage cl isRetry tofu)"
proof -
  have s: "keeps P (tofuSetNewStage cl tofu t r i st)" "keeps P (tofuNoNewStage tofu)" for tofu t r i st
    by (simp_all add: keeps_def tofuSetNewStage_def tofuNoNewStage_def split: prod.splits)
  show ?thesis unfolding tofuCheckSetNewStage_def tofuRestartWhenPodGone_def Let_def
    by (intro frame_intros s)
qed

text \<open>\<open>tofuUpdateStatusWithRetry\<close>, where the status writes keep the property as well.\<close>

lemma frame_tofuUpdateStatus:
  assumes w: "\<And>r. keeps P (k_status_update_tofu cl r)"
  shows "keeps P (tofuUpdateStatusWithRetry cl al tofu d)"
proof -
  have c: "keeps P (tofuConfirmStatus cl key d n)" for key d n
    by (induction n) (simp only: tofuConfirmStatus.simps, intro keeps_intros frame_resource, assumption?)+
  have "keeps P (tofuUpdateStatusRounds cl key d n ue)" for key d n ue
  proof (induction n arbitrary: ue)
    case 0
    show ?case unfolding tofuUpdateStatusRounds.simps tofuUpdateResult_def by (intro keeps_intros)
  next
    case (Suc n)
    show ?case unfolding tofuUpdateStatusRounds.simps by (intro keeps_intros frame_resource w c Suc.IH)
  qed
  then show ?thesis unfolding tofuUpdateStatusWithRetry_def tofuWithResource_def Let_def by (intro keeps_intros w c)
qed

end

text \<open>Several records updated at once keep the key and the task of the stage.\<close>

lemmas tofu_updates = tofuSetStageState_def tofuStopStage_def tofuObservePod_def tofuSet_defs tofuKey_def sameTask_def

text \<open>The rest is read off the Terraform controller's functions through \<open>asTf\<close>.\<close>

lemma asTf_key [simp]: "tfKey (asTf t) = tofuKey t"
  by (simp add: tfKey_def tofuKey_def)

lemma updateTofuFinalizer_keeps:
  "updateTofuFinalizer tofu = Some (b, tofu') \<Longrightarrow> tofuKey tofu' = tofuKey tofu \<and> tofuStage tofu' = tofuStage tofu"
  using updateFinalizer_keeps [of "asTf tofu" b "asTf tofu'"] by (simp add: same_updateFinalizer)

lemma tofu_marks_keep:
  "tofuKey (tofuMarkDeletion tofu) = tofuKey tofu \<and> tofuStage (tofuMarkDeletion tofu) = tofuStage tofu"
  "tofuMarkRetry now tofu = (retry, tofu') \<Longrightarrow> tofuKey tofu' = tofuKey tofu \<and> tofuStage tofu' = tofuStage tofu"
  using marks_keep(1) [of "asTf tofu"] marks_keep(2) [of now "asTf tofu" retry "asTf tofu'"]
  by (simp_all add: same_markDeletion same_markRetry)

lemma tofuCheckSetNewStage_resource:
  "tofuCheckSetNewStage cl isRetry tofu w = (Inr (so, tofu'), w') \<Longrightarrow>
    tofuKey tofu' = tofuKey tofu \<and> tofuStage tofu' = tofuStage tofu"
  using checkSetNewStage_resource [of cl isRetry "asTf tofu" w so "asTf tofu'" w'] by (simp add: same_checkSetNewStage)

section \<open>The walk\<close>

locale tofu_walk = resource_walk cl tofuKey tofuStage S F P
  for cl :: "'w kube" and S :: "Stage \<Rightarrow> bool" and F :: "'w \<Rightarrow> bool" and P :: "('w, Tofu) rstate \<Rightarrow> bool" +
  assumes walk_status: "keeps P (\<lambda>s. tofuAfterUpdate (tofuUpdateStatusWithRetry cl al (r_res s) (to_status (r_res s))) s)"
    and walk_update: "keeps P (tofuUpdateRes cl)"
begin

lemma walk_save: "keeps P (tofuSave cl)"
  using walk_status [of True] by (simp add: tofuSave_def tofuSaveStatus_def)

lemmas tofu_intros = walk_intros walk_save walk_update cluster_frame.frame_tofuUpdateSecretFinalizer [OF walk_frame]
  cluster_frame.frame_tofuRun [OF walk_frame] cluster_frame.frame_tofuSetupGeneration [OF walk_frame]
  cluster_frame.frame_tofuRemoveOldPlan [OF walk_frame] cluster_frame.frame_tofuCheckSetNewStage [OF walk_frame]

lemma walk_saves: "keeps P (tofuSaveThen cl e)" "keeps P (tofuSaveOrFail cl)"
  unfolding tofuSaveThen_def tofuSaveOrFail_def by (intro tofu_intros)+

lemma walk_withEvent:
  assumes "keeps P m"
  shows "keeps P (tofuWithEvent cl m)"
proof -
  have "keeps P (tofuEvent cl t r x)" for t r x
    unfolding tofuEvent_def by (rule keeps_state) (intro tofu_intros)
  then show ?thesis unfolding tofuWithEvent_def by (intro tofu_intros assms)
qed

lemma walk_removeFinalizers: "keeps P (tofuRemoveFinalizers cl)"
proof -
  have "keeps P (\<lambda>s. case updateTofuFinalizer (r_res s) of
        None \<Rightarrow> panicWith ''slice bounds out of range'' s | Some (_, tofu') \<Rightarrow> setRes tofu' s)"
    by (auto simp: keeps_def panicWith_def split: option.splits intro!: walk_res dest: updateTofuFinalizer_keeps)
  moreover have "keeps P (\<lambda>s. on_cluster (tofuUpdateSecretFinalizer cl (r_res s)) s)"
    by (rule keeps_state) (intro tofu_intros)
  ultimately show ?thesis unfolding tofuRemoveFinalizers_def by (intro tofu_intros walk_withEvent)
qed

lemma walk_setStatus:
  "(\<And>tofu. tost_stage (f tofu) = tofuStage tofu) \<Longrightarrow> keeps P (modifyRes (\<lambda>tofu. tofuSetStatus tofu (f tofu)))"
  by (rule walk_modify) (simp_all add: tofuSetStatus_def tofuKey_def)

lemma walk_initializeResource: "keeps P (tofuInitializeResource cl rnd)"
proof -
  have "keeps P (io_bind (modifyRes (\<lambda>tofu. tofuSetStatus tofu ((to_status tofu)\<lparr>tost_podNamePrefix := prefix,
                  tost_lastCompletedGeneration := 0, tost_phase := PhaseInitializing\<rparr>)))
         (\<lambda>_. tofuSaveThen cl Done))" for prefix
    by (intro tofu_intros walk_setStatus walk_saves) simp
  then show ?thesis unfolding tofuInitializeResource_def keeps_def
    by (auto simp: panicWith_def split: option.splits)
qed

lemma walk_addFirstStage:
  assumes "\<And>st. stg_taskType st = RunSetup \<Longrightarrow> S st"
  shows "keeps P (tofuAddFirstStage cl)"
proof -
  have "keeps P (\<lambda>s. case newTofuStage (k_now cl (r_cluster s)) (r_res s) RunSetup ''TF_RESOURCE_CREATED'' CanNotBeInterrupt StateInitializing of
        (stage, tofu) \<Rightarrow> setRes (tofuSetPlugins (tofuSetStage tofu stage) []) s)"
    unfolding keeps_def using assms
    by (auto simp: tofuSet_defs tofuKey_def newTofuStage_def Let_def intro!: walk_res)
  then show ?thesis unfolding tofuAddFirstStage_def by (intro tofu_intros walk_saves)
qed

lemma walk_moveStage:
  assumes "S stage"
  shows "keeps P (tofuMoveStage cl stage)"
proof -
  have a: "keeps P (\<lambda>s. (if isRestart (stg_reason stage)
       then io_try (on_cluster (tofuRemoveOldPlan cl (to_namespace (r_res s)) (to_name (r_res s))
               (stg_reason (tofuStage (r_res s))) (to_generation (r_res s)))) (\<lambda>_. io_return ()) io_return
       else io_return ()) s)"
    by (rule keeps_state) (intro tofu_intros)
  have b: "keeps P (modifyRes (\<lambda>tofu. tofuSetStage tofu stage))"
    by (rule walk_modify) (simp_all add: assms tofuSetStage_def tofuKey_def)
  have "keeps P (io_try (\<lambda>s. tofuAfterUpdate (tofuUpdateStatusWithRetry cl False (r_res s) (to_status (r_res s))) s)
               (\<lambda>_. io_return ()) io_return)"
    by (intro keeps_try walk_status keeps_return)
  then have c: "keeps P (\<lambda>s. io_try (tofuAfterUpdate (tofuUpdateStatusWithRetry cl False (r_res s) (to_status (r_res s))))
               (\<lambda>_. io_return ()) io_return s)"
    by (simp add: io_try_def)
  have d: "keeps P (\<lambda>s. (if tos_keepLatestPodsOnly (to_spec (r_res s))
       then io_bind (spawn (ReapOldGenerationPods (tofuOwner (r_res s)) (tofuKey (r_res s)) 0)) (\<lambda>_. io_return Done)
       else io_return Done) s)"
    by (rule keeps_state) (intro tofu_intros)
  show ?thesis unfolding tofuMoveStage_def by (intro keeps_bind a b c d)
qed

lemma walk_setPhase: "keeps P (modifyRes (\<lambda>tofu. tofuSetPhase tofu p))"
  by (rule walk_modify) (simp_all add: tofuSetPhase_def tofuKey_def)

lemma walk_finishWorkflow: "keeps P (tofuFinishWorkflow cl r)"
proof -
  have "keeps P (tofuLoadOutputs cl r)"
    unfolding tofuLoadOutputs_def tofuLoadSecret_def by (intro tofu_intros walk_setStatus; simp)
  note tail = tofu_intros walk_setPhase walk_saves this
  show ?thesis unfolding tofuFinishWorkflow_def by (rule keeps_state) (intro tail)
qed

lemma walk_createPluginJob: "keeps P (tofuCreatePluginJob cl rc env plugin)"
proof -
  have "keeps P (modifyRes (\<lambda>tofu. tofuSetPlugins tofu (tost_pluginsStarted (to_status tofu) @ [n])))" for n
    by (rule walk_modify) (simp_all add: tofuSetPlugins_def tofuKey_def)
  then have "keeps P (io_seq [spawn (CreateJob ow r), modifyRes (\<lambda>tofu. tofuSetPlugins tofu
      (tost_pluginsStarted (to_status tofu) @ [n])), tofuSave cl])" for ow r n
    by (intro tofu_intros)
  then show ?thesis unfolding tofuCreatePluginJob_def keeps_def by (simp del: io_seq.simps split: sum.splits)
qed

text \<open>The steps that follow the pod of a stage keep its generation and task.\<close>

lemma walk_stageSteps:
  assumes "taskBound S"
  shows "keeps P (modifyRes (tofuSetStageState st))" and "keeps P (modifyRes (tofuStopStage st now))"
    and "keeps P (modifyRes (tofuObservePod pod))"
    and "keeps P (modifyRes (\<lambda>tofu. tofuSetStageState st (tofuSetPhase tofu (phaseAfterStart (tofuPhase tofu)))))"
  by (rule walk_task [OF assms]; simp add: tofu_updates)+

lemma walk_launch:
  assumes "taskBound S"
  shows "keeps P (tofuLaunch cl ul rc runOpts)"
proof -
  have "keeps P (tofuSetupAndRun cl ul rc runOpts)"
    unfolding tofuSetupAndRun_def Let_def io_of_sum_def by (rule keeps_state) (intro tofu_intros)
  then show ?thesis unfolding tofuLaunch_def by (intro tofu_intros walk_stageSteps walk_saves assms)
qed

lemma walk_startStage:
  assumes "taskBound S"
  shows "keeps P (tofuStartStage cl ul rc sel env runOpts podType)"
proof -
  have "keeps P (withDeferred (map (tofuCreatePluginJob cl rc env) (pa_jobs acc))
      (if \<not> complete then io_return Requeue
       else case tofuAddApproval rc sel tofu podType env runOpts acc of
              None \<Rightarrow> io_return Requeue
            | Some acc' \<Rightarrow> tofuLaunch cl ul rc (runOpts\<lparr>o_sidecarPlugins := o_sidecarPlugins runOpts @ pa_pods acc'\<rparr>)))"
    for complete acc tofu
    by (rule keeps_withDeferred)
       (auto intro!: walk_createPluginJob keeps_if keeps_option keeps_return walk_launch assms)
  then show ?thesis unfolding tofuStartStage_def Let_def keeps_def by (simp split: prod.splits)
qed

lemma walk_followPod:
  assumes "taskBound S"
  shows "keeps P (tofuFollowPod cl pod)"
proof -
  have d: "keeps P (\<lambda>s. (if \<not> tos_keepCompletedPods (to_spec (r_res s)) \<and> \<not> tos_keepLatestPodsOnly (to_spec (r_res s))
      then io_try (on_cluster (k_delete cl PodKind pk)) (\<lambda>_. io_return Done) (\<lambda>_. io_return Done)
      else io_return Done) s)" for pk
    by (rule keeps_state) (intro tofu_intros)
  have "keeps P
     (if pod_phase pod = ''Failed''
       then io_bind (modifyRes (tofuStopStage StateFailed now)) (\<lambda>_. tofuSaveOrFail cl)
       else if pod_phase pod = ''Succeeded''
       then io_bind (modifyRes (tofuStopStage StateComplete now)) (\<lambda>_.
            io_bind (tofuSave cl) (\<lambda>_ s'.
              (if \<not> tos_keepCompletedPods (to_spec (r_res s')) \<and> \<not> tos_keepLatestPodsOnly (to_spec (r_res s'))
               then io_try (on_cluster (k_delete cl PodKind (pod_namespace pod, pod_name pod)))
                      (\<lambda>_. io_return Done) (\<lambda>_. io_return Done)
               else io_return Done) s'))
       else io_bind (modifyRes (tofuSetStageState (pod_phase pod))) (\<lambda>_. tofuSaveOrFail cl))" for now
    by (intro tofu_intros walk_stageSteps walk_saves d assms)
  then show ?thesis unfolding tofuFollowPod_def
    by (intro keeps_bind walk_stageSteps assms) (simp add: keeps_def)
qed

lemma walk_workOnStage:
  assumes "taskBound S"
  shows "keeps P (tofuWorkOnStage cl ul rc sel env runOpts)"
proof -
  have "keeps P (io_try (on_cluster (k_list_pods cl ns gen lab)) (\<lambda>_. io_return Done)
      (\<lambda>found. case podsSince since found of
         [] \<Rightarrow> (if inProgress then io_bind (modifyRes (tofuSetStageState StateInitializing)) (\<lambda>_. tofuSaveThen cl Requeue)
               else tofuStartStage cl ul rc sel env runOpts podType)
       | pod # _ \<Rightarrow> tofuFollowPod cl pod))" for ns gen lab since inProgress podType
    by (intro tofu_intros walk_stageSteps walk_saves walk_startStage walk_followPod assms)
  then show ?thesis unfolding tofuWorkOnStage_def Let_def keeps_def by simp
qed

lemma walk_handleStage:
  assumes "taskBound S"
  shows "keeps P (tofuHandleStage cl ul rc)"
  using walk_finishWorkflow walk_workOnStage [OF assms]
  by (simp add: tofuHandleStage_def keeps_def Let_def split: sum.splits)

lemma walk_finalizerAdded:
  assumes "updateTofuFinalizer tofu = Some (b, tofu')" and "tofuKey tofu = tofuKey (r_res s)" and "tofuStage tofu = tofuStage (r_res s)"
    and "P s"
  shows "P (snd (io_bind (setRes tofu') (\<lambda>_. io_bind (tofuUpdateRes cl) (\<lambda>_. io_return Done)) s))"
proof -
  have "P (s\<lparr>r_res := tofu'\<rparr>)"
    using updateTofuFinalizer_keeps [OF assms(1)] assms(2,3) by (intro walk_res [OF assms(4)]) simp_all
  moreover have "keeps P (io_bind (tofuUpdateRes cl) (\<lambda>_. io_return Done))" by (intro tofu_intros)
  ultimately show ?thesis by (simp add: io_bind_def [of "setRes tofu'"] keeps_def)
qed

end

text \<open>A property that does not look at the resource is kept by everything behind the lock.\<close>

locale tofu_free_walk = tofu_walk cl "\<lambda>_. True" F P
  for cl :: "'w kube" and F :: "'w \<Rightarrow> bool" and P :: "('w, Tofu) rstate \<Rightarrow> bool" +
  assumes walk_any: "P s \<Longrightarrow> P (s\<lparr>r_res := r\<rparr>)"
begin

lemma walk_setRes: "keeps P (setRes r)"
  by (simp add: keeps_def walk_any)

lemma walk_reconcileStage: "keeps P (tofuReconcileStage cl ul rc)"
proof -
  have anyStage: "taskBound (\<lambda>_. True)" by (simp add: taskBound_def)
  have "keeps P (modifyRes tofuMarkDeletion)" by (simp add: keeps_def walk_any)
  moreover have "keeps P (\<lambda>s. case tofuMarkRetry (k_now cl (r_cluster s)) (r_res s) of
        (retry, tofu) \<Rightarrow> (Inr retry, s\<lparr>r_res := tofu\<rparr>))"
    by (simp add: keeps_def walk_any split: prod.splits)
  moreover have "keeps P (\<lambda>s. on_cluster (tofuCheckSetNewStage cl retry (r_res s)) s)" for retry
    by (rule keeps_state) (intro tofu_intros)
  ultimately show ?thesis unfolding tofuReconcileStage_def
    by (intro keeps_intros walk_setRes walk_moveStage walk_handleStage anyStage) simp_all
qed

lemma walk_reconcileLocked: "keeps P (tofuReconcileLocked cl ul rc rnd key)"
  unfolding tofuReconcileLocked_def panicWith_def
  by (intro tofu_intros walk_setRes walk_removeFinalizers walk_initializeResource walk_addFirstStage
      walk_reconcileStage TrueI)

end

end
