(* ===== verification/TofuRefine.thy ===== *)
theory TofuRefine
  imports TofuWalk TfRefine
begin

text \<open>
  What one reconciliation does to the stored \<open>Tofu\<close> resources: as \<open>TfRefine\<close>, for the code
  of the Tofu controller. \<open>tofu_store\<close> states the documented behaviour of the API server for
  this kind. Read through \<open>tfView\<close> it is \<open>tf_store\<close>, which gives the loops of
  \<open>updateStatusWithRetry\<close>; the walk over the code is that of \<open>TofuWalk\<close>.
\<close>

section \<open>The API server, for resources of this kind\<close>

definition tofu_store :: "'w kube \<Rightarrow> ('w \<Rightarrow> nsname \<Rightarrow> Tofu option) \<Rightarrow> bool" where
  "tofu_store cl stored \<longleftrightarrow> untouched cl stored \<and>
    (\<forall>key w tofu w'. k_get_tofu cl key w = (Inr tofu, w') \<longrightarrow> tofuKey tofu = key \<and> stored w key = Some tofu) \<and>
    (\<forall>tofu w e w'. k_status_update_tofu cl tofu w = (Inl e, w') \<longrightarrow> stored w' = stored w) \<and>
    (\<forall>tofu w tofu' w'. k_status_update_tofu cl tofu w = (Inr tofu', w') \<longrightarrow>
       tofuKey tofu' = tofuKey tofu \<and> to_status tofu' = to_status tofu \<and>
       stored w' \<in> {stored w, (stored w)(tofuKey tofu \<mapsto> tofu')}) \<and>
    (\<forall>tofu w e w'. k_update_tofu cl tofu w = (Inl e, w') \<longrightarrow> stored w' = stored w) \<and>
    (\<forall>tofu w tofu' w'. k_update_tofu cl tofu w = (Inr tofu', w') \<longrightarrow>
       tofuKey tofu' = tofuKey tofu \<and>
       (tofuStage tofu' = tofuStage tofu \<or> (\<exists>old. stored w (tofuKey tofu) = Some old \<and> tofuStage tofu' = tofuStage old)) \<and>
       stored w' \<in> {stored w, (stored w)(tofuKey tofu \<mapsto> tofu'), (stored w)(tofuKey tofu := None)})"

text \<open>The stored resources read as \<open>Terraform\<close> resources.\<close>

definition storedAsTf :: "('w \<Rightarrow> nsname \<Rightarrow> Tofu option) \<Rightarrow> 'w \<Rightarrow> nsname \<Rightarrow> Terraform option" where
  "storedAsTf stored w key = map_option asTf (stored w key)"

lemma asTf_inj [simp]: "asTf t = asTf u \<longleftrightarrow> t = u"
  by (metis asTofu_asTf(1))

lemma storedAsTf_same: "stored w' = stored w \<Longrightarrow> storedAsTf stored w' = storedAsTf stored w"
  by (simp add: storedAsTf_def fun_eq_iff)

lemma storedAsTf_upd:
  "stored w' = (stored w)(k := v) \<Longrightarrow> storedAsTf stored w' = (storedAsTf stored w)(k := map_option asTf v)"
  by (auto simp: storedAsTf_def fun_eq_iff)

lemma storedAsTf_writes:
  "stored w' \<in> {stored w, (stored w)(k \<mapsto> t)} \<Longrightarrow>
    storedAsTf stored w' \<in> {storedAsTf stored w, (storedAsTf stored w)(k \<mapsto> asTf t)}"
  "stored w' \<in> {stored w, (stored w)(k \<mapsto> t), (stored w)(k := None)} \<Longrightarrow>
    storedAsTf stored w' \<in> {storedAsTf stored w, (storedAsTf stored w)(k \<mapsto> asTf t), (storedAsTf stored w)(k := None)}"
  using storedAsTf_same [of stored w' w] storedAsTf_upd [of stored w' w k "Some t"] storedAsTf_upd [of stored w' w k None]
  by (simp_all only: insert_iff empty_iff option.map) blast+

locale tofu_server =
  fixes cl :: "'w kube" and stored :: "'w \<Rightarrow> nsname \<Rightarrow> Tofu option"
  assumes store: "tofu_store cl stored"
begin

lemma store_calls:
  "untouched cl stored"
  "k_get_tofu cl key w = (Inr tofu, w') \<Longrightarrow> tofuKey tofu = key \<and> stored w key = Some tofu"
  "k_status_update_tofu cl tofu w = (Inl e, w') \<Longrightarrow> stored w' = stored w"
  "k_status_update_tofu cl tofu w = (Inr tofu', w') \<Longrightarrow>
    tofuKey tofu' = tofuKey tofu \<and> to_status tofu' = to_status tofu \<and> stored w' \<in> {stored w, (stored w)(tofuKey tofu \<mapsto> tofu')}"
  "k_update_tofu cl tofu w = (Inl e, w') \<Longrightarrow> stored w' = stored w"
  "k_update_tofu cl tofu w = (Inr tofu', w') \<Longrightarrow>
    tofuKey tofu' = tofuKey tofu \<and>
    (tofuStage tofu' = tofuStage tofu \<or> (\<exists>old. stored w (tofuKey tofu) = Some old \<and> tofuStage tofu' = tofuStage old)) \<and>
    stored w' \<in> {stored w, (stored w)(tofuKey tofu \<mapsto> tofu'), (stored w)(tofuKey tofu := None)}"
  using store unfolding tofu_store_def by blast+

lemma store_status_stage:
  "k_status_update_tofu cl tofu w = (Inr tofu', w') \<Longrightarrow>
    tofuKey tofu' = tofuKey tofu \<and> tofuStage tofu' = tofuStage tofu \<and>
    stored w' \<in> {stored w, (stored w)(tofuKey tofu \<mapsto> tofu')}"
  using store_calls(4) [of tofu w tofu' w'] by simp

lemma store_get_tofu_leaves: "leaves stored (k_get_tofu cl key)"
  using store_calls(1) unfolding untouched_def by (elim conjE) (rule spec)

lemma view_store: "tf_store (tfView cl) (storedAsTf stored)"
  unfolding tf_store_def
proof (intro conjI allI impI)
  have "leaves stored (k_get_tf (tfView cl) key)" for key
    using store_get_tofu_leaves [of key] by (simp add: leaves_def)
  then have "untouched (tfView cl) stored"
    using store_calls(1) unfolding untouched_def by (simp add: tfView_def)
  then show "untouched (tfView cl) (storedAsTf stored)" by (rule untouched_view) (rule storedAsTf_same)
next
  fix key w tf w' assume "k_get_tf (tfView cl) key w = (Inr tf, w')"
  then obtain t where "k_get_tofu cl key w = (Inr t, w')" "tf = asTf t"
    by (cases "k_get_tofu cl key w"; cases "fst (k_get_tofu cl key w)") auto
  then show "tfKey tf = key" "storedAsTf stored w key = Some tf"
    using store_calls(2) by (simp_all add: storedAsTf_def)
next
  fix tf w e w' assume "k_status_update_tf (tfView cl) tf w = (Inl e, w')"
  then have "k_status_update_tofu cl (asTofu tf) w = (Inl e, w')"
    by (cases "k_status_update_tofu cl (asTofu tf) w"; cases "fst (k_status_update_tofu cl (asTofu tf) w)") auto
  then show "storedAsTf stored w' = storedAsTf stored w" by (intro storedAsTf_same store_calls(3))
next
  fix tf w tf' w' assume "k_status_update_tf (tfView cl) tf w = (Inr tf', w')"
  then obtain t where t: "k_status_update_tofu cl (asTofu tf) w = (Inr t, w')" "tf' = asTf t"
    by (cases "k_status_update_tofu cl (asTofu tf) w"; cases "fst (k_status_update_tofu cl (asTofu tf) w)") auto
  note s = store_calls(4) [OF t(1)]
  have k: "tofuKey (asTofu tf) = tfKey tf" by (simp add: tofuKey_def tfKey_def asTofu_def)
  then show "tfKey tf' = tfKey tf" using s t(2) by simp
  show "tf_status tf' = tf_status tf" using s t(2) by (simp add: asTofu_def)
  show "storedAsTf stored w' \<in> {storedAsTf stored w, (storedAsTf stored w)(tfKey tf \<mapsto> tf')}"
    unfolding t(2) using s k by (intro storedAsTf_writes) simp
next
  fix tf w e w' assume "k_update_tf (tfView cl) tf w = (Inl e, w')"
  then have "k_update_tofu cl (asTofu tf) w = (Inl e, w')"
    by (cases "k_update_tofu cl (asTofu tf) w"; cases "fst (k_update_tofu cl (asTofu tf) w)") auto
  then show "storedAsTf stored w' = storedAsTf stored w" by (intro storedAsTf_same store_calls(5))
next
  fix tf w tf' w' assume "k_update_tf (tfView cl) tf w = (Inr tf', w')"
  then obtain t where t: "k_update_tofu cl (asTofu tf) w = (Inr t, w')" "tf' = asTf t"
    by (cases "k_update_tofu cl (asTofu tf) w"; cases "fst (k_update_tofu cl (asTofu tf) w)") auto
  note s = store_calls(6) [OF t(1)]
  have k: "tofuKey (asTofu tf) = tfKey tf" by (simp add: tofuKey_def tfKey_def asTofu_def)
  then show "tfKey tf' = tfKey tf" using s t(2) by simp
  show "tfStage tf' = tfStage tf \<or> (\<exists>old. storedAsTf stored w (tfKey tf) = Some old \<and> tfStage tf' = tfStage old)"
    using s t(2) k by (auto simp: storedAsTf_def)
  show "storedAsTf stored w' \<in> {storedAsTf stored w, (storedAsTf stored w)(tfKey tf \<mapsto> tf'), (storedAsTf stored w)(tfKey tf := None)}"
    unfolding t(2) using s k by (intro storedAsTf_writes) simp
qed

end

sublocale tofu_server \<subseteq> resource_server cl tofuKey tofuStage "k_get_tofu cl" "k_status_update_tofu cl" "k_update_tofu cl" stored
  using store_calls(1-3,5-6) store_status_stage store_get_tofu_leaves by (intro resource_server.intro) blast+

sublocale tofu_server \<subseteq> view: tf_server "tfView cl" "storedAsTf stored"
  by (rule tf_server.intro) (rule view_store)

context tofu_server begin

section \<open>The steps of a reconciliation\<close>

lemma view_held: "view.held S (\<lambda>k. map_option asTf (T k)) key w \<longleftrightarrow> held S T key w"
proof -
  have "map_option asTf a = map_option asTf b \<longleftrightarrow> a = b" for a b by (cases a; cases b) auto
  then show ?thesis by (auto simp: held_def view.held_def storedAsTf_def)
qed

text \<open>From the view's \<open>updateStatusWithRetry\<close>.\<close>

lemma held_updateStatus:
  assumes "tofuUpdateStatusWithRetry cl al t d w = (r, w')" and "held S T (tofuKey t) w"
    and "S (tofuStage t)" and "S (tost_stage d)"
  shows "held S T (tofuKey t) w' \<and> (\<forall>eo t'. r = Inr (eo, t') \<longrightarrow> tofuKey t' = tofuKey t \<and> S (tofuStage t'))"
proof -
  obtain q v where q: "updateStatusWithRetry (tfView cl) al (asTf t) (asTfStatus d) w = (q, v)"
    by (rule prod.exhaust)
  have a: "alike sameSaved (r, w') (q, v)" using same_updateStatusWithRetry [of cl al t d w] assms(1) q by simp
  have "view.held S (\<lambda>k. map_option asTf (T k)) (tfKey (asTf t)) v \<and>
      (\<forall>eo tf'. q = Inr (eo, tf') \<longrightarrow> tfKey tf' = tfKey (asTf t) \<and> S (tfStage tf'))"
    by (rule view.held_updateStatus [OF q]) (use assms(2-4) in \<open>simp_all add: view_held\<close>)
  then show ?thesis using a by (cases r; cases q) (auto simp: view_held sameSaved_def sameTf_def)
qed

lemma joint_status:
  "keeps (joint S T key) (\<lambda>s. tofuAfterUpdate (tofuUpdateStatusWithRetry cl al (r_res s) (to_status (r_res s))) s)"
  unfolding keeps_def
proof (intro allI impI)
  fix s assume j: "joint S T key s"
  obtain r v where u: "tofuUpdateStatusWithRetry cl al (r_res s) (to_status (r_res s)) (r_cluster s) = (r, v)"
    by (rule prod.exhaust)
  have "held S T (tofuKey (r_res s)) v \<and> (\<forall>eo t'. r = Inr (eo, t') \<longrightarrow> tofuKey t' = tofuKey (r_res s) \<and> S (tofuStage t'))"
    by (rule held_updateStatus [OF u]) (use j in \<open>simp_all add: joint_def\<close>)
  then show "joint S T key (snd (tofuAfterUpdate (tofuUpdateStatusWithRetry cl al (r_res s) (to_status (r_res s))) s))"
    using j u by (cases r) (auto simp: tofuAfterUpdate_def joint_def split: prod.splits)
qed

lemma joint_updateRes: "keeps (joint S T key) (tofuUpdateRes cl)"
  unfolding keeps_def
proof (intro allI impI)
  fix s assume j: "joint S T key s"
  obtain r v where u: "k_update_tofu cl (r_res s) (r_cluster s) = (r, v)" by (rule prod.exhaust)
  have "held S T (tofuKey (r_res s)) v \<and> (\<forall>t'. r = Inr t' \<longrightarrow> tofuKey t' = tofuKey (r_res s) \<and> S (tofuStage t'))"
    by (rule held_update [OF u]) (use j in \<open>simp_all add: joint_def\<close>)
  then show "joint S T key (snd (tofuUpdateRes cl s))"
    using j u by (cases r) (auto simp: tofuUpdateRes_def updateTofu_def on_cluster_def io_bind_def io_try_def joint_def)
qed

lemma joint_walk: "tofu_walk cl S (held S T key) (joint S T key)"
  by (intro tofu_walk.intro tofu_walk_axioms.intro joint_walks joint_status joint_updateRes)

lemma tofuReconcileStage_progress:
  assumes "joint (\<lambda>st. st = old) T key s" and "stg_generation old \<noteq> 0"
  shows "joint (progress (tofuAdvance cl) old) T key (snd (tofuReconcileStage cl ul rc s))"
proof -
  obtain retry t2 where m: "tofuMarkRetry (k_now cl (r_cluster s)) (tofuMarkDeletion (r_res s)) = (retry, t2)"
    by (rule prod.exhaust)
  have k2: "tofuKey t2 = key" "tofuStage t2 = old"
    using assms tofu_marks_keep(1) tofu_marks_keep(2) [OF m] by (simp_all add: joint_def)
  obtain a w where c: "tofuCheckSetNewStage cl retry t2 (r_cluster s) = (a, w)" by (rule prod.exhaust)
  show ?thesis
  proof (rule joint_staged [where check = "tofuCheckSetNewStage cl retry t2", OF assms k2 c])
    show "tofuReconcileStage cl ul rc s = (case a of Inl e \<Rightarrow> (Inl e, s\<lparr>r_res := t2, r_cluster := w\<rparr>)
       | Inr (so, r) \<Rightarrow> (case so of Some st \<Rightarrow> tofuMoveStage cl st | None \<Rightarrow> tofuHandleStage cl ul rc)
           (s\<lparr>r_res := t2, r_cluster := w, r_res := r\<rparr>))"
      using m c by (simp add: tofuReconcileStage_def io_bind_def on_cluster_def split: sum.splits prod.splits)
    show "keeps (held (sameTask old) T key) (tofuCheckSetNewStage cl retry t2)"
      by (rule cluster_frame.frame_tofuCheckSetNewStage [OF held_frame])
    show "tofuKey r = key \<and> tofuStage r = old" if "a = Inr (so, r)" for so r
      using tofuCheckSetNewStage_resource [of cl retry t2 "r_cluster s" so r w] c that k2 by simp
    show "tofuAdvance cl old st" if "a = Inr (Some st, r)" for st r
      unfolding tofuAdvance_def using c that k2(2) by blast
    show "keeps (joint (progress (tofuAdvance cl) old) T key) (tofuMoveStage cl st)"
      if "progress (tofuAdvance cl) old st" for st
      using that by (rule tofu_walk.walk_moveStage [OF joint_walk])
    show "keeps (joint (sameTask old) T key) (tofuHandleStage cl ul rc)"
      by (rule tofu_walk.walk_handleStage [OF joint_walk sameTask_bound])
  qed
qed

lemma tofuReconcileLocked_progress:
  assumes "tofuReconcileLocked cl ul rc rnd key s = (a, s')"
  shows "(\<forall>k. k \<noteq> key \<longrightarrow> stored (r_cluster s') k = stored (r_cluster s) k) \<and>
    (\<forall>t'. stored (r_cluster s') key = Some t' \<longrightarrow>
      (\<exists>t. stored (r_cluster s) key = Some t \<and> progress (tofuAdvance cl) (tofuStage t) (tofuStage t')))"
proof -
  define body where "body = (\<lambda>tofu. if tofuPhase tofu = PhaseDeleted then tofuRemoveFinalizers cl
        else case updateTofuFinalizer tofu of
          None \<Rightarrow> panicWith ''slice bounds out of range''
        | Some (True, tofu') \<Rightarrow> io_bind (setRes tofu') (\<lambda>_. io_bind (tofuUpdateRes cl) (\<lambda>_. io_return Done))
        | Some (False, _) \<Rightarrow>
            if tost_podNamePrefix (to_status tofu) = [] then tofuInitializeResource cl rnd
            else if stg_generation (tofuStage tofu) = 0 then tofuAddFirstStage cl
            else tofuReconcileStage cl ul rc)"
  obtain g w where g: "getRetry zeroTofu (k_get_tofu cl key) 3 (r_cluster s) = (g, w)" by (rule prod.exhaust)
  show ?thesis
  proof (rule read_then_progress [where run = "tofuReconcileLocked cl ul rc rnd key" and body = body, OF g _ _ _ assms])
    show "tofuReconcileLocked cl ul rc rnd key s =
       (case g of Inl e \<Rightarrow> (if \<not> is_panic e \<and> IsNotFound e then Inr Done else Inl e, s\<lparr>r_cluster := w\<rparr>)
        | Inr t \<Rightarrow> body t (s\<lparr>r_cluster := w, r_res := t\<rparr>))"
      using g by (simp add: tofuReconcileLocked_def getTofuResource_def io_try_def on_cluster_def body_def
          io_bind_def [of "setRes _"] split: sum.split)
  next
    fix t
    let ?s = "s\<lparr>r_cluster := w, r_res := t\<rparr>" and ?P = "joint (progress (tofuAdvance cl) (tofuStage t)) (stored (r_cluster s)) key"
    assume j1: "joint (\<lambda>st. st = tofuStage t) (stored (r_cluster s)) key ?s"
    then have j: "?P ?s" by (rule joint_mono) (simp add: sameTask_progress)
    note walk = joint_walk [of "progress (tofuAdvance cl) (tofuStage t)" "stored (r_cluster s)" key]
    have k: "?P (snd (m ?s))" if "keeps ?P m" for m :: "'w tofuio"
      using that j by (simp add: keeps_def)
    have a: "keeps ?P (tofuAddFirstStage cl)" if "stg_generation (tofuStage t) = 0"
      using that by (intro tofu_walk.walk_addFirstStage [OF walk]) (simp add: progress_def)
    show "?P (snd (body t ?s))"
      unfolding body_def
      using k [OF tofu_walk.walk_removeFinalizers [OF walk]] tofu_walk.walk_finalizerAdded [OF walk, of t _ _ ?s]
        k [OF tofu_walk.walk_initializeResource [OF walk]] k [OF a] tofuReconcileStage_progress [OF j1] j
      by (simp add: panicWith_def split: option.splits prod.splits bool.splits)
  qed simp
qed

end

section \<open>Both controllers on one cluster\<close>

text \<open>Writing a resource of one kind stores nothing of the other.\<close>

definition apart :: "'w kube \<Rightarrow> ('w \<Rightarrow> 'a) \<Rightarrow> ('w \<Rightarrow> 'b) \<Rightarrow> bool" where
  "apart cl tfs tofus \<longleftrightarrow>
    (\<forall>r. leaves tfs (k_update_tofu cl r)) \<and> (\<forall>r. leaves tfs (k_status_update_tofu cl r)) \<and>
    (\<forall>r. leaves tofus (k_update_tf cl r)) \<and> (\<forall>r. leaves tofus (k_status_update_tf cl r))"

text \<open>Any reconciliation, of any resource, by either controller.\<close>

definition tofuRuns :: "'w kube \<Rightarrow> nsname \<Rightarrow> 'w \<Rightarrow> 'w \<Rightarrow> bool" where
  "tofuRuns cl key w w' \<longleftrightarrow>
    (\<exists>ul rc rnd s r s'. r_cluster s = w \<and> tofuReconcileLocked cl ul rc rnd key s = (r, s') \<and> r_cluster s' = w')"

definition bothRuns :: "'w kube \<Rightarrow> 'w \<Rightarrow> 'w \<Rightarrow> bool" where
  "bothRuns cl w w' \<longleftrightarrow> (\<exists>key. tfRuns cl key w w' \<or> tofuRuns cl key w w')"

text \<open>The stages of the \<open>Terraform\<close> and of the \<open>Tofu\<close> stored under a key.\<close>

definition stageOfTf :: "('w \<Rightarrow> nsname \<Rightarrow> Terraform option) \<Rightarrow> nsname \<Rightarrow> 'w \<Rightarrow> Stage option" where
  "stageOfTf stored key w = map_option tfStage (stored w key)"

definition stageOfTofu :: "('w \<Rightarrow> nsname \<Rightarrow> Tofu option) \<Rightarrow> nsname \<Rightarrow> 'w \<Rightarrow> Stage option" where
  "stageOfTofu stored key w = map_option tofuStage (stored w key)"

text \<open>A reconciliation of one kind, seen from the part of the state that holds the other.\<close>

lemma keeps_afterUpdate:
  fixes F :: "'w \<Rightarrow> bool"
  assumes k: "keeps F m"
  shows "keeps (\<lambda>s. F (r_cluster s)) (afterUpdate m)"
  unfolding keeps_def
proof (intro allI impI)
  fix s :: "('w, Terraform) rstate" assume f: "F (r_cluster s)"
  obtain r w where m: "m (r_cluster s) = (r, w)" by (rule prod.exhaust)
  then have "F w" using keepsD [OF k f] by blast
  then show "F (r_cluster (snd (afterUpdate m s)))"
    using m by (cases r) (auto simp: afterUpdate_def split: prod.split)
qed

lemma tf_leaves_view:
  assumes "untouched cl v" and "\<And>r. leaves v (k_update_tf cl r)" and "\<And>r. leaves v (k_status_update_tf cl r)"
  shows "v (r_cluster (snd (reconcileLocked cl ul rc rnd key s))) = v (r_cluster s)"
proof -
  define F where "F = (\<lambda>w. v w = v (r_cluster s))"
  have frame: "cluster_frame cl F" unfolding F_def by (rule untouched_frame [OF assms(1)])
  have calls: "keeps F (k_update_tf cl r)" "keeps F (k_status_update_tf cl r)" for r
    using assms(2,3) by (simp_all add: F_def leaves_keeps)
  have st: "keeps (\<lambda>s. F (r_cluster s)) (afterUpdate (updateStatusWithRetry cl al r d))" for al r d
    by (rule keeps_afterUpdate) (rule cluster_frame.frame_updateStatus [OF frame calls(2)])
  have "tf_free_walk cl F (\<lambda>s. F (r_cluster s))"
  proof (intro tf_free_walk.intro tf_free_walk_axioms.intro tf_walk.intro tf_walk_axioms.intro resource_walk.intro frame)
    show "keeps (\<lambda>s. F (r_cluster s)) (\<lambda>s. afterUpdate (updateStatusWithRetry cl al (r_res s) (tf_status (r_res s))) s)" for al
      by (rule keeps_state) (rule st)
    have "keeps (\<lambda>s. F (r_cluster s)) (io_bind (on_cluster (updateTf cl r)) setRes)" for r
      unfolding updateTf_def by (intro keeps_intros keeps_on_cluster calls) (simp add: keeps_def)
    then show "keeps (\<lambda>s. F (r_cluster s)) (updateRes cl)"
      unfolding updateRes_def by (rule keeps_state)
  qed simp_all
  from tf_free_walk.walk_reconcileLocked [OF this, of ul rc rnd key] show ?thesis
    unfolding keeps_def F_def by blast
qed

lemma keeps_tofuAfterUpdate:
  fixes F :: "'w \<Rightarrow> bool"
  assumes k: "keeps F m"
  shows "keeps (\<lambda>s. F (r_cluster s)) (tofuAfterUpdate m)"
  unfolding keeps_def
proof (intro allI impI)
  fix s :: "('w, Tofu) rstate" assume f: "F (r_cluster s)"
  obtain r w where m: "m (r_cluster s) = (r, w)" by (rule prod.exhaust)
  then have "F w" using keepsD [OF k f] by blast
  then show "F (r_cluster (snd (tofuAfterUpdate m s)))"
    using m by (cases r) (auto simp: tofuAfterUpdate_def split: prod.split)
qed

lemma tofu_leaves_view:
  assumes "untouched cl v" and "\<And>r. leaves v (k_update_tofu cl r)" and "\<And>r. leaves v (k_status_update_tofu cl r)"
  shows "v (r_cluster (snd (tofuReconcileLocked cl ul rc rnd key s))) = v (r_cluster s)"
proof -
  define F where "F = (\<lambda>w. v w = v (r_cluster s))"
  have frame: "cluster_frame cl F" unfolding F_def by (rule untouched_frame [OF assms(1)])
  have calls: "keeps F (k_update_tofu cl r)" "keeps F (k_status_update_tofu cl r)" for r
    using assms(2,3) by (simp_all add: F_def leaves_keeps)
  have st: "keeps (\<lambda>s. F (r_cluster s)) (tofuAfterUpdate (tofuUpdateStatusWithRetry cl al r d))" for al r d
    by (rule keeps_tofuAfterUpdate) (rule cluster_frame.frame_tofuUpdateStatus [OF frame calls(2)])
  have "tofu_free_walk cl F (\<lambda>s. F (r_cluster s))"
  proof (intro tofu_free_walk.intro tofu_free_walk_axioms.intro tofu_walk.intro tofu_walk_axioms.intro resource_walk.intro frame)
    show "keeps (\<lambda>s. F (r_cluster s)) (\<lambda>s. tofuAfterUpdate (tofuUpdateStatusWithRetry cl al (r_res s) (to_status (r_res s))) s)" for al
      by (rule keeps_state) (rule st)
    have "keeps (\<lambda>s. F (r_cluster s)) (io_bind (on_cluster (updateTofu cl r)) setRes)" for r
      unfolding updateTofu_def by (intro keeps_intros keeps_on_cluster calls) (simp add: keeps_def)
    then show "keeps (\<lambda>s. F (r_cluster s)) (tofuUpdateRes cl)"
      unfolding tofuUpdateRes_def by (rule keeps_state)
  qed simp_all
  from tofu_free_walk.walk_reconcileLocked [OF this, of ul rc rnd key] show ?thesis
    unfolding keeps_def F_def by blast
qed

text \<open>What any reconciliation does to the stages of either kind.\<close>

lemma bothRuns_progress:
  assumes "tf_store cl tfs" and "tofu_store cl tofus" and "apart cl tfs tofus" and "bothRuns cl w w'"
  shows "stageOfTf tfs key w' = Some st' \<Longrightarrow> \<exists>st. stageOfTf tfs key w = Some st \<and> progress (tfAdvance cl) st st'"
    and "stageOfTofu tofus key w' = Some st' \<Longrightarrow> \<exists>st. stageOfTofu tofus key w = Some st \<and> progress (tofuAdvance cl) st st'"
proof -
  note t = tf_server.intro [OF assms(1)] and o = tofu_server.intro [OF assms(2)]
  have u: "untouched cl tfs" "untouched cl tofus" using assms(1,2) by (simp_all add: tf_store_def tofu_store_def)
  consider (tf) k where "tfRuns cl k w w'" | (tofu) k where "tofuRuns cl k w w'"
    using assms(4) unfolding bothRuns_def by blast
  note runs = this
  show "\<exists>st. stageOfTf tfs key w = Some st \<and> progress (tfAdvance cl) st st'" if s: "stageOfTf tfs key w' = Some st'"
  proof (cases rule: runs)
    case (tf k)
    then obtain ul rc rnd s r s' where r: "r_cluster s = w" "reconcileLocked cl ul rc rnd k s = (r, s')" "r_cluster s' = w'"
      unfolding tfRuns_def by blast
    show ?thesis using tf_server.reconcileLocked_progress [OF t r(2)] r(1,3) s
      by (cases "k = key") (force simp: stageOfTf_def, force simp: stageOfTf_def progress_def)
  next
    case (tofu k)
    then have "tfs w' = tfs w" unfolding tofuRuns_def
      using tofu_leaves_view [OF u(1)] assms(3) unfolding apart_def by (metis snd_conv)
    then show ?thesis using s by (auto simp: stageOfTf_def progress_def)
  qed
  show "\<exists>st. stageOfTofu tofus key w = Some st \<and> progress (tofuAdvance cl) st st'" if s: "stageOfTofu tofus key w' = Some st'"
  proof (cases rule: runs)
    case (tofu k)
    then obtain ul rc rnd s r s' where r: "r_cluster s = w" "tofuReconcileLocked cl ul rc rnd k s = (r, s')" "r_cluster s' = w'"
      unfolding tofuRuns_def by blast
    show ?thesis using tofu_server.tofuReconcileLocked_progress [OF o r(2)] r(1,3) s
      by (cases "k = key") (force simp: stageOfTofu_def, force simp: stageOfTofu_def progress_def)
  next
    case (tf k)
    then have "tofus w' = tofus w" unfolding tfRuns_def
      using tf_leaves_view [OF u(2)] assms(3) unfolding apart_def by (metis snd_conv)
    then show ?thesis using s by (auto simp: stageOfTofu_def progress_def)
  qed
qed

text \<open>
  The worlds in which both controllers work side by side: at first nothing is stored; then
  any resource of either kind is reconciled, in any order, or anything else happens that
  gives no resource a stage.
\<close>

definition noNewStageAt :: "Stage option \<Rightarrow> Stage option \<Rightarrow> bool" where
  "noNewStageAt old new \<longleftrightarrow>
    (\<forall>st'. new = Some st' \<longrightarrow> stg_generation st' = 0 \<or> (\<exists>st. old = Some st \<and> sameTask st st'))"

inductive shared_world :: "'w kube \<Rightarrow> ('w \<Rightarrow> nsname \<Rightarrow> Terraform option) \<Rightarrow> ('w \<Rightarrow> nsname \<Rightarrow> Tofu option) \<Rightarrow> 'w \<Rightarrow> bool"
  for cl tfs tofus where
  Nothing: "\<forall>key. tfs w key = None \<and> tofus w key = None \<Longrightarrow> shared_world cl tfs tofus w"
| Reconciled: "shared_world cl tfs tofus w \<Longrightarrow> bothRuns cl w w' \<Longrightarrow> shared_world cl tfs tofus w'"
| Elsewhere: "shared_world cl tfs tofus w \<Longrightarrow>
    \<forall>key. noNewStageAt (stageOfTf tfs key w) (stageOfTf tfs key w') \<and>
          noNewStageAt (stageOfTofu tofus key w) (stageOfTofu tofus key w') \<Longrightarrow>
    shared_world cl tfs tofus w'"

lemma shared_world_stages:
  assumes "shared_world cl tfs tofus w"
  shows "stage_world (bothRuns cl) (stageOfTf tfs key) w \<and> stage_world (bothRuns cl) (stageOfTofu tofus key) w"
  using assms
proof induction
  case (Nothing w)
  then show ?case by (auto intro!: stage_world.Absent simp: stageOfTf_def stageOfTofu_def simp del: split_paired_All)
next
  case (Reconciled w w')
  then show ?case by (auto intro: stage_world.Reconciled)
next
  case (Elsewhere w w')
  then show ?case unfolding noNewStageAt_def by (blast intro: stage_world.Elsewhere)
qed

section \<open>The cluster in memory\<close>

definition memTofus :: "mem \<Rightarrow> nsname \<Rightarrow> Tofu option" where
  "memTofus = listed tofuKey m_tofus"

lemma mem_tofu_calls:
  "k_get_tofu memCluster = memGet tofuKey m_tofus"
  "k_update_tofu memCluster = (\<lambda>tofu w. (Inr tofu, w\<lparr>m_tofus := storeBy tofuKey tofu (m_tofus w)\<rparr>))"
  "k_status_update_tofu memCluster = (\<lambda>tofu. memWrite (\<lambda>w. w\<lparr>m_tofus := storeBy tofuKey tofu (m_tofus w)\<rparr>) tofu)"
  by (simp_all add: memCluster_def)

lemma mem_tofu_store: "tofu_store memCluster memTofus"
  unfolding tofu_store_def
proof (intro conjI allI impI)
  show "untouched memCluster memTofus"
    using mem_untouched [of "\<lambda>_ tofus key. find (\<lambda>r. tofuKey r = key) tofus"] by (simp add: memTofus_def listed_def [abs_def])
next
  fix key w t w' assume "k_get_tofu memCluster key w = (Inr t, w')"
  then show "tofuKey t = key" "memTofus w key = Some t"
    using listed_get [of tofuKey m_tofus] by (auto simp: memTofus_def mem_tofu_calls)
next
  fix t w e w' assume "k_status_update_tofu memCluster t w = (Inl e, w')"
  then show "memTofus w' = memTofus w"
    using listed_write [of _ t w "Inl e" w' m_tofus tofuKey] by (simp add: memTofus_def mem_tofu_calls)
next
  fix t w t' w' assume "k_status_update_tofu memCluster t w = (Inr t', w')"
  then have "t' = t \<and> memTofus w' \<in> {memTofus w, (memTofus w)(tofuKey t \<mapsto> t)}"
    using listed_write [of _ t w "Inr t'" w' m_tofus tofuKey] by (simp add: memTofus_def mem_tofu_calls)
  then show "tofuKey t' = tofuKey t" "to_status t' = to_status t" "memTofus w' \<in> {memTofus w, (memTofus w)(tofuKey t \<mapsto> t')}"
    by simp_all
next
  fix t w e w' assume "k_update_tofu memCluster t w = (Inl e, w')"
  then show "memTofus w' = memTofus w" by (simp add: mem_tofu_calls)
next
  fix t w t' w' assume "k_update_tofu memCluster t w = (Inr t', w')"
  then have "t' = t \<and> memTofus w' \<in> {memTofus w, (memTofus w)(tofuKey t \<mapsto> t)}"
    using listed_put [of m_tofus w' tofuKey t w] by (auto simp: memTofus_def mem_tofu_calls)
  then show "tofuKey t' = tofuKey t"
      "tofuStage t' = tofuStage t \<or> (\<exists>old. memTofus w (tofuKey t) = Some old \<and> tofuStage t' = tofuStage old)"
      "memTofus w' \<in> {memTofus w, (memTofus w)(tofuKey t \<mapsto> t'), (memTofus w)(tofuKey t := None)}"
    by auto
qed

interpretation mem_tofu_server: tofu_server memCluster memTofus
  by unfold_locales (rule mem_tofu_store)

lemma mem_apart: "apart memCluster memStored memTofus"
  by (auto simp: apart_def leaves_def mem_calls mem_tofu_calls memWrite_def memStored_def memTofus_def listed_def fun_eq_iff)

definition exampleTofuState :: "Tofu \<Rightarrow> (mem, Tofu) rstate" where
  "exampleTofuState t = \<lparr>r_cluster = emptyMem\<lparr>m_tofus := [t]\<rparr>, r_cache = [], r_spawned = [], r_res = zeroTofu\<rparr>"

lemma exampleTofuState_stored:
  "memTofus (r_cluster (exampleTofuState t)) key = (if tofuKey t = key then Some t else None)"
  "memStored (r_cluster (exampleTofuState t)) key = None"
  by (simp_all add: exampleTofuState_def memTofus_def memStored_def listed_def emptyMem_def)

section \<open>Properties\<close>

text \<open>C10: A reconciliation of a \<open>Tofu\<close> refines the stage machine as well. On an API server that
  behaves as documented, whatever happens on the way (errors, conflicts, panics), it leaves
  every other \<open>Tofu\<close> alone, never brings the resource back, and the stage it leaves stored
  has the generation and the task of the stored one it found, or is one new stage its
  \<open>checkSetNewStage\<close> allows from there, or the first stage of a new resource.\<close>

theorem tofu_reconcile_refines_stages:
  assumes "tofu_store cl stored" and "tofuReconcileLocked cl ul rc rnd key s = (r, s')"
  shows "(\<forall>k. k \<noteq> key \<longrightarrow> stored (r_cluster s') k = stored (r_cluster s) k) \<and>
    (\<forall>t'. stored (r_cluster s') key = Some t' \<longrightarrow>
      (\<exists>t. stored (r_cluster s) key = Some t \<and> progress (tofuAdvance cl) (tofuStage t) (tofuStage t')))"
  by (rule tofu_server.tofuReconcileLocked_progress [OF tofu_server.intro [OF assms(1)] assms(2)])

lemma tofu_reconcile_refines_stages_witness:
  "\<exists>r s'. tofuReconcileLocked memCluster exampleUrllib exampleReconciler (\<lambda>i n. 0) exampleKey
       (exampleTofuState (asTofu (exampleAt RunPlan StateComplete))) = (r, s') \<and>
     (\<forall>t'. memTofus (r_cluster s') exampleKey = Some t' \<longrightarrow>
       progress (tofuAdvance memCluster) (exampleStage RunPlan StateComplete) (tofuStage t'))"
proof -
  obtain r s' where r: "tofuReconcileLocked memCluster exampleUrllib exampleReconciler (\<lambda>i n. 0) exampleKey
       (exampleTofuState (asTofu (exampleAt RunPlan StateComplete))) = (r, s')" by (rule prod.exhaust)
  have "tofuStage (asTofu (exampleAt RunPlan StateComplete)) = exampleStage RunPlan StateComplete"
    by (simp add: example_defs)
  then show ?thesis using tofu_reconcile_refines_stages [OF mem_tofu_store r] r
    by (auto simp: exampleTofuState_stored split: if_splits)
qed

text \<open>The first stage of a new \<open>Tofu\<close>, on the cluster in memory.\<close>

lemma exampleTofu_first_stage:
  "\<exists>s' t'. tofuReconcileLocked memCluster exampleUrllib exampleReconciler (\<lambda>i n. 0) exampleKey
      (exampleTofuState exampleTofu) = (Inr Done, s') \<and> memTofus (r_cluster s') exampleKey = Some t' \<and>
      stg_taskType (tofuStage t') = RunSetup \<and> stg_generation (tofuStage t') = 1"
proof -
  note defs = exampleTofu_def asTofu_def asTofuSpec_def asTofuStatus_def example_defs
  define w where "w = emptyMem\<lparr>m_tofus := [exampleTofu]\<rparr>"
  define t' where "t' = tofuSetPlugins (tofuSetStage exampleTofu (fst (newTofuStage 100 exampleTofu RunSetup ''TF_RESOURCE_CREATED''
      CanNotBeInterrupt StateInitializing))) []"
  define w' where "w' = w\<lparr>m_tofus := [t'], m_writes := 1\<rparr>"
  have f: "updateTofuFinalizer exampleTofu = Some (False, exampleTofu)"
    by (simp add: updateTofuFinalizer_def defs tfFinalizer_def Let_def)
  have k: "tofuKey t' = exampleKey" "tofuKey exampleTofu = exampleKey"
    by (simp_all add: t'_def tofuSet_defs tofuKey_def defs)
  have g: "getTofuResource memCluster exampleKey 3 w = (Inr exampleTofu, w)"
    unfolding getTofuResource_def
    by (rule getRetry_success) (simp_all add: w_def mem_tofu_calls memGet_def k(2))
  have u: "k_status_update_tofu memCluster t' w = (Inr t', w')"
    using k by (simp add: mem_tofu_calls memWrite_def w_def w'_def emptyMem_def storeBy_def)
  have v: "k_get_tofu memCluster (tofuKey t') w' = (Inr t', w')"
    by (simp add: mem_tofu_calls memGet_def w'_def)
  have tu: "k_status_update_tf (tfView memCluster) (asTf t') w = (Inr (asTf t'), w')"
      "k_get_tf (tfView memCluster) (tfKey (asTf t')) w' = (Inr (asTf t'), w')"
    by (simp_all only: tfView_calls asTf_key asTofu_asTf u v map_prod_simp map_sum.simps id_apply)
  have "saveStatus (tfView memCluster) (asTf t') w = (Inr (None, asTf t'), w')"
    by (rule saveStatus_first [OF tu]) (simp add: statusConfirmed_def TaskListsAreEqual_def StageIsEqual_def)
  then have "alike sameSaved (tofuSaveStatus memCluster t' w) (Inr (None, asTf t'), w')"
    using same_updateStatusWithRetry [of memCluster True t' "to_status t'" w] by (simp add: tofuSaveStatus_def saveStatus_def)
  then have sv: "tofuSaveStatus memCluster t' w = (Inr (None, t'), w')"
    by (cases "tofuSaveStatus memCluster t' w"; cases "fst (tofuSaveStatus memCluster t' w)")
       (auto simp: sameSaved_def sameTf_def)
  have "k_now memCluster w = 100" by (simp add: memCluster_def w_def emptyMem_def)
  then have "tofuAddFirstStage memCluster \<lparr>r_cluster = w, r_cache = [], r_spawned = [], r_res = exampleTofu\<rparr> =
      (Inr Done, \<lparr>r_cluster = w', r_cache = [], r_spawned = [], r_res = t'\<rparr>)"
    using sv by (simp add: tofuAddFirstStage_def tofuSaveOrFail_def tofuSave_def tofuAfterUpdate_def io_bind_def t'_def
        newTofuStage_def Let_def tofuSet_defs defs)
  moreover have "tofuPhase exampleTofu \<noteq> PhaseDeleted" "tost_podNamePrefix (to_status exampleTofu) \<noteq> []"
      "stg_generation (tofuStage exampleTofu) = 0" by (simp_all add: defs)
  ultimately have "tofuReconcileLocked memCluster exampleUrllib exampleReconciler (\<lambda>i n. 0) exampleKey (exampleTofuState exampleTofu) =
      (Inr Done, \<lparr>r_cluster = w', r_cache = [], r_spawned = [], r_res = t'\<rparr>)"
    using g f by (simp add: tofuReconcileLocked_def io_try_def on_cluster_def io_bind_def [of "setRes exampleTofu"]
        exampleTofuState_def w_def)
  moreover have "memTofus w' exampleKey = Some t'" using k by (simp add: memTofus_def listed_def w'_def)
  moreover have "stg_taskType (tofuStage t') = RunSetup" "stg_generation (tofuStage t') = 1"
    by (simp_all add: t'_def newTofuStage_def Let_def tofuSet_defs defs)
  ultimately show ?thesis by simp
qed



end
