(* ===== verification/TofuSafety.thy ===== *)
theory TofuSafety
  imports TofuRefine TfSafety
begin

text \<open>
  What one reconciliation of a \<open>Tofu\<close> guarantees around the stages: the lock it shares with
  the Terraform controller, and what its reapers and \<open>removeOldPlan\<close> select. Both kinds of
  resource may have one name in one namespace; the prefixes of the labels keep the pods
  of one controller from the reapers of the other.
\<close>

section \<open>The lock\<close>

lemma tofu_cache_writes: "keeps (on_cache Q) (tofuAfterUpdate m)" "keeps (on_cache Q) (tofuUpdateRes cl)"
  by (auto simp: keeps_def on_cache_def tofuAfterUpdate_def tofuUpdateRes_def io_bind_def on_cluster_def setRes_def
      split: prod.splits sum.splits)

interpretation tofu_cache: tofu_free_walk cl "\<lambda>_. True" "on_cache Q"
  for cl :: "'w kube" and Q :: "(string, cached) gomap \<Rightarrow> bool"
proof (intro tofu_free_walk.intro tofu_free_walk_axioms.intro tofu_walk.intro tofu_walk_axioms.intro cache_walks tofu_cache_writes)
  show "keeps (on_cache Q) (\<lambda>s. tofuAfterUpdate (tofuUpdateStatusWithRetry cl al (r_res s) (to_status (r_res s))) s)" for al
    by (rule keeps_state) (rule tofu_cache_writes)
qed (simp add: on_cache_def)

lemma tofuReconcileLocked_cache: "r_cache (snd (tofuReconcileLocked cl ul rc rnd key t)) = r_cache t"
  using tofu_cache.walk_reconcileLocked [of "\<lambda>c. c = r_cache t" cl ul rc rnd key]
  unfolding keeps_def on_cache_def by blast

lemma tofuReconcile_underLock:
  "tofuReconcile cl cp ul rc rnd ident key base = underLock cp rc ident base (tofuReconcileLocked cl ul rc rnd key)"
  by (simp add: tofuReconcile_def underLock_def tofu_shared_defs)

text \<open>C11: Reconciliations of a \<open>Tofu\<close> keep to the lock in the cache, whichever controller set it.
  Where the lock of the request is taken, nothing is done but asking for a retry in 30
  seconds; where it is free, it is free again afterwards, on success, on every error and
  on every panic; and the steps behind it touch nothing in the cache. The cache stays
  well typed all along, for this controller and for the other one.\<close>

theorem tofu_reconcile_excludes:
  assumes "keysOk rc" and "cacheTyped rc (r_cache s)"
    and "tofuReconcile cl cp ul rc rnd ident key base s = (r, s')"
  shows "cacheTyped rc (r_cache s') \<and> (\<exists>sel. tofuGetNodeSelectorsFromCache rc (r_cache s') = Inr sel) \<and>
    (case map_of (r_cache s) (base @ lockSuffix) of
       Some v \<Rightarrow> (r = Inr (RequeueAfter 30) \<or> (\<exists>m. r = Inl (ErrPanic m))) \<and>
         r_res s' = r_res s \<and> r_spawned s' = r_spawned s \<and> map_of (r_cache s') (base @ lockSuffix) = Some v
     | None \<Rightarrow> map_of (r_cache s') (base @ lockSuffix) = None) \<and>
    r_cache (snd (tofuReconcileLocked cl ul rc rnd key s)) = r_cache s"
  using underLock_excludes [OF assms(1,2) assms(3) [unfolded tofuReconcile_underLock] tofuReconcileLocked_cache]
  by (simp add: excludes_def tofuReconcileLocked_cache tofuGetNodeSelectorsFromCache_def)

lemma tofu_reconcile_excludes_witness:
  "\<exists>r s'. tofuReconcile memCluster examplePlane exampleUrllib exampleReconciler (\<lambda>i n. 0) ''me'' exampleKey ''default/my-infra''
       ((exampleTofuState exampleTofu)\<lparr>r_cache := [(''default/my-infra-reconcile-lock'', CachedText ''other'')]\<rparr>) = (r, s') \<and>
     r_spawned s' = [] \<and> map_of (r_cache s') ''default/my-infra-reconcile-lock'' = Some (CachedText ''other'')"
proof -
  let ?s = "(exampleTofuState exampleTofu)\<lparr>r_cache := [(''default/my-infra-reconcile-lock'', CachedText ''other'')]\<rparr>"
  obtain r s' where r: "tofuReconcile memCluster examplePlane exampleUrllib exampleReconciler (\<lambda>i n. 0) ''me'' exampleKey
      ''default/my-infra'' ?s = (r, s')" by (rule prod.exhaust)
  have t: "cacheTyped exampleReconciler (r_cache ?s)" by (simp add: cacheTyped_def exampleReconciler_def)
  have k: "''default/my-infra'' @ lockSuffix = ''default/my-infra-reconcile-lock''" by (simp add: lockSuffix_def)
  have "map_of (r_cache ?s) (''default/my-infra'' @ lockSuffix) = Some (CachedText ''other'')" unfolding k by simp
  then have "r_spawned s' = []" "map_of (r_cache s') ''default/my-infra-reconcile-lock'' = Some (CachedText ''other'')"
    using tofu_reconcile_excludes [OF exampleReconciler_keysOk t r] unfolding k by (simp_all add: exampleTofuState_def)
  then show ?thesis using r by blast
qed

section \<open>What the label selectors select\<close>

definition tofuOldGenerationReqs :: "string \<Rightarrow> int \<Rightarrow> requirement list" where
  "tofuOldGenerationReqs name g =
    [HasLabel (tofuLabelPrefix @ ''generation''), LabelIsNot (tofuLabelPrefix @ ''generation'') (itoa g),
     HasLabel (tofuLabelPrefix @ ''resourceName''), LabelIs (tofuLabelPrefix @ ''resourceName'') (AutoHashLabeler name)]"

definition tofuPluginReqs :: "string \<Rightarrow> int \<Rightarrow> requirement list" where
  "tofuPluginReqs name g = LabelIs (tofuLabelPrefix @ ''isPlugin'') ''true'' # tofuOldGenerationReqs name g"

definition tofuOldPlanReqs :: "string \<Rightarrow> string \<Rightarrow> int \<Rightarrow> requirement list" where
  "tofuOldPlanReqs name reason g =
    [LabelIs (tofuLabelPrefix @ ''generation'') (itoa g),
     LabelIs (tofuLabelPrefix @ ''resourceName'') (AutoHashLabeler name), HasLabel ''app.kubernetes.io/instance''] @
    map (LabelIsNot ''app.kubernetes.io/instance'') (keptTasks reason)"

lemma tofu_means:
  "means (tofuOldGenerationSelector name g) (tofuOldGenerationReqs name g)"
  "means (tofuPluginSelector name g) (tofuPluginReqs name g)"
  "means (tofuOldPlanSelector name reason g) (tofuOldPlanReqs name reason g)"
proof -
  show "means (tofuOldGenerationSelector name g) (tofuOldGenerationReqs name g)"
    unfolding means_def tofuOldGenerationSelector_def tofuOldGenerationReqs_def tofuResourceNameSelector_def
    by (rule exI, rule conjI [OF _ refl]) simp
  show "means (tofuPluginSelector name g) (tofuPluginReqs name g)"
    unfolding means_def
    by (rule exI [of _ "[tofuLabelPrefix @ ''isPlugin=true'', tofuLabelPrefix @ ''generation'',
          tofuLabelPrefix @ ''generation!='' @ itoa g, tofuLabelPrefix @ ''resourceName'', tofuResourceNameSelector name]"])
       (simp add: tofuPluginReqs_def tofuOldGenerationReqs_def tofuResourceNameSelector_def tofuPluginSelector_def
         tofuOldGenerationSelector_def)
  show "means (tofuOldPlanSelector name reason g) (tofuOldPlanReqs name reason g)"
    unfolding means_def tofuOldPlanSelector_def tofuOldPlanReqs_def tofuResourceNameSelector_def notInstance_def keptTasks_def
    by (rule exI, rule conjI [OF _ refl]) simp
qed

lemma tofuTaskOptions_podLabels:
  "podLabels (newTofuTaskOptions tofu task g env aff sel tol img url ad base ti) =
     AList.update ''app.kubernetes.io/instance'' task
       (AList.merge (v_labels (collectTaskOptions task env (tos_taskOptions (to_spec tofu))))
          (tofuResourceLabels tofu task g (if tos_version (to_spec tofu) = [] then ''latest'' else tos_version (to_spec tofu))))"
  unfolding newTofuTaskOptions_def Let_def podLabels_def by (simp split: prod.splits)

lemma prefixes_apart:
  "tofuLabelPrefix @ k \<noteq> tfLabelPrefix @ l" "tofuLabelPrefix @ k \<noteq> ''app.kubernetes.io/instance''"
  by (simp_all add: tofuLabelPrefix_def tfLabelPrefix_def)

lemma tofuTaskOptions_labels:
  "map_of (podLabels (newTofuTaskOptions tofu task g env aff sel tol img url ad base ti)) (tofuLabelPrefix @ ''generation'') =
     Some (itoa g)"
  "map_of (podLabels (newTofuTaskOptions tofu task g env aff sel tol img url ad base ti)) (tofuLabelPrefix @ ''resourceName'') =
     Some (AutoHashLabeler (to_name tofu))"
  "map_of (podLabels (newTofuTaskOptions tofu task g env aff sel tol img url ad base ti)) ''app.kubernetes.io/instance'' =
     Some task"
  unfolding tofuTaskOptions_podLabels
  by (simp_all add: map_of_merge_at prefixes_apart tofuResourceLabels_def Let_def)

lemma prefixes_differ: "tfLabelPrefix \<noteq> tofuLabelPrefix" "tofuLabelPrefix \<noteq> tfLabelPrefix"
  by (simp_all add: tofuLabelPrefix_def tfLabelPrefix_def)

text \<open>The labels of a kind come from its own labels and the user's only.\<close>

lemma foreign_labels:
  assumes "map_of (v_labels (collectTaskOptions task env (tos_taskOptions (to_spec tofu)))) (tfLabelPrefix @ ''generation'') = None"
  shows "map_of (podLabels (newTofuTaskOptions tofu task g env aff sel tol img url ad base ti)) (tfLabelPrefix @ ''generation'') = None"
  using assms unfolding tofuTaskOptions_podLabels
  by (simp add: map_of_merge_at prefixes_differ prefix_not_instance tofuResourceLabels_def Let_def)

lemma foreign_tf_labels:
  assumes "map_of (v_labels (collectTaskOptions task env (tfs_taskOptions (tf_spec tf)))) (tofuLabelPrefix @ ''generation'') = None"
  shows "map_of (podLabels (newTaskOptions tf task g env aff sel tol img url ad base ti)) (tofuLabelPrefix @ ''generation'') = None"
  using assms unfolding taskOptions_podLabels
  by (simp add: map_of_merge_at prefixes_differ prefixes_apart tfResourceLabels_def Let_def)



end
