(* ===== verification/ReconcileLock.thy ===== *)
theory ReconcileLock
  imports TfReconcile
begin

text \<open>
  The lock of \<open>reconcile\<close> (\<open>pkg/controllers/tf_controller.go\<close> and \<open>tofu_controller.go\<close>) as
  the goroutines see it: \<open>Cache.Get\<close> of the lock's key, \<open>Cache.Set\<close>, and the deferred
  \<open>Cache.Delete\<close> are three separate calls, and the goroutines of both controllers share
  the cache and the keys. \<open>TfReconcile\<close> runs one reconciliation from end to end; here the
  three calls of several reconciliations of one request interleave.
\<close>

section \<open>The calls\<close>

text \<open>
  A reconciliation by its id: before \<open>Get\<close> or after \<open>Delete\<close>, after a \<open>Get\<close> that found
  no lock, or between \<open>Set\<close> and \<open>Delete\<close>.
\<close>

datatype lockPc = Outside | SawNoLock | Locked

record lockSys =
  lk_cache :: "(string, cached) gomap"
  lk_pc :: "string \<Rightarrow> lockPc"

datatype lockCall = GetLock string | SetLock string | DeleteLock string

text \<open>A call that is not the next one of its reconciliation does nothing.\<close>

fun runLockCall :: "string \<Rightarrow> lockCall \<Rightarrow> lockSys \<Rightarrow> lockSys" where
  "runLockCall lockKey (GetLock i) s =
     (if lk_pc s i = Outside \<and> map_of (lk_cache s) lockKey = None
      then s\<lparr>lk_pc := (lk_pc s)(i := SawNoLock)\<rparr> else s)"
| "runLockCall lockKey (SetLock i) s =
     (if lk_pc s i = SawNoLock
      then s\<lparr>lk_cache := AList.update lockKey (CachedText i) (lk_cache s), lk_pc := (lk_pc s)(i := Locked)\<rparr> else s)"
| "runLockCall lockKey (DeleteLock i) s =
     (if lk_pc s i = Locked
      then s\<lparr>lk_cache := AList.delete lockKey (lk_cache s), lk_pc := (lk_pc s)(i := Outside)\<rparr> else s)"

definition runLockCalls :: "string \<Rightarrow> lockCall list \<Rightarrow> lockSys \<Rightarrow> lockSys" where
  "runLockCalls lockKey calls s = fold (runLockCall lockKey) calls s"

lemma runLockCalls_simps [simp]:
  "runLockCalls k [] s = s" "runLockCalls k (c # cs) s = runLockCalls k cs (runLockCall k c s)"
  "runLockCalls k (cs @ ds) s = runLockCalls k ds (runLockCalls k cs s)"
  by (simp_all add: runLockCalls_def)

text \<open>Nobody is inside and the cache has no lock.\<close>

definition lockFree :: "string \<Rightarrow> lockSys \<Rightarrow> bool" where
  "lockFree k s \<longleftrightarrow> map_of (lk_cache s) k = None \<and> (\<forall>i. lk_pc s i = Outside)"

section \<open>Calls that do not interleave\<close>

text \<open>
  \<open>Get\<close> and \<open>Set\<close> of one reconciliation follow each other at once; anything may happen
  between \<open>Set\<close> and \<open>Delete\<close>.
\<close>

fun undisturbed :: "lockCall list \<Rightarrow> bool" where
  "undisturbed [] = True"
| "undisturbed (GetLock i # SetLock j # cs) = (i = j \<and> undisturbed cs)"
| "undisturbed (DeleteLock i # cs) = undisturbed cs"
| "undisturbed (c # cs) = False"

text \<open>At most one reconciliation is inside, and the lock in the cache is its own.\<close>

definition lockKept :: "string \<Rightarrow> lockSys \<Rightarrow> bool" where
  "lockKept k s \<longleftrightarrow>
    (case map_of (lk_cache s) k of
       None \<Rightarrow> \<forall>i. lk_pc s i = Outside
     | Some v \<Rightarrow> \<exists>i. v = CachedText i \<and> lk_pc s i = Locked \<and> (\<forall>j. j \<noteq> i \<longrightarrow> lk_pc s j = Outside))"

lemma lockKept_inside:
  assumes "lockKept k s" and "lk_pc s i \<noteq> Outside"
  shows "lk_pc s i = Locked" and "map_of (lk_cache s) k = Some (CachedText i)"
    and "\<forall>j. j \<noteq> i \<longrightarrow> lk_pc s j = Outside"
proof -
  obtain h where h: "map_of (lk_cache s) k = Some (CachedText h)" "lk_pc s h = Locked"
      "\<forall>j. j \<noteq> h \<longrightarrow> lk_pc s j = Outside"
    using assms by (auto simp: lockKept_def split: option.splits)
  then have "i = h" using assms(2) by blast
  with h show "lk_pc s i = Locked" "map_of (lk_cache s) k = Some (CachedText i)"
      "\<forall>j. j \<noteq> i \<longrightarrow> lk_pc s j = Outside" by simp_all
qed

lemma lockKept_enter:
  assumes "lockKept k s"
  shows "lockKept k (runLockCall k (SetLock i) (runLockCall k (GetLock i) s))"
proof (cases "lk_pc s i = Outside")
  case True
  then show ?thesis using assms by (cases "map_of (lk_cache s) k") (simp_all add: lockKept_def)
next
  case False
  then show ?thesis using assms lockKept_inside(1) [OF assms False] by simp
qed

lemma lockKept_leave:
  assumes "lockKept k s"
  shows "lockKept k (runLockCall k (DeleteLock i) s)"
proof (cases "lk_pc s i = Outside")
  case True
  then show ?thesis using assms by simp
next
  case False
  note l = lockKept_inside [OF assms False]
  then show ?thesis by (simp add: lockKept_def)
qed

lemma undisturbed_kept: "undisturbed cs \<Longrightarrow> lockKept k s \<Longrightarrow> lockKept k (runLockCalls k cs s)"
  by (induction cs arbitrary: s rule: undisturbed.induct)
     (auto simp del: runLockCall.simps intro: lockKept_enter lockKept_leave)

section \<open>Properties\<close>

text \<open>C13: While no other goroutine gets between \<open>Get\<close> and \<open>Set\<close>, the lock excludes: after any
  number of reconciliations of a request, of either controller, at most one of them is
  inside, the lock in the cache names it, and without a lock nobody is inside.\<close>

theorem lock_excludes_when_undisturbed:
  assumes "lockFree k s" and "undisturbed calls" and "t = runLockCalls k calls s"
  shows "(lk_pc t i = Locked \<longrightarrow> map_of (lk_cache t) k = Some (CachedText i)) \<and>
    (lk_pc t i = Locked \<longrightarrow> lk_pc t j = Locked \<longrightarrow> i = j) \<and>
    (map_of (lk_cache t) k = None \<longrightarrow> lk_pc t i = Outside)"
proof -
  have "lockKept k s" using assms(1) by (simp add: lockFree_def lockKept_def)
  then have "lockKept k t" using undisturbed_kept assms(2,3) by blast
  note kept = lockKept_inside [OF this]
  show ?thesis using kept(2) [of i] kept(2) [of j] by (cases "lk_pc t i"; cases "lk_pc t j") auto
qed

definition freeLock :: lockSys where
  "freeLock = \<lparr>lk_cache = [], lk_pc = (\<lambda>_. Outside)\<rparr>"

lemma lock_excludes_when_undisturbed_witness:
  "let t = runLockCalls ''r-reconcile-lock'' [GetLock ''1'', SetLock ''1'', GetLock ''2'', SetLock ''2'', DeleteLock ''1'', GetLock ''2'', SetLock ''2''] freeLock
   in lk_pc t ''2'' = Locked \<and> map_of (lk_cache t) ''r-reconcile-lock'' = Some (CachedText ''2'')"
proof -
  let ?cs = "[GetLock ''1'', SetLock ''1'', GetLock ''2'', SetLock ''2'', DeleteLock ''1'', GetLock ''2'', SetLock ''2'']"
  have "lockFree ''r-reconcile-lock'' freeLock" "undisturbed ?cs" by (simp_all add: lockFree_def freeLock_def)
  from lock_excludes_when_undisturbed [OF this refl, of "''2''" "''2''"] show ?thesis
    by (simp add: freeLock_def)
qed

text \<open>C14: \<open>Get\<close> and \<open>Set\<close> are two calls, and nothing makes them one. Of the six interleavings of two
  reconciliations that enter, the four in which both look before one of them sets the lock
  let both inside; the lock in the cache then is that of the one that set it last. When the
  first of the two leaves it deletes the lock although the other is still inside, and a
  third reconciliation gets in beside it.\<close>

theorem lock_race:
  assumes "lockFree k s" and "i \<noteq> j" and "order \<in> shuffles [GetLock i, SetLock i] [GetLock j, SetLock j]"
    and "l \<noteq> i" and "l \<noteq> j"
  shows "let t = runLockCalls k order s; u = runLockCalls k [DeleteLock i, GetLock l, SetLock l] t in
    (lk_pc t i = Locked \<and> lk_pc t j = Locked \<longleftrightarrow> set (take 2 order) = {GetLock i, GetLock j}) \<and>
    (lk_pc t i = Locked \<and> lk_pc t j = Locked \<longrightarrow>
       map_of (lk_cache t) k = Some (CachedText (if last order = SetLock i then i else j)) \<and>
       lk_pc u j = Locked \<and> lk_pc u l = Locked)"
proof -
  have "order \<in> {[GetLock i, SetLock i, GetLock j, SetLock j], [GetLock i, GetLock j, SetLock i, SetLock j],
      [GetLock i, GetLock j, SetLock j, SetLock i], [GetLock j, GetLock i, SetLock i, SetLock j],
      [GetLock j, GetLock i, SetLock j, SetLock i], [GetLock j, SetLock j, GetLock i, SetLock i]}"
    using assms(3) by (auto simp: shuffles.simps)
  moreover have c: "map_of (lk_cache s) k = None" "lk_pc s i = Outside" "lk_pc s j = Outside" "lk_pc s l = Outside"
    using assms(1) by (simp_all add: lockFree_def)
  ultimately show ?thesis using assms(2,4,5)
    by (elim insertE emptyE; hypsubst) (simp_all add: numeral_2_eq_2 Let_def eq_commute, auto)
qed

lemma lock_race_witness:
  "let t = runLockCalls ''r-reconcile-lock'' [GetLock ''1'', GetLock ''2'', SetLock ''1'', SetLock ''2''] freeLock
   in lk_pc t ''1'' = Locked \<and> lk_pc t ''2'' = Locked"
proof -
  have o: "[GetLock ''1'', GetLock ''2'', SetLock ''1'', SetLock ''2''] \<in>
      shuffles [GetLock ''1'', SetLock ''1''] [GetLock ''2'', SetLock ''2'']"
    by (simp add: shuffles.simps)
  have f: "lockFree ''r-reconcile-lock'' freeLock" by (simp add: lockFree_def freeLock_def)
  have t: "set (take 2 [GetLock ''1'', GetLock ''2'', SetLock ''1'', SetLock ''2'']) = {GetLock ''1'', GetLock ''2''}"
    by (simp add: numeral_2_eq_2)
  have d: "''1'' \<noteq> ''2''" "''3'' \<noteq> ''1''" "''3'' \<noteq> ''2''" by simp_all
  show ?thesis using lock_race [OF f d(1) o d(2,3)] t unfolding Let_def by blast
qed

end
