(* ===== verification/Provider.thy ===== *)
theory Provider
  imports KubeClient
begin

text \<open>
  The cluster provider of \<open>pkg/multicluster/provider.go\<close>: it follows the labelled kubeconfig
  secrets of the host cluster and keeps one engaged cluster for each of them.

  The record \<open>kubeconfigProvider\<close> holds the fields of the struct; \<open>provState\<close> adds what the
  operations change outside of it: the world of the libraries (\<open>ps_world\<close>), the contexts
  made by \<open>context.WithCancel\<close> (numbered, with the list of those whose cancel function was
  called) and the clusters whose \<open>Start\<close> was spawned. A \<open>cluster.Cluster\<close> is known by a
  number. The libraries (\<open>clientcmd\<close>, \<open>controller-runtime\<close>, \<open>multicluster-runtime\<close>) are the record
  \<open>clusterLib\<close>, an argument of the operations.
\<close>

section \<open>The state\<close>

record ProviderOptions =
  po_namespace :: string
  po_secretLabel :: string
  po_kubeconfigKey :: string
  po_clusterNameLabel :: string
  po_clusterOptions :: "opaque list"

record indexRegistration =
  ix_obj :: string
  ix_field :: string
  ix_extractValue :: "kobj \<Rightarrow> string list"

record clusterEntry =
  ce_cluster :: nat
  ce_cancelFn :: nat

record kubeconfigProvider =
  pv_opts :: ProviderOptions
  pv_clusters :: "(string, clusterEntry) gomap"
  pv_secretCluster :: "(string, string) gomap"
  pv_indexes :: "indexRegistration list"

record 'w provState = kubeconfigProvider +
  ps_world :: 'w
  ps_contexts :: nat
  ps_cancelled :: "nat list"
  ps_started :: "(nat \<times> nat) list"

text \<open>
  The libraries: \<open>clientcmd.RESTConfigFromKubeConfig\<close>, \<open>cluster.New\<close>, the \<open>IndexField\<close> of a
  cluster's field indexer and of the host's, and the manager's \<open>Engage\<close>.
\<close>

record 'w clusterLib =
  cl_config :: "string \<Rightarrow> goerr + opaque"
  cl_new :: "opaque \<Rightarrow> opaque list \<Rightarrow> ('w, nat) io"
  cl_index :: "nat \<Rightarrow> indexRegistration \<Rightarrow> ('w, unit) io"
  cl_hostIndex :: "indexRegistration \<Rightarrow> ('w, unit) io"
  cl_engage :: "nat \<Rightarrow> string \<Rightarrow> nat \<Rightarrow> ('w, unit) io"

definition DefaultClusterNameLabel :: string where
  "DefaultClusterNameLabel = ''infrakube.galleybytes.com/cluster-name''"

definition defaultOptions :: "ProviderOptions \<Rightarrow> ProviderOptions" where
  "defaultOptions opts =
    (let o1 = (if po_namespace opts = [] then opts\<lparr>po_namespace := ''infrakube-system''\<rparr> else opts);
         o2 = (if po_secretLabel o1 = [] then o1\<lparr>po_secretLabel := ''infrakube.galleybytes.com/cluster''\<rparr> else o1);
         o3 = (if po_kubeconfigKey o2 = [] then o2\<lparr>po_kubeconfigKey := ''kubeconfig''\<rparr> else o2)
     in if po_clusterNameLabel o3 = [] then o3\<lparr>po_clusterNameLabel := DefaultClusterNameLabel\<rparr> else o3)"

definition NewKubeconfigProvider :: "ProviderOptions \<Rightarrow> 'w \<Rightarrow> 'w provState" where
  "NewKubeconfigProvider opts w =
    \<lparr>pv_opts = defaultOptions opts, pv_clusters = [], pv_secretCluster = [], pv_indexes = [],
     ps_world = w, ps_contexts = 0, ps_cancelled = [], ps_started = []\<rparr>"

section \<open>Secrets\<close>

text \<open>What an informer hands to its handlers: an object, or the tombstone of one.\<close>

datatype anyObj = AnySecret Secret | AnyTombstone "Secret option" | AnyOther

fun asSecret :: "anyObj \<Rightarrow> Secret option" where
  "asSecret (AnySecret s) = Some s"
| "asSecret (AnyTombstone s) = s"
| "asSecret AnyOther = None"

definition secretKey :: "Secret \<Rightarrow> string" where
  "secretKey secret = sec_namespace secret @ ''/'' @ sec_name secret"

definition matches :: "ProviderOptions \<Rightarrow> Secret \<Rightarrow> bool" where
  "matches opts secret \<longleftrightarrow>
     sec_namespace secret = po_namespace opts \<and>
     map_of (sec_labels secret) (po_secretLabel opts) = Some ''true''"

definition clusterName :: "ProviderOptions \<Rightarrow> Secret \<Rightarrow> string" where
  "clusterName opts secret =
    (case map_of (sec_labels secret) (po_clusterNameLabel opts) of
       Some name \<Rightarrow> if name \<noteq> [] then name else sec_name secret
     | None \<Rightarrow> sec_name secret)"

text \<open>The kubeconfig of a secret as a configuration; none when it is missing or invalid.\<close>

definition kubeconfigOf :: "'w clusterLib \<Rightarrow> ProviderOptions \<Rightarrow> Secret \<Rightarrow> opaque option" where
  "kubeconfigOf lib opts secret =
    (case map_of (sec_data secret) (po_kubeconfigKey opts) of
       None \<Rightarrow> None
     | Some kubeconfig \<Rightarrow>
         if kubeconfig = [] then None
         else (case cl_config lib kubeconfig of Inl _ \<Rightarrow> None | Inr cfg \<Rightarrow> Some cfg))"

section \<open>Contexts\<close>

definition cancelCtx :: "nat \<Rightarrow> 'w provState \<Rightarrow> 'w provState" where
  "cancelCtx x s = s\<lparr>ps_cancelled := x # ps_cancelled s\<rparr>"

definition withCancel :: "'w provState \<Rightarrow> nat \<times> 'w provState" where
  "withCancel s = (ps_contexts s, s\<lparr>ps_contexts := Suc (ps_contexts s)\<rparr>)"

definition onWorld :: "('w, 'a) io \<Rightarrow> ('w provState, 'a) io" where
  "onWorld m s = (case m (ps_world s) of (r, w') \<Rightarrow> (r, s\<lparr>ps_world := w'\<rparr>))"

section \<open>Leaving a cluster\<close>

definition disengage :: "string \<Rightarrow> 'w provState \<Rightarrow> 'w provState" where
  "disengage cluster s =
    (case map_of (pv_clusters s) cluster of
       None \<Rightarrow> s
     | Some entry \<Rightarrow> cancelCtx (ce_cancelFn entry)
         (s\<lparr>pv_clusters := AList.delete cluster (pv_clusters s),
            pv_secretCluster := filter (\<lambda>(secret, mapped). mapped \<noteq> cluster) (pv_secretCluster s)\<rparr>))"

definition disengageSecret :: "string \<Rightarrow> 'w provState \<Rightarrow> 'w provState" where
  "disengageSecret secret s =
    (case map_of (pv_secretCluster s) secret of
       None \<Rightarrow> s
     | Some cluster \<Rightarrow> if cluster \<noteq> [] then disengage cluster s else s)"

section \<open>Joining a cluster\<close>

definition publish :: "string \<Rightarrow> string \<Rightarrow> nat \<Rightarrow> nat \<Rightarrow> 'w provState \<Rightarrow> 'w provState" where
  "publish name cluster cl x s =
    s\<lparr>pv_clusters := AList.update cluster \<lparr>ce_cluster = cl, ce_cancelFn = x\<rparr> (pv_clusters s),
      pv_secretCluster := AList.update name cluster (pv_secretCluster s)\<rparr>"

definition retract :: "string \<Rightarrow> string \<Rightarrow> 'w provState \<Rightarrow> 'w provState" where
  "retract name cluster s =
    s\<lparr>pv_clusters := AList.delete cluster (pv_clusters s),
      pv_secretCluster := AList.delete name (pv_secretCluster s)\<rparr>"

definition startCluster :: "nat \<Rightarrow> nat \<Rightarrow> 'w provState \<Rightarrow> 'w provState" where
  "startCluster cl x s = s\<lparr>ps_started := ps_started s @ [(cl, x)]\<rparr>"

text \<open>The part from \<open>context.WithCancel\<close> on.\<close>

definition engageCluster :: "'w clusterLib \<Rightarrow> string \<Rightarrow> string \<Rightarrow> nat \<Rightarrow> 'w provState \<Rightarrow> 'w provState" where
  "engageCluster lib name cluster cl s =
    (let (x, s1) = withCancel s;
         s2 = publish name cluster cl x s1
     in (case onWorld (cl_engage lib x cluster cl) s2 of
           (Inl _, s3) \<Rightarrow> retract name cluster (cancelCtx x s3)
         | (Inr _, s3) \<Rightarrow> startCluster cl x s3))"

definition indexCluster :: "'w clusterLib \<Rightarrow> nat \<Rightarrow> indexRegistration list \<Rightarrow> ('w, unit) io" where
  "indexCluster lib cl indexes = io_for indexes (cl_index lib cl)"

text \<open>The part from the first \<open>disengageSecret\<close> on.\<close>

definition replaceCluster :: "'w clusterLib \<Rightarrow> string \<Rightarrow> string \<Rightarrow> opaque \<Rightarrow> 'w provState \<Rightarrow> 'w provState" where
  "replaceCluster lib name cluster cfg s =
    (let s1 = disengage cluster (disengageSecret name s)
     in (case onWorld (cl_new lib cfg (po_clusterOptions (pv_opts s))) s1 of
           (Inl _, s2) \<Rightarrow> s2
         | (Inr cl, s2) \<Rightarrow>
             (case onWorld (indexCluster lib cl (pv_indexes s2)) s2 of
                (Inl _, s3) \<Rightarrow> s3
              | (Inr _, s3) \<Rightarrow> engageCluster lib name cluster cl s3)))"

definition handleSecret :: "'w clusterLib \<Rightarrow> anyObj \<Rightarrow> 'w provState \<Rightarrow> 'w provState" where
  "handleSecret lib obj s =
    (case asSecret obj of
       None \<Rightarrow> s
     | Some secret \<Rightarrow>
         if \<not> matches (pv_opts s) secret then disengageSecret (secretKey secret) s
         else (case kubeconfigOf lib (pv_opts s) secret of
                 None \<Rightarrow> disengageSecret (secretKey secret) s
               | Some cfg \<Rightarrow> replaceCluster lib (secretKey secret) (clusterName (pv_opts s) secret) cfg s))"

text \<open>The event handlers \<open>Run\<close> installs.\<close>

datatype secretEvent = SecretAdded anyObj | SecretUpdated anyObj | SecretDeleted anyObj

fun onEvent :: "'w clusterLib \<Rightarrow> secretEvent \<Rightarrow> 'w provState \<Rightarrow> 'w provState" where
  "onEvent lib (SecretAdded obj) s = handleSecret lib obj s"
| "onEvent lib (SecretUpdated obj) s = handleSecret lib obj s"
| "onEvent lib (SecretDeleted obj) s =
     (case asSecret obj of None \<Rightarrow> s | Some secret \<Rightarrow> disengageSecret (secretKey secret) s)"

section \<open>The interface of the manager\<close>

definition getCluster :: "string \<Rightarrow> 'w provState \<Rightarrow> goerr + nat" where
  "getCluster name s = (case map_of (pv_clusters s) name of
     None \<Rightarrow> Inl (ErrNotFound ''cluster not found'') | Some entry \<Rightarrow> Inr (ce_cluster entry))"

definition currentClusters :: "'w provState \<Rightarrow> (string, nat) gomap" where
  "currentClusters s = map (\<lambda>(name, entry). (name, ce_cluster entry)) (pv_clusters s)"

definition indexFailed :: "string \<Rightarrow> indexRegistration \<Rightarrow> goerr \<Rightarrow> goerr" where
  "indexFailed what ix e = ErrMsg (''indexing '' @ what @ '' field '' @ [CHR 0x22] @ ix_field ix @ [CHR 0x22] @ '': '' @ err_text e)"

definition registerIndex :: "indexRegistration \<Rightarrow> 'w provState \<Rightarrow> 'w provState" where
  "registerIndex ix s = s\<lparr>pv_indexes := pv_indexes s @ [ix]\<rparr>"

fun indexClusters :: "'w clusterLib \<Rightarrow> indexRegistration \<Rightarrow> (string, nat) gomap \<Rightarrow> ('w, unit) io" where
  "indexClusters lib ix [] w = (Inr (), w)"
| "indexClusters lib ix ((name, cl) # cls) w =
     (case cl_index lib cl ix w of
        (Inl e, w') \<Rightarrow> (Inl (indexFailed (''cluster '' @ [CHR 0x22] @ name @ [CHR 0x22]) ix e), w')
      | (Inr _, w') \<Rightarrow> indexClusters lib ix cls w')"

definition IndexField :: "'w clusterLib \<Rightarrow> indexRegistration \<Rightarrow> ('w provState, unit) io" where
  "IndexField lib ix s =
    (let s1 = registerIndex ix s
     in (case onWorld (cl_hostIndex lib ix) s1 of
           (Inl e, s2) \<Rightarrow> (Inl (indexFailed ''host cluster'' ix e), s2)
         | (Inr _, s2) \<Rightarrow> onWorld (indexClusters lib ix (currentClusters s2)) s2))"

end
