(* ===== verification/ProviderInv.thy ===== *)
theory ProviderInv
  imports Provider
begin

text \<open>
  What the provider keeps: the clusters it has engaged, the secrets they came from and the
  contexts they run under fit together, after every sequence of secret events and index
  registrations and whatever the libraries answer.
\<close>

section \<open>The registry\<close>

text \<open>
  The registry a provider state stands for: which secret registered which cluster, under
  which handle and context each cluster runs, what was started, what was cancelled and
  how many contexts were made.
\<close>

type_synonym handle = "nat \<times> nat"

definition registryOk ::
  "(string \<Rightarrow> string option) \<Rightarrow> (string \<Rightarrow> handle option) \<Rightarrow> handle set \<Rightarrow> nat set \<Rightarrow> nat \<Rightarrow> bool" where
  "registryOk owners lv started cancelled n \<longleftrightarrow>
     (\<forall>a. (\<exists>k. owners k = Some a) \<longleftrightarrow> (\<exists>p. lv a = Some p)) \<and>
     (\<forall>a j k. owners j = Some a \<longrightarrow> owners k = Some a \<longrightarrow> j = k) \<and>
     lv [] = None \<and>
     (\<forall>p. p \<in> started \<and> snd p \<notin> cancelled \<longleftrightarrow> (\<exists>a. lv a = Some p)) \<and>
     (\<forall>a b p q. lv a = Some p \<longrightarrow> lv b = Some q \<longrightarrow> snd p = snd q \<longrightarrow> a = b) \<and>
     (\<forall>p \<in> started. snd p < n) \<and>
     (\<forall>x \<in> cancelled. x < n) \<and>
     (\<forall>x < n. x \<in> cancelled \<or> (\<exists>a p. lv a = Some p \<and> snd p = x))"

lemma registryI:
  assumes "\<And>a. (\<exists>k. owners k = Some a) \<longleftrightarrow> (\<exists>p. lv a = Some p)"
    and "\<And>a j k. owners j = Some a \<Longrightarrow> owners k = Some a \<Longrightarrow> j = k"
    and "lv [] = None"
    and "\<And>p. p \<in> started \<and> snd p \<notin> cancelled \<longleftrightarrow> (\<exists>a. lv a = Some p)"
    and "\<And>a b p q. lv a = Some p \<Longrightarrow> lv b = Some q \<Longrightarrow> snd p = snd q \<Longrightarrow> a = b"
    and "\<And>p. p \<in> started \<Longrightarrow> snd p < n"
    and "\<And>x. x \<in> cancelled \<Longrightarrow> x < n"
    and "\<And>x. x < n \<Longrightarrow> x \<in> cancelled \<or> (\<exists>a p. lv a = Some p \<and> snd p = x)"
  shows "registryOk owners lv started cancelled n"
  using assms unfolding registryOk_def by blast

lemma registryD:
  assumes "registryOk owners lv started cancelled n"
  shows "(\<exists>k. owners k = Some a) \<longleftrightarrow> (\<exists>p. lv a = Some p)"
    and "owners j = Some a \<Longrightarrow> owners k = Some a \<Longrightarrow> j = k"
    and "lv [] = None"
    and "p \<in> started \<and> snd p \<notin> cancelled \<longleftrightarrow> (\<exists>a. lv a = Some p)"
    and "lv a = Some p \<Longrightarrow> lv b = Some q \<Longrightarrow> snd p = snd q \<Longrightarrow> a = b"
    and "p \<in> started \<Longrightarrow> snd p < n"
    and "x \<in> cancelled \<Longrightarrow> x < n"
    and "x < n \<Longrightarrow> x \<in> cancelled \<or> (\<exists>a p. lv a = Some p \<and> snd p = x)"
  using assms unfolding registryOk_def by blast+

lemma registry_leave:
  assumes ok: "registryOk owners lv started cancelled n" and a: "lv a = Some p"
  shows "registryOk (\<lambda>k. if owners k = Some a then None else owners k) (lv(a := None)) started
    (insert (snd p) cancelled) n"
proof (rule registryI)
  show "(\<exists>k. (if owners k = Some a then None else owners k) = Some b) \<longleftrightarrow> (\<exists>q. (lv(a := None)) b = Some q)" for b
  proof (cases "b = a")
    case False
    then have "(\<exists>k. (if owners k = Some a then None else owners k) = Some b) \<longleftrightarrow> (\<exists>k. owners k = Some b)"
      by (metis option.distinct(1) option.inject)
    then show ?thesis using registryD(1) [OF ok, of b] False by simp
  qed (simp split: if_splits)
  show "j = k" if "(if owners j = Some a then None else owners j) = Some b"
      "(if owners k = Some a then None else owners k) = Some b" for b j k
    using registryD(2) [OF ok, of j b k] that by (simp split: if_splits)
  show "(lv(a := None)) [] = None" using registryD(3) [OF ok] by simp
  show "q \<in> started \<and> snd q \<notin> insert (snd p) cancelled \<longleftrightarrow> (\<exists>b. (lv(a := None)) b = Some q)" for q
    using registryD(4) [OF ok, of q] registryD(5) [OF ok a, of _ q] a
    by (metis fun_upd_apply insert_iff option.inject option.distinct(1))
  show "b = c" if "(lv(a := None)) b = Some q" "(lv(a := None)) c = Some r" "snd q = snd r" for b c q r
    using registryD(5) [OF ok, of b q c r] that by (simp split: if_splits)
  show "snd q < n" if "q \<in> started" for q using registryD(6) [OF ok that] .
  show "x < n" if "x \<in> insert (snd p) cancelled" for x
    using registryD(7) [OF ok, of x] registryD(6) [OF ok, of p] registryD(4) [OF ok, of p] a that by blast
  show "x \<in> insert (snd p) cancelled \<or> (\<exists>b q. (lv(a := None)) b = Some q \<and> snd q = x)" if "x < n" for x
    using registryD(8) [OF ok that] a by (metis fun_upd_apply insertCI option.inject)
qed

lemma registry_join:
  assumes ok: "registryOk owners lv started cancelled n"
    and new: "lv a = None" "owners k = None" "a \<noteq> []"
  shows "registryOk (owners(k \<mapsto> a)) (lv(a \<mapsto> (c, n))) (insert (c, n) started) cancelled (Suc n)"
proof (rule registryI)
  have noa: "owners j \<noteq> Some a" for j using registryD(1) [OF ok, of a] new(1) by auto
  have small: "snd p < n" if "lv b = Some p" for b p
    using registryD(4) [OF ok, of p] registryD(6) [OF ok, of p] that by blast
  have fresh: "n \<notin> cancelled" using registryD(7) [OF ok, of n] by blast
  show "(\<exists>j. (owners(k \<mapsto> a)) j = Some b) \<longleftrightarrow> (\<exists>q. (lv(a \<mapsto> (c, n))) b = Some q)" for b
    using registryD(1) [OF ok, of b] new(2) by (metis fun_upd_apply option.distinct(1) option.inject)
  show "i = j" if "(owners(k \<mapsto> a)) i = Some b" "(owners(k \<mapsto> a)) j = Some b" for b i j
    using registryD(2) [OF ok, of i b j] that noa by (auto split: if_splits)
  show "(lv(a \<mapsto> (c, n))) [] = None" using registryD(3) [OF ok] new(3) by simp
  show "p \<in> insert (c, n) started \<and> snd p \<notin> cancelled \<longleftrightarrow> (\<exists>b. (lv(a \<mapsto> (c, n))) b = Some p)" for p
    using registryD(4) [OF ok, of p] fresh new(1)
    by (metis fun_upd_apply insert_iff option.inject option.distinct(1) snd_conv)
  show "b = d" if "(lv(a \<mapsto> (c, n))) b = Some p" "(lv(a \<mapsto> (c, n))) d = Some q" "snd p = snd q" for b d p q
    using registryD(5) [OF ok, of b p d q] small [of b p] small [of d q] that by (auto split: if_splits)
  show "snd p < Suc n" if "p \<in> insert (c, n) started" for p
    using registryD(6) [OF ok, of p] that by (auto simp: less_Suc_eq)
  show "x < Suc n" if "x \<in> cancelled" for x using registryD(7) [OF ok that] by simp
  show "x \<in> cancelled \<or> (\<exists>b p. (lv(a \<mapsto> (c, n))) b = Some p \<and> snd p = x)" if "x < Suc n" for x
  proof (cases "x = n")
    case True
    then show ?thesis by (intro disjI2 exI [of _ a] exI [of _ "(c, n)"]) simp
  next
    case False
    with that registryD(8) [OF ok, of x] have "x \<in> cancelled \<or> (\<exists>b p. lv b = Some p \<and> snd p = x)" by simp
    then show ?thesis using new(1) by (metis fun_upd_apply option.distinct(1))
  qed
qed

lemma registry_fail:
  assumes ok: "registryOk owners lv started cancelled n"
  shows "registryOk owners lv started (insert n cancelled) (Suc n)"
proof (rule registryI)
  show "p \<in> started \<and> snd p \<notin> insert n cancelled \<longleftrightarrow> (\<exists>a. lv a = Some p)" for p
    using registryD(4,6) [OF ok, of p] by (metis insert_iff less_irrefl)
  show "snd p < Suc n" if "p \<in> started" for p using registryD(6) [OF ok that] by simp
  show "x < Suc n" if "x \<in> insert n cancelled" for x using registryD(7) [OF ok, of x] that by auto
  show "x \<in> insert n cancelled \<or> (\<exists>a p. lv a = Some p \<and> snd p = x)" if "x < Suc n" for x
    using registryD(8) [OF ok, of x] that by (auto simp: less_Suc_eq)
qed (use registryD(1,2,3,5) [OF ok] in blast)+

section \<open>The registry of a provider state\<close>

definition live :: "'w provState \<Rightarrow> string \<Rightarrow> handle option" where
  "live s name = map_option (\<lambda>e. (ce_cluster e, ce_cancelFn e)) (map_of (pv_clusters s) name)"

definition owners :: "'w provState \<Rightarrow> string \<Rightarrow> string option" where
  "owners s = map_of (pv_secretCluster s)"

definition providerOk :: "'w provState \<Rightarrow> bool" where
  "providerOk s \<longleftrightarrow> gm_wf (pv_secretCluster s) \<and>
     registryOk (owners s) (live s) (set (ps_started s)) (set (ps_cancelled s)) (ps_contexts s)"

lemma map_of_filter_snd:
  "gm_wf m \<Longrightarrow> map_of (filter (\<lambda>(k, v). P v) m) k = (case map_of m k of Some v \<Rightarrow> if P v then Some v else None | None \<Rightarrow> None)"
proof (induction m)
  case (Cons p m)
  then have "fst p \<notin> set (map fst m)" "gm_wf m" by (auto simp: gm_wf_def)
  moreover from this have "map_of m (fst p) = None" by (simp add: map_of_eq_None_iff)
  ultimately show ?case using Cons.IH by (cases p) (auto split: option.splits)
qed simp

lemma gm_wf_filter: "gm_wf m \<Longrightarrow> gm_wf (filter P m)"
  by (induction m) (auto simp: gm_wf_def)

lemma onWorld_fields:
  assumes "onWorld m s = (r, t)"
  shows "pv_clusters t = pv_clusters s" "pv_secretCluster t = pv_secretCluster s" "ps_contexts t = ps_contexts s"
    "ps_cancelled t = ps_cancelled s" "ps_started t = ps_started s" "pv_opts t = pv_opts s" "pv_indexes t = pv_indexes s"
    "live t = live s" "owners t = owners s"
proof -
  from assms have t: "t = s\<lparr>ps_world := ps_world t\<rparr>" by (auto simp: onWorld_def split: prod.splits)
  show "pv_clusters t = pv_clusters s" "pv_secretCluster t = pv_secretCluster s" "ps_contexts t = ps_contexts s"
    "ps_cancelled t = ps_cancelled s" "ps_started t = ps_started s" "pv_opts t = pv_opts s" "pv_indexes t = pv_indexes s"
    by (subst t, simp)+
  then show "live t = live s" "owners t = owners s" by (simp_all add: live_def owners_def fun_eq_iff)
qed

lemma onWorld_ok: "onWorld m s = (r, t) \<Longrightarrow> providerOk s \<Longrightarrow> providerOk t"
  by (simp add: providerOk_def onWorld_fields [of m s r t])

lemma disengage_live: "live (disengage n s) = (live s)(n := None)"
  by (auto simp: disengage_def live_def cancelCtx_def fun_eq_iff split: option.splits)

lemma disengage_idle: "live s n = None \<Longrightarrow> disengage n s = s"
  by (simp add: disengage_def live_def)

lemma disengage_owners:
  "gm_wf (pv_secretCluster s) \<Longrightarrow> live s n = Some p \<Longrightarrow>
   owners (disengage n s) = (\<lambda>k. if owners s k = Some n then None else owners s k)"
  by (auto simp: disengage_def live_def owners_def cancelCtx_def fun_eq_iff map_of_filter_snd split: option.splits)

lemma disengage_fields [simp]:
  "pv_opts (disengage n s) = pv_opts s" "pv_indexes (disengage n s) = pv_indexes s"
  "ps_world (disengage n s) = ps_world s" "ps_contexts (disengage n s) = ps_contexts s"
  "ps_started (disengage n s) = ps_started s"
  by (auto simp: disengage_def cancelCtx_def split: option.splits)

lemma disengage_cancelled: "live s n = Some p \<Longrightarrow> ps_cancelled (disengage n s) = snd p # ps_cancelled s"
  by (auto simp: disengage_def live_def cancelCtx_def split: option.splits)

lemma disengage_ok:
  assumes ok: "providerOk s"
  shows "providerOk (disengage n s)"
proof (cases "live s n")
  case None
  then show ?thesis using ok by (simp add: disengage_idle)
next
  case (Some p)
  have wf: "gm_wf (pv_secretCluster s)" using ok by (simp add: providerOk_def)
  then have "gm_wf (pv_secretCluster (disengage n s))"
    by (auto simp: disengage_def cancelCtx_def gm_wf_filter split: option.splits)
  then show ?thesis
    using registry_leave [of "owners s" "live s", OF _ Some] ok
    by (simp add: providerOk_def disengage_live disengage_owners [OF wf Some] disengage_cancelled [OF Some])
qed

lemma owner_live: "providerOk s \<Longrightarrow> owners s k = Some n \<Longrightarrow> n \<noteq> [] \<and> (\<exists>p. live s n = Some p)"
  unfolding providerOk_def using registryD(1,3) [of "owners s" "live s"] by (metis option.distinct(1))

lemma disengageSecret_owners:
  assumes "providerOk s"
  shows "owners (disengageSecret k s) = (owners s)(k := None)"
proof (cases "owners s k")
  case None
  then show ?thesis by (auto simp: disengageSecret_def owners_def fun_eq_iff)
next
  case (Some n)
  from owner_live [OF assms Some] obtain p where n: "n \<noteq> []" "live s n = Some p" by blast
  have only: "k' = k" if "owners s k' = Some n" for k'
    using assms Some that registryD(2) [of "owners s" "live s"] unfolding providerOk_def by metis
  have "(\<lambda>k'. if owners s k' = Some n then None else owners s k') = (owners s)(k := None)"
  proof
    show "(if owners s j = Some n then None else owners s j) = ((owners s)(k := None)) j" for j
      using only [of j] Some by (cases "j = k") auto
  qed
  moreover have "disengageSecret k s = disengage n s"
    using Some n(1) by (simp add: disengageSecret_def owners_def)
  moreover have "gm_wf (pv_secretCluster s)" using assms by (simp add: providerOk_def)
  ultimately show ?thesis using disengage_owners [of s n p] n(2) by simp
qed

lemma disengageSecret_live:
  assumes "providerOk s"
  shows "live (disengageSecret k s) = (case owners s k of None \<Rightarrow> live s | Some n \<Rightarrow> (live s)(n := None))"
  using owner_live [OF assms, of k]
  by (auto simp: disengageSecret_def owners_def disengage_live split: option.splits)

lemma disengageSecret_ok: "providerOk s \<Longrightarrow> providerOk (disengageSecret k s)"
  by (auto simp: disengageSecret_def disengage_ok split: option.splits)

lemma disengageSecret_fields [simp]:
  "pv_opts (disengageSecret n s) = pv_opts s" "pv_indexes (disengageSecret n s) = pv_indexes s"
  "ps_world (disengageSecret n s) = ps_world s"
  by (auto simp: disengageSecret_def split: option.splits)

lemma live_frame [simp]:
  "live (s\<lparr>ps_world := w\<rparr>) = live s" "live (s\<lparr>pv_indexes := ixs\<rparr>) = live s"
  "owners (s\<lparr>ps_world := w\<rparr>) = owners s" "owners (s\<lparr>pv_indexes := ixs\<rparr>) = owners s"
  by (simp_all add: live_def owners_def fun_eq_iff)

section \<open>Joining a cluster\<close>

lemma withCancel_fields [simp]:
  "withCancel s = (x, t) \<Longrightarrow> x = ps_contexts s \<and> t = s\<lparr>ps_contexts := Suc (ps_contexts s)\<rparr>"
  by (auto simp: withCancel_def)

definition joined :: "string \<Rightarrow> string \<Rightarrow> nat \<Rightarrow> 'w provState \<Rightarrow> 'w provState \<Rightarrow> bool" where
  "joined name cluster cl s t \<longleftrightarrow>
     owners t = (owners s)(name \<mapsto> cluster) \<and> live t = (live s)(cluster \<mapsto> (cl, ps_contexts s)) \<and>
     (cl, ps_contexts s) \<in> set (ps_started t)"

lemma engageCluster_cases:
  assumes ok: "providerOk s" and new: "live s cluster = None" "owners s name = None" "cluster \<noteq> []"
  shows "providerOk (engageCluster lib name cluster cl s)"
    and "(owners (engageCluster lib name cluster cl s) = owners s \<and> live (engageCluster lib name cluster cl s) = live s) \<or>
      joined name cluster cl s (engageCluster lib name cluster cl s)"
    and "pv_opts (engageCluster lib name cluster cl s) = pv_opts s"
    and "pv_indexes (engageCluster lib name cluster cl s) = pv_indexes s"
proof -
  let ?x = "ps_contexts s" and ?t = "engageCluster lib name cluster cl s"
  let ?s2 = "publish name cluster cl ?x (s\<lparr>ps_contexts := Suc ?x\<rparr>)"
  have wf: "gm_wf (pv_secretCluster s)"
    and reg: "registryOk (owners s) (live s) (set (ps_started s)) (set (ps_cancelled s)) ?x"
    using ok by (simp_all add: providerOk_def)
  obtain r s3 where r: "onWorld (cl_engage lib ?x cluster cl) ?s2 = (r, s3)" by (rule prod.exhaust)
  note f = onWorld_fields [OF r]
  have pub: "owners ?s2 = (owners s)(name \<mapsto> cluster)" "live ?s2 = (live s)(cluster \<mapsto> (cl, ?x))"
    by (auto simp: publish_def owners_def live_def fun_eq_iff)
  have "providerOk ?t \<and> ((owners ?t = owners s \<and> live ?t = live s) \<or> joined name cluster cl s ?t) \<and>
      pv_opts ?t = pv_opts s \<and> pv_indexes ?t = pv_indexes s"
  proof (cases r)
    case (Inl e)
    have t: "?t = retract name cluster (cancelCtx ?x s3)"
      by (simp add: engageCluster_def withCancel_def r Inl)
    have "owners ?t = (owners s3)(name := None)" "live ?t = (live s3)(cluster := None)"
      unfolding t by (auto simp: retract_def cancelCtx_def owners_def live_def fun_eq_iff)
    then have undone: "owners ?t = owners s" "live ?t = live s"
      using new by (auto simp: f pub fun_eq_iff)
    have "gm_wf (pv_secretCluster ?t)" "set (ps_started ?t) = set (ps_started s)"
      "set (ps_cancelled ?t) = insert ?x (set (ps_cancelled s))" "ps_contexts ?t = Suc ?x"
      "pv_opts ?t = pv_opts s" "pv_indexes ?t = pv_indexes s"
      using wf unfolding t by (simp_all add: retract_def cancelCtx_def f publish_def)
    then show ?thesis using undone registry_fail [OF reg] by (simp add: providerOk_def)
  next
    case (Inr u)
    have t: "?t = startCluster cl ?x s3"
      by (simp add: engageCluster_def withCancel_def r Inr)
    have "owners ?t = owners s3" "live ?t = live s3"
      unfolding t by (auto simp: startCluster_def owners_def live_def fun_eq_iff)
    moreover have "gm_wf (pv_secretCluster ?t)" "set (ps_started ?t) = insert (cl, ?x) (set (ps_started s))"
      "set (ps_cancelled ?t) = set (ps_cancelled s)" "ps_contexts ?t = Suc ?x"
      "pv_opts ?t = pv_opts s" "pv_indexes ?t = pv_indexes s"
      using wf unfolding t by (simp_all add: startCluster_def f publish_def)
    ultimately show ?thesis using registry_join [OF reg new, of cl] by (simp add: providerOk_def joined_def f pub)
  qed
  then show "providerOk ?t" and "(owners ?t = owners s \<and> live ?t = live s) \<or> joined name cluster cl s ?t"
    and "pv_opts ?t = pv_opts s" and "pv_indexes ?t = pv_indexes s" by blast+
qed

text \<open>What a claim of a cluster name by a secret makes of the registry before it joins.\<close>

definition cleared :: "string \<Rightarrow> string \<Rightarrow> (string \<Rightarrow> string option) \<Rightarrow> string \<Rightarrow> string option" where
  "cleared name cluster m = (\<lambda>k. if k = name \<or> m k = Some cluster then None else m k)"

lemma clear_ok:
  assumes ok: "providerOk s"
  shows "providerOk (disengage cluster (disengageSecret name s))"
    and "owners (disengage cluster (disengageSecret name s)) = cleared name cluster (owners s)"
    and "live (disengage cluster (disengageSecret name s)) cluster = None"
proof -
  let ?s1 = "disengageSecret name s"
  have ok1: "providerOk ?s1" by (rule disengageSecret_ok [OF ok])
  then show "providerOk (disengage cluster ?s1)" by (rule disengage_ok)
  have o1: "owners ?s1 = (owners s)(name := None)" by (rule disengageSecret_owners [OF ok])
  show "owners (disengage cluster ?s1) = cleared name cluster (owners s)"
  proof (cases "live ?s1 cluster")
    case None
    then have none: "owners ?s1 k \<noteq> Some cluster" for k using owner_live [OF ok1, of k cluster] by auto
    have "owners s k \<noteq> Some cluster" if "k \<noteq> name" for k using none [of k] that by (simp add: o1)
    then have "cleared name cluster (owners s) = owners ?s1"
      by (auto simp: cleared_def o1 fun_eq_iff)
    then show ?thesis using None by (simp add: disengage_idle)
  next
    case (Some p)
    have "gm_wf (pv_secretCluster ?s1)" using ok1 by (simp add: providerOk_def)
    from disengage_owners [OF this Some] show ?thesis
      by (auto simp: o1 cleared_def fun_eq_iff)
  qed
  show "live (disengage cluster ?s1) cluster = None" by (simp add: disengage_live)
qed

lemma replaceCluster_cases:
  assumes ok: "providerOk s" and name: "cluster \<noteq> []"
  shows "providerOk (replaceCluster lib name cluster cfg s)"
    and "owners (replaceCluster lib name cluster cfg s) \<in>
      {cleared name cluster (owners s), (cleared name cluster (owners s))(name \<mapsto> cluster)}"
    and "pv_opts (replaceCluster lib name cluster cfg s) = pv_opts s"
    and "pv_indexes (replaceCluster lib name cluster cfg s) = pv_indexes s"
proof -
  let ?t = "replaceCluster lib name cluster cfg s" and ?s1 = "disengage cluster (disengageSecret name s)"
  note c = clear_ok [OF ok, of cluster name]
  have s1: "pv_opts ?s1 = pv_opts s" "pv_indexes ?s1 = pv_indexes s" by simp_all
  obtain r s2 where r: "onWorld (cl_new lib cfg (po_clusterOptions (pv_opts s))) ?s1 = (r, s2)" by (rule prod.exhaust)
  note f2 = onWorld_fields [OF r] and ok2 = onWorld_ok [OF r c(1)]
  have "providerOk ?t \<and> owners ?t \<in> {cleared name cluster (owners s), (cleared name cluster (owners s))(name \<mapsto> cluster)} \<and>
      pv_opts ?t = pv_opts s \<and> pv_indexes ?t = pv_indexes s"
  proof (cases r)
    case (Inl e)
    then have "?t = s2" by (simp add: replaceCluster_def r)
    then show ?thesis using ok2 by (simp add: f2 c s1)
  next
    case (Inr cl)
    obtain q s3 where q: "onWorld (indexCluster lib cl (pv_indexes s2)) s2 = (q, s3)" by (rule prod.exhaust)
    note f3 = onWorld_fields [OF q] and ok3 = onWorld_ok [OF q ok2]
    show ?thesis
    proof (cases q)
      case (Inl e)
      then have "?t = s3" using Inr by (simp add: replaceCluster_def r q)
      then show ?thesis using ok3 by (simp add: f3 f2 c s1)
    next
      case (Inr u)
      have t: "?t = engageCluster lib name cluster cl s3" using \<open>r = Inr cl\<close> Inr by (simp add: replaceCluster_def r q)
      have n: "live s3 cluster = None" "owners s3 name = None" by (simp_all add: f3 f2 c cleared_def)
      from engageCluster_cases [OF ok3 n name, of lib cl] show ?thesis
        unfolding t by (auto simp: joined_def f3 f2 c s1)
    qed
  qed
  then show "providerOk ?t" "owners ?t \<in> {cleared name cluster (owners s), (cleared name cluster (owners s))(name \<mapsto> cluster)}"
    "pv_opts ?t = pv_opts s" "pv_indexes ?t = pv_indexes s" by blast+
qed

section \<open>Events\<close>

text \<open>What an event asks of the provider: to forget a secret, or to let it claim a cluster.\<close>

datatype request = Ignore | Forget string | Claim string string

definition requestOf :: "'w clusterLib \<Rightarrow> ProviderOptions \<Rightarrow> secretEvent \<Rightarrow> request" where
  "requestOf lib opts ev =
    (case ev of
       SecretDeleted obj \<Rightarrow> (case asSecret obj of None \<Rightarrow> Ignore | Some sec \<Rightarrow> Forget (secretKey sec))
     | SecretAdded obj \<Rightarrow> (case asSecret obj of None \<Rightarrow> Ignore | Some sec \<Rightarrow>
         if matches opts sec \<and> kubeconfigOf lib opts sec \<noteq> None then Claim (secretKey sec) (clusterName opts sec)
         else Forget (secretKey sec))
     | SecretUpdated obj \<Rightarrow> (case asSecret obj of None \<Rightarrow> Ignore | Some sec \<Rightarrow>
         if matches opts sec \<and> kubeconfigOf lib opts sec \<noteq> None then Claim (secretKey sec) (clusterName opts sec)
         else Forget (secretKey sec)))"

text \<open>
  The registry on its own, an abstract machine over the secrets and the clusters they
  name: a claim takes the cluster from any other secret that had it and may fail to get
  it, when the cluster cannot be reached.
\<close>

inductive registry_step :: "request \<Rightarrow> (string \<Rightarrow> string option) \<Rightarrow> (string \<Rightarrow> string option) \<Rightarrow> bool" where
  Ignored: "registry_step Ignore m m"
| Forgotten: "registry_step (Forget k) m (m(k := None))"
| Claimed: "registry_step (Claim k a) m ((cleared k a m)(k \<mapsto> a))"
| Refused: "registry_step (Claim k a) m (cleared k a m)"

inductive_cases registry_stepE: "registry_step q m m'"

definition eventNamed :: "secretEvent \<Rightarrow> bool" where
  "eventNamed ev = (case ev of SecretAdded obj \<Rightarrow> (\<forall>sec. asSecret obj = Some sec \<longrightarrow> sec_name sec \<noteq> [])
     | SecretUpdated obj \<Rightarrow> (\<forall>sec. asSecret obj = Some sec \<longrightarrow> sec_name sec \<noteq> []) | SecretDeleted obj \<Rightarrow> True)"

lemma clusterName_named: "sec_name sec \<noteq> [] \<Longrightarrow> clusterName opts sec \<noteq> []"
  by (simp add: clusterName_def split: option.splits)

lemma handleSecret_request:
  "handleSecret lib obj s =
    (case requestOf lib (pv_opts s) (SecretAdded obj) of
       Ignore \<Rightarrow> s | Forget k \<Rightarrow> disengageSecret k s
     | Claim k a \<Rightarrow> (case asSecret obj of None \<Rightarrow> s | Some sec \<Rightarrow>
         replaceCluster lib k a (the (kubeconfigOf lib (pv_opts s) sec)) s))"
  by (auto simp: handleSecret_def requestOf_def split: option.splits)

lemma requestOf_updated: "requestOf lib opts (SecretUpdated obj) = requestOf lib opts (SecretAdded obj)"
  by (simp add: requestOf_def)

lemma handleSecret_cases:
  assumes ok: "providerOk s" and named: "eventNamed (SecretAdded obj)"
  shows "providerOk (handleSecret lib obj s) \<and>
    registry_step (requestOf lib (pv_opts s) (SecretAdded obj)) (owners s) (owners (handleSecret lib obj s)) \<and>
    pv_opts (handleSecret lib obj s) = pv_opts s \<and> pv_indexes (handleSecret lib obj s) = pv_indexes s"
proof (cases "asSecret obj")
  case None
  then show ?thesis using ok by (simp add: handleSecret_request requestOf_def registry_step.Ignored)
next
  case (Some sec)
  show ?thesis
  proof (cases "matches (pv_opts s) sec \<and> kubeconfigOf lib (pv_opts s) sec \<noteq> None")
    case True
    then have q: "requestOf lib (pv_opts s) (SecretAdded obj) = Claim (secretKey sec) (clusterName (pv_opts s) sec)"
      using Some by (simp add: requestOf_def)
    have "clusterName (pv_opts s) sec \<noteq> []" using named Some by (simp add: eventNamed_def clusterName_named)
    from replaceCluster_cases [OF ok this, of lib "secretKey sec" "the (kubeconfigOf lib (pv_opts s) sec)"]
    show ?thesis using Some by (auto simp: handleSecret_request q intro: registry_step.Claimed registry_step.Refused)
  next
    case False
    then have q: "requestOf lib (pv_opts s) (SecretAdded obj) = Forget (secretKey sec)"
      using Some by (simp add: requestOf_def)
    show ?thesis using disengageSecret_ok [OF ok] disengageSecret_owners [OF ok]
      by (auto simp: handleSecret_request q registry_step.Forgotten)
  qed
qed

lemma onEvent_cases:
  assumes ok: "providerOk s" and named: "eventNamed ev"
  shows "providerOk (onEvent lib ev s) \<and>
    registry_step (requestOf lib (pv_opts s) ev) (owners s) (owners (onEvent lib ev s)) \<and>
    pv_opts (onEvent lib ev s) = pv_opts s \<and> pv_indexes (onEvent lib ev s) = pv_indexes s"
proof (cases ev)
  case (SecretAdded obj)
  then show ?thesis using handleSecret_cases [OF ok, of obj lib] named by simp
next
  case (SecretUpdated obj)
  then have "eventNamed (SecretAdded obj)" using named by (simp add: eventNamed_def)
  then show ?thesis using handleSecret_cases [OF ok, of obj lib] SecretUpdated by (simp add: requestOf_updated)
next
  case (SecretDeleted obj)
  then show ?thesis using ok disengageSecret_ok [OF ok] disengageSecret_owners [OF ok]
    by (auto simp: requestOf_def registry_step.Ignored registry_step.Forgotten split: option.splits)
qed

section \<open>Runs\<close>

text \<open>
  A run of the provider: its events newest first, the index registrations between them,
  and whatever happens to the libraries' world in the meantime. Event handlers of one
  informer run one after the other.
\<close>

inductive provider_run :: "'w clusterLib \<Rightarrow> ProviderOptions \<Rightarrow> secretEvent list \<Rightarrow> 'w provState \<Rightarrow> bool"
  for lib opts where
  Fresh: "provider_run lib opts [] (NewKubeconfigProvider opts w)"
| Event: "provider_run lib opts evs s \<Longrightarrow> eventNamed ev \<Longrightarrow> provider_run lib opts (ev # evs) (onEvent lib ev s)"
| Index: "provider_run lib opts evs s \<Longrightarrow> IndexField lib ix s = (r, t) \<Longrightarrow> provider_run lib opts evs t"
| World: "provider_run lib opts evs s \<Longrightarrow> provider_run lib opts evs (s\<lparr>ps_world := w\<rparr>)"

lemma IndexField_fields:
  assumes "IndexField lib ix s = (r, t)"
  shows "owners t = owners s" "pv_opts t = pv_opts s" "providerOk s \<Longrightarrow> providerOk t"
proof -
  let ?s1 = "registerIndex ix s"
  have s1: "owners ?s1 = owners s" "pv_opts ?s1 = pv_opts s" "live ?s1 = live s"
    "providerOk s \<Longrightarrow> providerOk ?s1"
    by (simp_all add: registerIndex_def providerOk_def)
  obtain q s2 where q: "onWorld (cl_hostIndex lib ix) ?s1 = (q, s2)" by (rule prod.exhaust)
  note f = onWorld_fields [OF q] and ok2 = onWorld_ok [OF q]
  have "owners t = owners s \<and> pv_opts t = pv_opts s \<and> (providerOk s \<longrightarrow> providerOk t)"
  proof (cases q)
    case (Inl e)
    then have "t = s2" using assms by (simp add: IndexField_def q)
    then show ?thesis using f s1 ok2 by simp
  next
    case (Inr u)
    then have t: "onWorld (indexClusters lib ix (currentClusters s2)) s2 = (r, t)" using assms by (simp add: IndexField_def q)
    show ?thesis using onWorld_fields [OF t] onWorld_ok [OF t] f s1 ok2 by simp
  qed
  then show "owners t = owners s" "pv_opts t = pv_opts s" "providerOk s \<Longrightarrow> providerOk t" by blast+
qed

lemma fresh_ok: "providerOk (NewKubeconfigProvider opts w)"
  by (simp add: NewKubeconfigProvider_def providerOk_def registryOk_def owners_def live_def)

lemma provider_run_ok: "provider_run lib opts evs s \<Longrightarrow> providerOk s \<and> pv_opts s = defaultOptions opts"
proof (induction rule: provider_run.induct)
  case (Fresh w)
  show ?case using fresh_ok [of opts w] by (simp add: NewKubeconfigProvider_def)
next
  case (Event evs s ev)
  then show ?case using onEvent_cases [of s ev lib] by simp
next
  case (Index evs s ix r t)
  then show ?case using IndexField_fields [OF Index.hyps(2)] by simp
next
  case (World evs s w)
  then show ?case by (simp add: providerOk_def)
qed

definition engaged :: "'w provState \<Rightarrow> handle set" where
  "engaged s = {(ce_cluster e, ce_cancelFn e) | e. \<exists>n. map_of (pv_clusters s) n = Some e}"

definition running :: "'w provState \<Rightarrow> handle set" where
  "running s = {p \<in> set (ps_started s). snd p \<notin> set (ps_cancelled s)}"

text \<open>C20: After every run of the provider, the clusters that run (started, and their context not
  cancelled) are exactly the engaged ones, every engaged cluster comes from exactly one
  secret and every registered secret has its cluster engaged, and no context the provider
  ever made is left neither cancelled nor in the table of clusters.\<close>

theorem provider_owns_its_clusters:
  assumes "provider_run lib opts evs s"
  shows "running s = engaged s \<and>
    (\<forall>a. a \<in> dom (map_of (pv_clusters s)) \<longleftrightarrow> (\<exists>!k. map_of (pv_secretCluster s) k = Some a)) \<and>
    (\<forall>x < ps_contexts s. x \<in> set (ps_cancelled s) \<or> x \<in> snd ` engaged s)"
proof -
  have reg: "registryOk (owners s) (live s) (set (ps_started s)) (set (ps_cancelled s)) (ps_contexts s)"
    using provider_run_ok [OF assms] by (simp add: providerOk_def)
  have eng: "p \<in> engaged s \<longleftrightarrow> (\<exists>n. live s n = Some p)" for p
    by (auto simp: engaged_def live_def)
  have "running s = engaged s" using registryD(4) [OF reg] eng by (auto simp: running_def)
  moreover have "a \<in> dom (map_of (pv_clusters s)) \<longleftrightarrow> (\<exists>!k. map_of (pv_secretCluster s) k = Some a)" for a
    using registryD(1) [OF reg, of a] registryD(2) [OF reg, of _ a]
    by (auto simp: owners_def live_def)
  moreover have "x \<in> set (ps_cancelled s) \<or> x \<in> snd ` engaged s" if "x < ps_contexts s" for x
    using registryD(8) [OF reg that] eng by (metis image_eqI)
  ultimately show ?thesis by blast
qed

text \<open>C19: The provider implements the registry: whatever the libraries answer, the secrets it
  has registered change with an event as the abstract registry does with the request the
  event makes, and index registrations do not change them.\<close>

theorem provider_refines_registry:
  assumes "provider_run lib opts evs s" and "eventNamed ev" and "IndexField lib ix s = (r, t)"
  shows "registry_step (requestOf lib (defaultOptions opts) ev) (map_of (pv_secretCluster s))
      (map_of (pv_secretCluster (onEvent lib ev s))) \<and>
    map_of (pv_secretCluster t) = map_of (pv_secretCluster s)"
  using onEvent_cases [of s ev lib] provider_run_ok [OF assms(1)] assms(2) IndexField_fields(1) [OF assms(3)]
  by (simp add: owners_def)

text \<open>The newest event about a secret.\<close>

definition subject :: "secretEvent \<Rightarrow> string option" where
  "subject ev = map_option secretKey (asSecret (case ev of SecretAdded obj \<Rightarrow> obj | SecretUpdated obj \<Rightarrow> obj | SecretDeleted obj \<Rightarrow> obj))"

definition newestAbout :: "string \<Rightarrow> secretEvent list \<Rightarrow> secretEvent option" where
  "newestAbout k evs = find (\<lambda>ev. subject ev = Some k) evs"

lemma request_subject:
  "requestOf lib opts ev = Ignore \<longleftrightarrow> subject ev = None"
  "requestOf lib opts ev = Forget k \<Longrightarrow> subject ev = Some k"
  "requestOf lib opts ev = Claim k a \<Longrightarrow> subject ev = Some k"
  by (auto simp: requestOf_def subject_def split: secretEvent.splits option.splits if_splits)

lemma registered_claim:
  assumes "provider_run lib opts evs s" and "map_of (pv_secretCluster s) k = Some a"
  shows "\<exists>ev. newestAbout k evs = Some ev \<and> requestOf lib (defaultOptions opts) ev = Claim k a"
  using assms
proof (induction rule: provider_run.induct)
  case (Fresh w)
  then show ?case by (simp add: NewKubeconfigProvider_def)
next
  case (Event evs s ev)
  let ?q = "requestOf lib (defaultOptions opts) ev"
  have st: "registry_step ?q (map_of (pv_secretCluster s)) (map_of (pv_secretCluster (onEvent lib ev s)))"
    using onEvent_cases [of s ev lib] provider_run_ok [OF Event.hyps(1)] Event.hyps(2) by (simp add: owners_def)
  show ?case
  proof (cases "subject ev = Some k")
    case True
    have "?q = Claim k a"
      using st Event.prems request_subject(2,3) [of lib "defaultOptions opts" ev] True request_subject(1) [of lib "defaultOptions opts" ev]
      by (auto elim!: registry_stepE simp: cleared_def split: if_splits)
    then show ?thesis using True by (simp add: newestAbout_def)
  next
    case False
    have "map_of (pv_secretCluster s) k = Some a"
      using st Event.prems request_subject(2,3) [of lib "defaultOptions opts" ev] False
      by (auto elim!: registry_stepE simp: cleared_def split: if_splits)
    then show ?thesis using Event.IH False by (simp add: newestAbout_def)
  qed
next
  case (Index evs s ix r t)
  then show ?case using IndexField_fields(1) [OF Index.hyps(2)] by (simp add: owners_def)
next
  case (World evs s w)
  then show ?case by simp
qed

text \<open>C21: A cluster is only served while its secret asks for it: when a cluster is engaged after a
  run, the newest event about the secret that registered it was not a deletion, and that
  secret is in the provider's namespace, has the label with the value \<open>true\<close>, holds a
  kubeconfig that parses and names this cluster.\<close>

theorem engaged_cluster_has_secret:
  assumes "provider_run lib opts evs s" and "getCluster n s = Inr c"
  shows "\<exists>k obj sec. (newestAbout k evs = Some (SecretAdded obj) \<or> newestAbout k evs = Some (SecretUpdated obj)) \<and>
    asSecret obj = Some sec \<and> secretKey sec = k \<and> matches (defaultOptions opts) sec \<and>
    kubeconfigOf lib (defaultOptions opts) sec \<noteq> None \<and> clusterName (defaultOptions opts) sec = n"
proof -
  have reg: "registryOk (owners s) (live s) (set (ps_started s)) (set (ps_cancelled s)) (ps_contexts s)"
    using provider_run_ok [OF assms(1)] by (simp add: providerOk_def)
  have "\<exists>p. live s n = Some p" using assms(2) by (auto simp: getCluster_def live_def split: option.splits)
  then obtain k where "map_of (pv_secretCluster s) k = Some n"
    using registryD(1) [OF reg, of n] by (auto simp: owners_def)
  from registered_claim [OF assms(1) this] obtain ev where
    "newestAbout k evs = Some ev" "requestOf lib (defaultOptions opts) ev = Claim k n" by blast
  then show ?thesis
    by (intro exI [of _ k]) (auto simp: requestOf_def split: secretEvent.splits option.splits if_splits)
qed

section \<open>Two secrets, one name\<close>

text \<open>C38: A cluster name taken over is not given back: when a second secret names the cluster of a
  first one and is then deleted, the cluster is gone, although the first secret is still
  there and asks for it.\<close>

theorem taken_name_is_lost:
  assumes "provider_run lib opts evs s" and "eventNamed (SecretAdded (AnySecret a))" and "eventNamed (SecretAdded (AnySecret b))"
    and "requestOf lib (defaultOptions opts) (SecretAdded (AnySecret a)) = Claim (secretKey a) n"
    and "requestOf lib (defaultOptions opts) (SecretAdded (AnySecret b)) = Claim (secretKey b) n"
    and "secretKey a \<noteq> secretKey b"
  shows "getCluster n (onEvent lib (SecretDeleted (AnySecret b)) (onEvent lib (SecretAdded (AnySecret b))
      (onEvent lib (SecretAdded (AnySecret a)) s))) = Inl (ErrNotFound ''cluster not found'')"
proof -
  let ?s1 = "onEvent lib (SecretAdded (AnySecret a)) s"
  let ?s2 = "onEvent lib (SecretAdded (AnySecret b)) ?s1"
  let ?s3 = "onEvent lib (SecretDeleted (AnySecret b)) ?s2"
  note r1 = provider_run.Event [OF assms(1,2)]
  note r2 = provider_run.Event [OF r1 assms(3)]
  note ok1 = provider_run_ok [OF r1] and ok2 = provider_run_ok [OF r2]
  have st: "registry_step (Claim (secretKey b) n) (owners ?s1) (owners ?s2)"
    using onEvent_cases [of ?s1 "SecretAdded (AnySecret b)" lib] ok1 assms(3,5) by simp
  have ok3: "providerOk ?s3" and o3: "owners ?s3 = (owners ?s2)(secretKey b := None)"
    using ok2 disengageSecret_ok disengageSecret_owners by auto
  have "owners ?s3 k \<noteq> Some n" for k
    using st unfolding o3 by (auto elim!: registry_stepE simp: cleared_def split: if_splits)
  moreover have reg: "registryOk (owners ?s3) (live ?s3) (set (ps_started ?s3)) (set (ps_cancelled ?s3)) (ps_contexts ?s3)"
    using ok3 by (simp add: providerOk_def)
  ultimately have "live ?s3 n = None" using registryD(1) [OF reg, of n] by (metis option.exhaust)
  then show ?thesis by (simp add: getCluster_def live_def)
qed

section \<open>Registering an index\<close>

text \<open>
  The handler copies the registered indexes before it publishes the cluster, \<open>IndexField\<close>
  appends the index before it reads the published clusters; the two run in different
  goroutines, each of the four under the lock.
\<close>

datatype indexStep = CopyIndexes | Publish | AppendIndex | Snapshot

record 'w indexRace =
  ir_state :: "'w provState"
  ir_copied :: "indexRegistration list"
  ir_snapshot :: "(string, nat) gomap"

fun runIndexStep :: "string \<Rightarrow> string \<Rightarrow> nat \<Rightarrow> nat \<Rightarrow> indexRegistration \<Rightarrow> indexStep \<Rightarrow> 'w indexRace \<Rightarrow> 'w indexRace" where
  "runIndexStep name cluster cl x ix CopyIndexes c = c\<lparr>ir_copied := pv_indexes (ir_state c)\<rparr>"
| "runIndexStep name cluster cl x ix Publish c = c\<lparr>ir_state := publish name cluster cl x (ir_state c)\<rparr>"
| "runIndexStep name cluster cl x ix AppendIndex c = c\<lparr>ir_state := registerIndex ix (ir_state c)\<rparr>"
| "runIndexStep name cluster cl x ix Snapshot c = c\<lparr>ir_snapshot := currentClusters (ir_state c)\<rparr>"

lemma currentClusters_at: "map_of (currentClusters s) n = map_option ce_cluster (map_of (pv_clusters s) n)"
  by (simp add: currentClusters_def map_of_map)


section \<open>Indexes without a race\<close>

text \<open>
  What is assumed of the clusters: an index accepted by a cluster's indexer stays there;
  \<open>indexed w\<close> is the set of the indexes the clusters of the world \<open>w\<close> have.
\<close>

definition indexLaws :: "'w clusterLib \<Rightarrow> ('w \<Rightarrow> (nat \<times> indexRegistration) set) \<Rightarrow> bool" where
  "indexLaws lib indexed \<longleftrightarrow>
     (\<forall>c ix w r w'. cl_index lib c ix w = (r, w') \<longrightarrow> indexed w \<subseteq> indexed w' \<and> (r = Inr () \<longrightarrow> (c, ix) \<in> indexed w')) \<and>
     (\<forall>ix w r w'. cl_hostIndex lib ix w = (r, w') \<longrightarrow> indexed w \<subseteq> indexed w') \<and>
     (\<forall>cfg cfgOpts w r w'. cl_new lib cfg cfgOpts w = (r, w') \<longrightarrow> indexed w \<subseteq> indexed w') \<and>
     (\<forall>x n c w r w'. cl_engage lib x n c w = (r, w') \<longrightarrow> indexed w \<subseteq> indexed w')"

lemma index_law:
  assumes "indexLaws lib indexed"
  shows "cl_index lib c ix w = (r, w') \<Longrightarrow> indexed w \<subseteq> indexed w'"
    and "cl_index lib c ix w = (Inr (), w') \<Longrightarrow> (c, ix) \<in> indexed w'"
    and "cl_hostIndex lib ix w = (r', w') \<Longrightarrow> indexed w \<subseteq> indexed w'"
    and "cl_new lib cfg cfgOpts w = (r'', w') \<Longrightarrow> indexed w \<subseteq> indexed w'"
    and "cl_engage lib x n c w = (r', w') \<Longrightarrow> indexed w \<subseteq> indexed w'"
  using assms unfolding indexLaws_def by metis+

definition allIndexed :: "('w \<Rightarrow> (nat \<times> indexRegistration) set) \<Rightarrow> 'w provState \<Rightarrow> bool" where
  "allIndexed indexed s \<longleftrightarrow> (\<forall>n c ix. getCluster n s = Inr c \<longrightarrow> ix \<in> set (pv_indexes s) \<longrightarrow> (c, ix) \<in> indexed (ps_world s))"

lemma getCluster_live: "getCluster n s = Inr c \<longleftrightarrow> (\<exists>x. live s n = Some (c, x))"
  by (auto simp: getCluster_def live_def split: option.splits)

lemma indexCluster_indexed:
  assumes laws: "indexLaws lib indexed" and "indexCluster lib c ixs w = (r, w')"
  shows "indexed w \<subseteq> indexed w' \<and> (r = Inr () \<longrightarrow> (\<forall>ix \<in> set ixs. (c, ix) \<in> indexed w'))"
  using assms(2) unfolding indexCluster_def io_for_def
proof (induction ixs arbitrary: w)
  case Nil
  then show ?case by simp
next
  case (Cons ix ixs)
  obtain q v where q: "cl_index lib c ix w = (q, v)" by (rule prod.exhaust)
  then have first: "indexed w \<subseteq> indexed v" and added: "q = Inr () \<Longrightarrow> (c, ix) \<in> indexed v"
    using index_law(1,2) [OF laws] by blast+
  show ?case
  proof (cases q)
    case (Inl e)
    then show ?thesis using Cons.prems first by (auto simp: q)
  next
    case (Inr u)
    then have "io_seq (map (cl_index lib c) ixs) v = (r, w')" using Cons.prems by (simp add: q)
    from Cons.IH [OF this] show ?thesis using first added Inr by auto
  qed
qed

lemma indexClusters_indexed:
  assumes laws: "indexLaws lib indexed" and "indexClusters lib ix cls w = (r, w')"
  shows "indexed w \<subseteq> indexed w' \<and> (r = Inr () \<longrightarrow> (\<forall>c \<in> snd ` set cls. (c, ix) \<in> indexed w'))"
  using assms(2)
proof (induction cls arbitrary: w)
  case Nil
  then show ?case by simp
next
  case (Cons p cls)
  obtain n c where p: "p = (n, c)" by (rule prod.exhaust)
  obtain q v where q: "cl_index lib c ix w = (q, v)" by (rule prod.exhaust)
  then have first: "indexed w \<subseteq> indexed v" and added: "q = Inr () \<Longrightarrow> (c, ix) \<in> indexed v"
    using index_law(1,2) [OF laws] by blast+
  show ?case
  proof (cases q)
    case (Inl e)
    then show ?thesis using Cons.prems first by (auto simp: q p)
  next
    case (Inr u)
    then have "indexClusters lib ix cls v = (r, w')" using Cons.prems by (simp add: q p)
    from Cons.IH [OF this] show ?thesis using first added Inr by (auto simp: p)
  qed
qed

lemma onWorld_run: "onWorld m s = (r, t) \<Longrightarrow> m (ps_world s) = (r, ps_world t)"
  by (auto simp: onWorld_def split: prod.splits)

lemma allIndexed_mono:
  assumes "allIndexed indexed s" and "\<And>n c. getCluster n t = Inr c \<Longrightarrow> getCluster n s = Inr c"
    and "pv_indexes t = pv_indexes s" and "indexed (ps_world s) \<subseteq> indexed (ps_world t)"
  shows "allIndexed indexed t"
  using assms unfolding allIndexed_def by (metis subsetD)

lemma disengage_get: "getCluster n (disengage a s) = Inr c \<Longrightarrow> getCluster n s = Inr c"
  by (auto simp: getCluster_live disengage_live split: if_splits)

lemma disengageSecret_get: "getCluster n (disengageSecret k s) = Inr c \<Longrightarrow> getCluster n s = Inr c"
  unfolding disengageSecret_def using disengage_get by (auto split: option.splits if_splits)

lemma allIndexed_disengageSecret: "allIndexed indexed s \<Longrightarrow> allIndexed indexed (disengageSecret k s)"
  by (rule allIndexed_mono [of indexed s]) (simp_all, erule disengageSecret_get)

lemma engageCluster_effect:
  assumes laws: "indexLaws lib indexed"
  shows "(getCluster n (engageCluster lib name cluster cl s) = Inr c \<longrightarrow> getCluster n s = Inr c \<or> c = cl) \<and>
    indexed (ps_world s) \<subseteq> indexed (ps_world (engageCluster lib name cluster cl s)) \<and>
    pv_indexes (engageCluster lib name cluster cl s) = pv_indexes s"
proof -
  let ?x = "ps_contexts s" and ?t = "engageCluster lib name cluster cl s"
  let ?s2 = "publish name cluster cl ?x (s\<lparr>ps_contexts := Suc ?x\<rparr>)"
  obtain r s3 where r: "onWorld (cl_engage lib ?x cluster cl) ?s2 = (r, s3)" by (rule prod.exhaust)
  note f = onWorld_fields [OF r]
  have w: "indexed (ps_world s) \<subseteq> indexed (ps_world s3)"
    using index_law(5) [OF laws onWorld_run [OF r]] by (simp add: publish_def)
  show ?thesis
  proof (cases r)
    case (Inl e)
    then have t: "?t = retract name cluster (cancelCtx ?x s3)" by (simp add: engageCluster_def withCancel_def r)
    show ?thesis using w unfolding t
      by (auto simp: retract_def cancelCtx_def getCluster_def f publish_def split: option.splits if_splits)
  next
    case (Inr u)
    then have t: "?t = startCluster cl ?x s3" by (simp add: engageCluster_def withCancel_def r)
    show ?thesis using w unfolding t
      by (auto simp: startCluster_def getCluster_def f publish_def split: option.splits if_splits)
  qed
qed

lemma allIndexed_replaceCluster:
  assumes laws: "indexLaws lib indexed" and all: "allIndexed indexed s"
  shows "allIndexed indexed (replaceCluster lib name cluster cfg s)"
proof -
  let ?s1 = "disengage cluster (disengageSecret name s)"
  have all1: "allIndexed indexed ?s1"
    using all by (rule allIndexed_mono) (auto dest: disengage_get disengageSecret_get)
  obtain r s2 where r: "onWorld (cl_new lib cfg (po_clusterOptions (pv_opts s))) ?s1 = (r, s2)" by (rule prod.exhaust)
  note f2 = onWorld_fields [OF r]
  have all2: "allIndexed indexed s2"
    using all1 by (rule allIndexed_mono)
      (use index_law(4) [OF laws onWorld_run [OF r]] f2 in \<open>auto simp: getCluster_def\<close>)
  show ?thesis
  proof (cases r)
    case (Inl e)
    then show ?thesis using all2 by (simp add: replaceCluster_def r)
  next
    case (Inr cl)
    obtain q s3 where q: "onWorld (indexCluster lib cl (pv_indexes s2)) s2 = (q, s3)" by (rule prod.exhaust)
    note f3 = onWorld_fields [OF q] and i3 = indexCluster_indexed [OF laws onWorld_run [OF q]]
    have all3: "allIndexed indexed s3"
      using all2 by (rule allIndexed_mono) (use f3 i3 in \<open>auto simp: getCluster_def\<close>)
    show ?thesis
    proof (cases q)
      case (Inl e)
      then show ?thesis using Inr all3 by (simp add: replaceCluster_def r q)
    next
      case (Inr u)
      have t: "replaceCluster lib name cluster cfg s = engageCluster lib name cluster cl s3"
        using \<open>r = Inr cl\<close> Inr by (simp add: replaceCluster_def r q)
      have "\<forall>ix \<in> set (pv_indexes s3). (cl, ix) \<in> indexed (ps_world s3)" using i3 Inr f3 by simp
      then show ?thesis using all3 engageCluster_effect [OF laws, of _ name cluster cl s3]
        unfolding t allIndexed_def by (metis subsetD)
    qed
  qed
qed

text \<open>C22: Without a race every engaged cluster has every index: a secret event keeps this, and so does
  an \<open>IndexField\<close> that succeeds, provided a cluster's indexer keeps the indexes it accepted.\<close>

theorem engaged_clusters_indexed:
  assumes laws: "indexLaws lib indexed" and all: "allIndexed indexed s"
  shows "allIndexed indexed (onEvent lib ev s) \<and>
    (\<forall>t. IndexField lib ix s = (Inr (), t) \<longrightarrow> allIndexed indexed t)"
proof
  have handled: "allIndexed indexed (handleSecret lib obj s)" for obj
    using all allIndexed_replaceCluster [OF laws all] allIndexed_disengageSecret [OF all]
    by (auto simp: handleSecret_def split: option.splits)
  show "allIndexed indexed (onEvent lib ev s)"
    using handled all allIndexed_disengageSecret [OF all] by (cases ev) (auto split: option.splits)
  show "\<forall>t. IndexField lib ix s = (Inr (), t) \<longrightarrow> allIndexed indexed t"
  proof (intro allI impI)
    fix t assume t: "IndexField lib ix s = (Inr (), t)"
    let ?s1 = "registerIndex ix s"
    obtain q s2 where q: "onWorld (cl_hostIndex lib ix) ?s1 = (q, s2)" by (rule prod.exhaust)
    then have q': "q = Inr ()" and run: "onWorld (indexClusters lib ix (currentClusters s2)) s2 = (Inr (), t)"
      using t by (cases q; simp add: IndexField_def)+
    note f = onWorld_fields [OF q] and g = onWorld_fields [OF run]
    have w2: "indexed (ps_world s) \<subseteq> indexed (ps_world s2)"
      using index_law(3) [OF laws onWorld_run [OF q]] by (simp add: registerIndex_def)
    have i: "indexed (ps_world s2) \<subseteq> indexed (ps_world t)"
        "\<forall>c \<in> snd ` set (currentClusters s2). (c, ix) \<in> indexed (ps_world t)"
      using indexClusters_indexed [OF laws onWorld_run [OF run]] by simp_all
    show "allIndexed indexed t" unfolding allIndexed_def
    proof (intro allI impI)
      fix n c jx assume c: "getCluster n t = Inr c" and jx: "jx \<in> set (pv_indexes t)"
      then have cs: "getCluster n s = Inr c" and "(n, c) \<in> set (currentClusters s2)"
        by (auto simp: getCluster_def f g registerIndex_def currentClusters_def split: option.splits
            dest!: map_of_SomeD intro!: image_eqI)
      then have new: "(c, ix) \<in> indexed (ps_world t)" using i(2) by force
      have "jx = ix \<or> jx \<in> set (pv_indexes s)" using jx by (auto simp: f g registerIndex_def)
      then show "(c, jx) \<in> indexed (ps_world t)"
        using new all cs w2 i(1) unfolding allIndexed_def by blast
    qed
  qed
qed

section \<open>A host cluster in memory\<close>

text \<open>
  One instance of the libraries: every text but the empty one parses, clusters are numbered,
  an index is accepted once, the cluster number 13 does not engage.
\<close>

record libMem =
  lm_next :: nat
  lm_indexed :: "(nat \<times> indexRegistration) list"

definition memLib :: "libMem clusterLib" where
  "memLib = \<lparr>cl_config = (\<lambda>text. Inr (Opaque text)),
     cl_new = (\<lambda>cfg cfgOpts w. (Inr (lm_next w), w\<lparr>lm_next := Suc (lm_next w)\<rparr>)),
     cl_index = (\<lambda>c ix w. (Inr (), w\<lparr>lm_indexed := (c, ix) # lm_indexed w\<rparr>)),
     cl_hostIndex = (\<lambda>ix w. (Inr (), w)),
     cl_engage = (\<lambda>x n c w. if c = 13 then (Inl (ErrMsg ''no such host''), w) else (Inr (), w))\<rparr>"

lemma memLib_laws: "indexLaws memLib (set \<circ> lm_indexed)"
  by (auto simp: indexLaws_def memLib_def split: if_splits)

definition exampleLabels :: "(string, string) gomap" where
  "exampleLabels = [(''infrakube.galleybytes.com/cluster'', ''true''),
     (''infrakube.galleybytes.com/cluster-name'', ''east'')]"

definition exampleSecret :: "string \<Rightarrow> Secret" where
  "exampleSecret name = \<lparr>sec_name = name, sec_namespace = ''infrakube-system'', sec_labels = exampleLabels,
     sec_finalizers = [], sec_data = [(''kubeconfig'', ''apiVersion: v1'')]\<rparr>"

definition exampleProvider :: "libMem provState" where
  "exampleProvider = NewKubeconfigProvider \<lparr>po_namespace = [], po_secretLabel = [], po_kubeconfigKey = [],
     po_clusterNameLabel = [], po_clusterOptions = []\<rparr> \<lparr>lm_next = 7, lm_indexed = []\<rparr>"

definition exampleIndex :: indexRegistration where
  "exampleIndex = \<lparr>ix_obj = ''Pod'', ix_field = ''metadata.generateName'', ix_extractValue = (\<lambda>ob. [])\<rparr>"

abbreviation exampleAdded :: "string \<Rightarrow> secretEvent" where
  "exampleAdded name \<equiv> SecretAdded (AnySecret (exampleSecret name))"

definition exampleOptions :: ProviderOptions where
  "exampleOptions = \<lparr>po_namespace = [], po_secretLabel = [], po_kubeconfigKey = [],
     po_clusterNameLabel = [], po_clusterOptions = []\<rparr>"

lemmas provider_example_defs = exampleProvider_def exampleSecret_def exampleLabels_def exampleOptions_def

lemma example_defaults:
  "defaultOptions exampleOptions = \<lparr>po_namespace = ''infrakube-system'',
     po_secretLabel = ''infrakube.galleybytes.com/cluster'', po_kubeconfigKey = ''kubeconfig'',
     po_clusterNameLabel = ''infrakube.galleybytes.com/cluster-name'', po_clusterOptions = []\<rparr>"
  by (simp add: defaultOptions_def exampleOptions_def DefaultClusterNameLabel_def)

lemma example_claims: "requestOf memLib (defaultOptions exampleOptions) (exampleAdded name) =
    Claim (''infrakube-system/'' @ name) ''east''"
  unfolding example_defaults
  by (simp add: requestOf_def exampleSecret_def exampleLabels_def matches_def kubeconfigOf_def memLib_def secretKey_def clusterName_def)

lemma example_run: "provider_run memLib exampleOptions [] exampleProvider"
  unfolding exampleProvider_def exampleOptions_def by (rule provider_run.Fresh)

lemma example_opts: "pv_opts exampleProvider = defaultOptions exampleOptions"
  using provider_run_ok [OF example_run] by simp

lemma example_named: "name \<noteq> [] \<Longrightarrow> eventNamed (exampleAdded name)"
  by (simp add: eventNamed_def exampleSecret_def)

lemma example_joins:
  "onEvent memLib (exampleAdded ''a'') exampleProvider = exampleProvider
     \<lparr>pv_clusters := [(''east'', \<lparr>ce_cluster = 7, ce_cancelFn = 0\<rparr>)],
      pv_secretCluster := [(''infrakube-system/a'', ''east'')],
      ps_world := \<lparr>lm_next = 8, lm_indexed = []\<rparr>, ps_contexts := 1, ps_started := [(7, 0)]\<rparr>"
proof -
  let ?sec = "exampleSecret ''a''"
  have "onEvent memLib (exampleAdded ''a'') exampleProvider =
      replaceCluster memLib ''infrakube-system/a'' ''east'' (the (kubeconfigOf memLib (pv_opts exampleProvider) ?sec)) exampleProvider"
    using example_claims [of "''a''"] by (simp add: handleSecret_request example_opts)
  also have "replaceCluster memLib ''infrakube-system/a'' ''east'' cfg exampleProvider = exampleProvider
     \<lparr>pv_clusters := [(''east'', \<lparr>ce_cluster = 7, ce_cancelFn = 0\<rparr>)],
      pv_secretCluster := [(''infrakube-system/a'', ''east'')],
      ps_world := \<lparr>lm_next = 8, lm_indexed = []\<rparr>, ps_contexts := 1, ps_started := [(7, 0)]\<rparr>" for cfg
    by (simp add: replaceCluster_def disengage_def disengageSecret_def exampleProvider_def NewKubeconfigProvider_def
        onWorld_def memLib_def indexCluster_def io_for_def engageCluster_def withCancel_def publish_def startCluster_def)
  finally show ?thesis .
qed

lemma provider_owns_its_clusters_witness:
  "\<exists>s. provider_run memLib exampleOptions [exampleAdded ''a''] s \<and> running s = engaged s \<and> getCluster ''east'' s = Inr 7"
proof -
  let ?s = "onEvent memLib (exampleAdded ''a'') exampleProvider"
  have r: "provider_run memLib exampleOptions [exampleAdded ''a''] ?s"
    by (rule provider_run.Event [OF example_run example_named]) simp
  have "getCluster ''east'' ?s = Inr 7" unfolding example_joins by (simp add: getCluster_def)
  then show ?thesis using provider_owns_its_clusters [OF r] r by blast
qed

lemma provider_refines_registry_witness:
  "registry_step (Claim ''infrakube-system/a'' ''east'') Map.empty
     (map_of (pv_secretCluster (onEvent memLib (exampleAdded ''a'') exampleProvider)))"
proof -
  obtain r t where t: "IndexField memLib exampleIndex exampleProvider = (r, t)" by (rule prod.exhaust)
  have "map_of (pv_secretCluster exampleProvider) = Map.empty"
    by (simp add: exampleProvider_def NewKubeconfigProvider_def)
  then show ?thesis
    using provider_refines_registry [OF example_run example_named t, of "''a''"] example_claims [of "''a''"] by simp
qed

lemma engaged_cluster_has_secret_witness:
  "\<exists>k obj sec. newestAbout k [exampleAdded ''a''] = Some (SecretAdded obj) \<and> asSecret obj = Some sec \<and>
     matches (defaultOptions exampleOptions) sec \<and> clusterName (defaultOptions exampleOptions) sec = ''east''"
proof -
  let ?s = "onEvent memLib (exampleAdded ''a'') exampleProvider"
  have r: "provider_run memLib exampleOptions [exampleAdded ''a''] ?s"
    by (rule provider_run.Event [OF example_run example_named]) simp
  have "getCluster ''east'' ?s = Inr 7" unfolding example_joins by (simp add: getCluster_def)
  from engaged_cluster_has_secret [OF r this] show ?thesis
    by (auto simp: newestAbout_def split: if_splits)
qed

lemma taken_name_is_lost_witness:
  "getCluster ''east'' (onEvent memLib (SecretDeleted (AnySecret (exampleSecret ''b'')))
     (onEvent memLib (exampleAdded ''b'') (onEvent memLib (exampleAdded ''a'') exampleProvider))) =
   Inl (ErrNotFound ''cluster not found'')"
proof -
  have k: "secretKey (exampleSecret name) = ''infrakube-system/'' @ name" for name
    by (simp add: secretKey_def exampleSecret_def)
  have "requestOf memLib (defaultOptions exampleOptions) (exampleAdded name) = Claim (secretKey (exampleSecret name)) ''east''" for name
    using example_claims [of name] k by simp
  moreover have "secretKey (exampleSecret ''a'') \<noteq> secretKey (exampleSecret ''b'')" by (simp add: k)
  ultimately show ?thesis
    using taken_name_is_lost [OF example_run example_named example_named, of "''a''" "''b''" "''east''"] by simp
qed


lemma engaged_clusters_indexed_witness:
  "allIndexed (set \<circ> lm_indexed) (snd (IndexField memLib exampleIndex (onEvent memLib (exampleAdded ''a'') exampleProvider)))"
proof -
  let ?s = "onEvent memLib (exampleAdded ''a'') exampleProvider"
  have all0: "allIndexed (set \<circ> lm_indexed) exampleProvider"
    by (simp add: allIndexed_def getCluster_def exampleProvider_def NewKubeconfigProvider_def)
  have "IndexField memLib exampleIndex ?s = (Inr (), snd (IndexField memLib exampleIndex ?s))"
    unfolding example_joins
    by (simp add: IndexField_def onWorld_def memLib_def registerIndex_def currentClusters_def)
  then show ?thesis
    using engaged_clusters_indexed [OF memLib_laws engaged_clusters_indexed [OF memLib_laws all0, THEN conjunct1]] by blast
qed

end
