(* ===== verification/Manager.thy ===== *)
theory Manager
  imports Provider
begin

text \<open>
  The manager of \<open>pkg/multicluster/manager.go\<close>, which runs the provider beside the
  controllers' manager. The two goroutines of \<open>Start\<close> are known by what they return; the
  \<open>select\<close> takes whichever result comes first, which is an argument of the model.
\<close>

section \<open>Errors\<close>

text \<open>An error with the errors it wraps (\<open>%w\<close>); \<open>context.Canceled\<close> is one of them.\<close>

datatype goError = Canceled | Failure string | Wrapped string goError

fun isCanceled :: "goError \<Rightarrow> bool" where
  "isCanceled Canceled = True"
| "isCanceled (Failure _) = False"
| "isCanceled (Wrapped _ e) = isCanceled e"

definition ignoreCanceled :: "goError option \<Rightarrow> goError option" where
  "ignoreCanceled err = (case err of None \<Rightarrow> None | Some e \<Rightarrow> if isCanceled e then None else Some e)"

section \<open>The manager\<close>

text \<open>The embedded manager with its provider, of which the model needs the presence.\<close>

record 'p manager =
  mg_provider :: "'p option"

definition IsMulticluster :: "'p manager \<Rightarrow> bool" where
  "IsMulticluster m \<longleftrightarrow> mg_provider m \<noteq> None"

text \<open>
  \<open>NewManager\<close> and \<open>WrapManager\<close> hand the provider to the constructor of
  \<open>multicluster-runtime\<close>, whose error they return.
\<close>

definition WrapManager :: "('p option \<Rightarrow> goError option) \<Rightarrow> 'p option \<Rightarrow> goError + 'p manager" where
  "WrapManager withMultiCluster provider =
    (case withMultiCluster provider of Some e \<Rightarrow> Inl e | None \<Rightarrow> Inr \<lparr>mg_provider = provider\<rparr>)"

datatype arrival = ProviderFirst | ManagerFirst

text \<open>
  \<open>Start\<close>: the error it returns, and whether it waited for the other goroutine. In both
  cases the context the two run under has been cancelled.
\<close>

definition Start :: "'p manager \<Rightarrow> arrival \<Rightarrow> goError option \<Rightarrow> goError option \<Rightarrow> goError option \<times> bool" where
  "Start m first providerErr managerErr =
    (if mg_provider m = None then (managerErr, False)
     else (case first of
       ProviderFirst \<Rightarrow>
         (case providerErr of
            Some e \<Rightarrow> if \<not> isCanceled e then (Some (Wrapped ''multicluster provider stopped'' e), False)
                       else (ignoreCanceled managerErr, True)
          | None \<Rightarrow> (ignoreCanceled managerErr, True))
     | ManagerFirst \<Rightarrow>
         (case managerErr of
            Some e \<Rightarrow> if \<not> isCanceled e then (Some e, False) else (ignoreCanceled providerErr, True)
          | None \<Rightarrow> (ignoreCanceled providerErr, True))))"

fun rootCause :: "goError \<Rightarrow> goError" where
  "rootCause (Wrapped _ e) = rootCause e"
| "rootCause e = e"

lemma isCanceled_root: "isCanceled e \<longleftrightarrow> rootCause e = Canceled"
  by (induction e) auto

text \<open>With a provider, \<open>Start\<close> returns an error exactly when one of the two failed for another
  reason than the cancellation, whichever came first; the cause of the error it returns is
  the cause of such a failure; and it returns without an error only after both have
  stopped.\<close>

theorem start_reports_failures:
  assumes "IsMulticluster m" and "Start m first providerErr managerErr = (r, waited)"
  shows "(r \<noteq> None \<longleftrightarrow> (\<exists>e. (providerErr = Some e \<or> managerErr = Some e) \<and> \<not> isCanceled e)) \<and>
    (\<forall>e. r = Some e \<longrightarrow> (\<exists>e'. (providerErr = Some e' \<or> managerErr = Some e') \<and> \<not> isCanceled e' \<and> rootCause e' = rootCause e)) \<and>
    (r = None \<longrightarrow> waited)"
  using assms
  by (auto simp: IsMulticluster_def Start_def ignoreCanceled_def isCanceled_root split: option.splits arrival.splits if_splits)

lemma start_reports_failures_witness:
  "fst (Start \<lparr>mg_provider = Some ()\<rparr> ManagerFirst (Some Canceled) (Some (Failure ''lost lease''))) =
     Some (Failure ''lost lease'')"
  using start_reports_failures [of "\<lparr>mg_provider = Some ()\<rparr>" ManagerFirst "Some Canceled" "Some (Failure ''lost lease'')"]
  by (auto simp: IsMulticluster_def Start_def)

end
