(* ===== verification/GoPath.thy ===== *)
theory GoPath
  imports GoStd
begin

text \<open>
  The package \<open>path/filepath\<close> of the Go standard library, as it is on Unix: \<open>Clean\<close>,
  \<open>Join\<close> and \<open>Dir\<close>. They work on the text of a path alone.
\<close>

definition slash :: char where
  "slash = CHR ''/''"

text \<open>One component of a path, on the stack of the components kept so far (the last on top).\<close>

definition cleanStep :: "bool \<Rightarrow> string \<Rightarrow> string list \<Rightarrow> string list" where
  "cleanStep rooted part stack =
    (if part = [] \<or> part = ''.'' then stack
     else if part = ''..'' then
       (case stack of
          [] \<Rightarrow> if rooted then [] else [part]
        | d # rest \<Rightarrow> if d = ''..'' then part # stack else rest)
     else part # stack)"

definition cleanParts :: "bool \<Rightarrow> string list \<Rightarrow> string list" where
  "cleanParts rooted parts = rev (fold (cleanStep rooted) parts [])"

definition isRooted :: "string \<Rightarrow> bool" where
  "isRooted p \<longleftrightarrow> p \<noteq> [] \<and> hd p = slash"

definition Clean :: "string \<Rightarrow> string" where
  "Clean p =
    (let parts = cleanParts (isRooted p) (splitChar slash p)
     in if isRooted p then slash # str_join parts [slash]
        else if parts = [] then ''.'' else str_join parts [slash])"

fun Join :: "string list \<Rightarrow> string" where
  "Join [] = []"
| "Join (e # es) = (if e = [] then Join es else Clean (str_join (e # es) [slash]))"

definition Dir :: "string \<Rightarrow> string" where
  "Dir p = Clean (rev (dropWhile (\<lambda>c. c \<noteq> slash) (rev p)))"

section \<open>Paths of plain components\<close>

definition plainPart :: "string \<Rightarrow> bool" where
  "plainPart s \<longleftrightarrow> s \<noteq> [] \<and> s \<noteq> ''.'' \<and> s \<noteq> ''..'' \<and> slash \<notin> set s"

text \<open>The text of an absolute path of the given components.\<close>

definition absPath :: "string list \<Rightarrow> string" where
  "absPath parts = slash # str_join parts [slash]"

lemma splitChar_append: "sep \<notin> set s \<Longrightarrow> splitChar sep (s @ sep # t) = s # splitChar sep t"
  by (induction s) auto

lemma splitChar_single: "sep \<notin> set s \<Longrightarrow> splitChar sep s = [s]"
  by (induction s) auto

lemma splitChar_sep: "splitChar sep (s @ sep # t) = splitChar sep s @ splitChar sep t"
proof (induction s)
  case (Cons c s)
  obtain x xs where "splitChar sep s = x # xs" using splitChar_ne by (metis list.exhaust)
  then show ?case using Cons by auto
qed simp

lemma splitChar_join:
  "xs \<noteq> [] \<Longrightarrow> \<forall>x \<in> set xs. slash \<notin> set x \<Longrightarrow> splitChar slash (str_join xs [slash]) = xs"
  by (induction xs rule: induct_list012) (auto simp: splitChar_single splitChar_append)

lemma fold_clean_plain: "\<forall>x \<in> set xs. plainPart x \<Longrightarrow> fold (cleanStep r) xs st = rev xs @ st"
  by (induction xs arbitrary: st) (auto simp: cleanStep_def plainPart_def)

lemma cleanParts_plain: "\<forall>x \<in> set xs. plainPart x \<Longrightarrow> cleanParts r xs = xs"
  by (simp add: cleanParts_def fold_clean_plain)

lemma str_join_append:
  "xs \<noteq> [] \<Longrightarrow> ys \<noteq> [] \<Longrightarrow> str_join (xs @ ys) sep = str_join xs sep @ sep @ str_join ys sep"
proof (induction xs sep rule: str_join.induct)
  case (2 x sep)
  then show ?case by (cases ys) auto
qed auto

lemma absPath_inj:
  assumes "\<forall>x \<in> set xs. plainPart x" and "\<forall>y \<in> set ys. plainPart y" and "absPath xs = absPath ys"
  shows "xs = ys"
proof -
  have join: "str_join xs [slash] = str_join ys [slash]" using assms(3) by (simp add: absPath_def)
  have ne: "str_join zs [slash] \<noteq> []" if "zs \<noteq> []" "\<forall>z \<in> set zs. plainPart z" for zs
    using that by (cases zs; cases "tl zs") (auto simp: plainPart_def)
  show ?thesis
  proof (cases "xs = [] \<or> ys = []")
    case True
    then show ?thesis using join ne [of xs] ne [of ys] assms(1,2) by (metis str_join.simps(1))
  next
    case False
    then show ?thesis using join splitChar_join [of xs] splitChar_join [of ys] assms(1,2)
      by (metis plainPart_def)
  qed
qed

text \<open>Joining an absolute path with more text is cleaning the components one after the other.\<close>

lemma Join_abs:
  assumes "xs \<noteq> []" and "\<forall>x \<in> set xs. plainPart x"
  shows "Join (absPath xs # ts) =
    absPath (cleanParts True (xs @ concat (map (splitChar slash) ts)))"
proof -
  have split_join: "splitChar slash (str_join (t # ts) [slash]) = concat (map (splitChar slash) (t # ts))" for t
  proof (induction ts arbitrary: t)
    case (Cons u us)
    then show ?case using splitChar_sep [of slash t "str_join (u # us) [slash]"] by simp
  qed simp
  have hd: "isRooted (str_join (absPath xs # ts) [slash])"
    by (cases ts) (simp_all add: isRooted_def absPath_def)
  have "splitChar slash (absPath xs) = [] # xs"
    using splitChar_join [of xs] assms by (simp add: absPath_def plainPart_def)
  then have parts: "splitChar slash (str_join (absPath xs # ts) [slash]) = [] # xs @ concat (map (splitChar slash) ts)"
    by (simp add: split_join)
  have "cleanParts True ([] # zs) = cleanParts True zs" for zs by (simp add: cleanParts_def cleanStep_def)
  moreover have "absPath xs \<noteq> []" by (simp add: absPath_def)
  ultimately show ?thesis using hd parts by (simp add: Clean_def absPath_def Let_def)
qed

text \<open>Components without \<open>..\<close> never leave the path they are joined to.\<close>

lemma fold_clean_noup:
  "''..'' \<notin> set ps \<Longrightarrow> fold (cleanStep r) ps st = rev (filter (\<lambda>p. p \<noteq> [] \<and> p \<noteq> ''.'') ps) @ st"
  by (induction ps arbitrary: st) (auto simp: cleanStep_def)

lemma cleanParts_below:
  assumes "\<forall>x \<in> set xs. plainPart x" and "''..'' \<notin> set ps"
  shows "cleanParts r (xs @ ps) = xs @ filter (\<lambda>p. p \<noteq> [] \<and> p \<noteq> ''.'') ps"
  using assms by (simp add: cleanParts_def fold_clean_plain fold_clean_noup)

lemma Clean_abs: "xs \<noteq> [] \<Longrightarrow> \<forall>x \<in> set xs. plainPart x \<Longrightarrow> Clean (absPath xs) = absPath xs"
  using Join_abs [of xs "[]"] cleanParts_plain [of xs True] by (simp add: absPath_def)

lemma Dir_abs:
  assumes "xs \<noteq> []" and "\<forall>x \<in> set xs. plainPart x" and "plainPart y"
  shows "Dir (absPath (xs @ [y])) = absPath xs"
proof -
  have "absPath (xs @ [y]) = absPath xs @ slash # y"
    using assms(1) by (simp add: absPath_def str_join_append)
  then have "rev (dropWhile (\<lambda>c. c \<noteq> slash) (rev (absPath (xs @ [y])))) = absPath xs @ [slash]"
    using assms(3) by (auto simp: plainPart_def dropWhile_append3)
  moreover have "Clean (absPath xs @ [slash]) = absPath xs"
    using Join_abs [of xs "[[]]"] assms(1,2) by (simp add: absPath_def cleanParts_below)
  ultimately show ?thesis by (simp add: Dir_def)
qed

end
