(* ===== verification/CacheServer.thy ===== *)
theory CacheServer
  imports GoPath
begin

text \<open>
  The server of \<open>pkg/controllers/cache_server.go\<close> for the binaries the task pods run. The
  operating system is the record \<open>osys\<close> of the calls the source makes on an arbitrary
  state \<open>'w\<close>; a request holds the parts of \<open>http.Request\<close> the handlers read, a response what
  they write.
\<close>

section \<open>Requests, responses and the operating system\<close>

record httpRequest =
  rq_method :: string
  rq_path :: string
  rq_query :: "(string, string) gomap"
  rq_body :: "string \<times> goerr option"   \<comment> \<open>what reading the body yields before it ends or fails\<close>

record httpResponse =
  rs_status :: nat
  rs_contentType :: string
  rs_body :: string

definition nl :: string where
  "nl = [CHR 0x0A]"

definition httpError :: "string \<Rightarrow> nat \<Rightarrow> httpResponse" where
  "httpError msg code = \<lparr>rs_status = code, rs_contentType = ''text/plain; charset=utf-8'', rs_body = msg @ nl\<rparr>"

record 'w osys =
  os_mkdirAll :: "string \<Rightarrow> ('w, unit) io"
  os_open :: "string \<Rightarrow> ('w, string) io"
  os_create :: "string \<Rightarrow> ('w, unit) io"
  os_write :: "string \<Rightarrow> string \<Rightarrow> ('w, unit) io"
  os_remove :: "string \<Rightarrow> ('w, unit) io"
  os_chmod :: "string \<Rightarrow> ('w, unit) io"
  os_readDir :: "string \<Rightarrow> ('w, (string \<times> bool) list) io"

record CacheServer =
  cs_CacheDir :: string
  cs_Addr :: string

definition cacheRoot :: "CacheServer \<Rightarrow> string \<Rightarrow> string" where
  "cacheRoot cs resource = (if resource = ''terraform'' then cs_CacheDir cs else Join [cs_CacheDir cs, resource])"

section \<open>Binaries\<close>

definition serveBinary :: "'w osys \<Rightarrow> string \<Rightarrow> 'w \<Rightarrow> httpResponse \<times> 'w" where
  "serveBinary os binPath w =
    (case os_open os binPath w of
       (Inl e, w') \<Rightarrow> (if IsNotFound e then httpError ''404 page not found'' 404 else httpError ''internal error'' 500, w')
     | (Inr body, w') \<Rightarrow> (\<lparr>rs_status = 200, rs_contentType = ''application/octet-stream'', rs_body = body\<rparr>, w'))"

text \<open>\<open>io.Copy\<close> of the body into the created file: an error of either side ends it.\<close>

definition copyBody :: "'w osys \<Rightarrow> string \<Rightarrow> string \<times> goerr option \<Rightarrow> ('w, unit) io" where
  "copyBody os path body =
    io_bind (os_write os path (fst body)) (\<lambda>_. case snd body of None \<Rightarrow> io_return () | Some e \<Rightarrow> io_throw e)"

definition storeBinary :: "'w osys \<Rightarrow> httpRequest \<Rightarrow> string \<Rightarrow> 'w \<Rightarrow> httpResponse \<times> 'w" where
  "storeBinary os rq binPath w =
    (case os_mkdirAll os (Dir binPath) w of
       (Inl e, w1) \<Rightarrow> (httpError ''internal error'' 500, w1)
     | (Inr _, w1) \<Rightarrow>
       (case os_create os binPath w1 of
          (Inl e, w2) \<Rightarrow> (httpError ''internal error'' 500, w2)
        | (Inr _, w2) \<Rightarrow>
          (case copyBody os binPath (rq_body rq) w2 of
             (Inl e, w3) \<Rightarrow> (httpError ''write error'' 500, snd (os_remove os binPath w3))
           | (Inr _, w3) \<Rightarrow>
               (\<lparr>rs_status = 201, rs_contentType = [], rs_body = []\<rparr>, snd (os_chmod os binPath w3)))))"

definition versionOf :: "string \<Rightarrow> httpRequest \<Rightarrow> string" where
  "versionOf resource rq = trimPrefix (rq_path rq) (''/api/v1/'' @ resource @ ''/'')"

definition archOf :: "httpRequest \<Rightarrow> string" where
  "archOf rq = (case map_of (rq_query rq) ''arch'' of None \<Rightarrow> ''amd64'' | Some a \<Rightarrow> if a = [] then ''amd64'' else a)"

definition binPathOf :: "CacheServer \<Rightarrow> string \<Rightarrow> httpRequest \<Rightarrow> string" where
  "binPathOf cs resource rq = Join [cacheRoot cs resource, archOf rq, versionOf resource rq]"

definition handleBinary :: "'w osys \<Rightarrow> CacheServer \<Rightarrow> string \<Rightarrow> httpRequest \<Rightarrow> 'w \<Rightarrow> httpResponse \<times> 'w" where
  "handleBinary os cs resource rq w =
    (let version = versionOf resource rq in
     if version = [] \<or> version = ''versions'' then (httpError ''missing version'' 400, w)
     else if rq_method rq = ''GET'' then serveBinary os (binPathOf cs resource rq) w
     else if rq_method rq = ''PUT'' then storeBinary os rq (binPathOf cs resource rq) w
     else (httpError ''method not allowed'' 405, w))"

section \<open>The list of versions\<close>

fun archVersions :: "'w osys \<Rightarrow> string \<Rightarrow> (string \<times> bool) list \<Rightarrow> 'w \<Rightarrow> string list \<times> 'w" where
  "archVersions os root [] w = ([], w)"
| "archVersions os root ((name, isDir) # ds) w =
     (if \<not> isDir then archVersions os root ds w
      else (case os_readDir os (Join [root, name]) w of
              (Inl e, w') \<Rightarrow> archVersions os root ds w'
            | (Inr entries, w') \<Rightarrow>
                (case archVersions os root ds w' of
                   (vs, w'') \<Rightarrow> (map (\<lambda>e. name @ ''/'' @ fst e) (filter (\<lambda>e. \<not> snd e) entries) @ vs, w''))))"

definition handleListVersions :: "'w osys \<Rightarrow> CacheServer \<Rightarrow> string \<Rightarrow> httpRequest \<Rightarrow> 'w \<Rightarrow> httpResponse \<times> 'w" where
  "handleListVersions os cs resource rq w =
    (if rq_method rq \<noteq> ''GET'' then (httpError ''method not allowed'' 405, w)
     else (case os_readDir os (cacheRoot cs resource) w of
        (Inl e, w') \<Rightarrow> (\<lparr>rs_status = 200, rs_contentType = ''text/plain'', rs_body = ''no cached versions'' @ nl\<rparr>, w')
      | (Inr archDirs, w') \<Rightarrow>
          (case archVersions os (cacheRoot cs resource) archDirs w' of
             (versions, w'') \<Rightarrow>
               (\<lparr>rs_status = 200, rs_contentType = ''text/plain'', rs_body = concat (map (\<lambda>v. v @ nl) (sort versions))\<rparr>, w''))))"

section \<open>The routes\<close>

text \<open>
  The patterns of \<open>Start\<close> as \<open>http.ServeMux\<close> applies them: a path that is not clean is
  redirected to its clean form, so is a subtree's path without its last slash; otherwise
  the longest pattern wins.
\<close>

definition cleanPath :: "string \<Rightarrow> string" where
  "cleanPath p =
    (if p = [] then [slash]
     else let r = (if hd p = slash then p else slash # p); c = Clean r
          in if last r = slash \<and> c \<noteq> [slash] then c @ [slash] else c)"

datatype route = Redirect string | Versions string | Binary string | NoRoute

definition routeOf :: "httpRequest \<Rightarrow> route" where
  "routeOf rq =
    (let p = rq_path rq in
     if rq_method rq \<noteq> ''CONNECT'' \<and> cleanPath p \<noteq> p then Redirect (cleanPath p)
     else if p = ''/api/v1/terraform/versions'' then Versions ''terraform''
     else if hasPrefix p ''/api/v1/terraform/'' then Binary ''terraform''
     else if p = ''/api/v1/tofu/versions'' then Versions ''tofu''
     else if hasPrefix p ''/api/v1/tofu/'' then Binary ''tofu''
     else if p = ''/api/v1/terraform'' \<or> p = ''/api/v1/tofu'' then Redirect (p @ ''/'')
     else NoRoute)"

definition serveHTTP :: "'w osys \<Rightarrow> CacheServer \<Rightarrow> httpRequest \<Rightarrow> 'w \<Rightarrow> httpResponse \<times> 'w" where
  "serveHTTP os cs rq w =
    (case routeOf rq of
       Redirect p \<Rightarrow> (\<lparr>rs_status = 301, rs_contentType = ''text/html; charset=utf-8'', rs_body = p\<rparr>, w)
     | Versions resource \<Rightarrow> handleListVersions os cs resource rq w
     | Binary resource \<Rightarrow> handleBinary os cs resource rq w
     | NoRoute \<Rightarrow> (httpError ''404 page not found'' 404, w))"

section \<open>What a file system promises\<close>

text \<open>
  The contract of the calls on regular files, by the clean text of their paths:
  \<open>contents w p\<close> is the file of that path in the state \<open>w\<close>.
\<close>

locale file_store =
  fixes os :: "'w osys" and contents :: "'w \<Rightarrow> string \<Rightarrow> string option"
  assumes mkdirAll_keeps: "os_mkdirAll os p w = (r, w') \<Longrightarrow> contents w' = contents w"
    and create_empties: "os_create os p w = (Inr (), w') \<Longrightarrow> contents w' = (contents w)(p \<mapsto> [])"
    and write_appends: "contents w p = Some old \<Longrightarrow> os_write os p b w = (Inr (), w') \<Longrightarrow>
      contents w' = (contents w)(p \<mapsto> old @ b)"
    and chmod_keeps: "os_chmod os p w = (r, w') \<Longrightarrow> contents w' = contents w"
    and open_reads: "contents w p = Some b \<Longrightarrow> \<exists>w'. os_open os p w = (Inr b, w')"
begin

lemma store_stores:
  assumes "storeBinary os rq p w = (resp, w')" and "rs_status resp = 201"
  shows "contents w' = (contents w)(p \<mapsto> fst (rq_body rq)) \<and> snd (rq_body rq) = None"
proof -
  obtain r1 w1 where 1: "os_mkdirAll os (Dir p) w = (r1, w1)" by (rule prod.exhaust)
  then obtain u1 where r1: "r1 = Inr u1"
    using assms by (cases r1) (auto simp: storeBinary_def httpError_def)
  obtain r2 w2 where 2: "os_create os p w1 = (r2, w2)" by (rule prod.exhaust)
  then obtain u2 where r2: "r2 = Inr u2"
    using assms 1 r1 by (cases r2) (auto simp: storeBinary_def httpError_def)
  obtain r3 w3 where 3: "copyBody os p (rq_body rq) w2 = (r3, w3)" by (rule prod.exhaust)
  then obtain u3 where r3: "r3 = Inr u3"
    using assms 1 r1 2 r2 by (cases r3) (auto simp: storeBinary_def httpError_def)
  have w': "w' = snd (os_chmod os p w3)"
    using assms(1) 1 r1 2 r2 3 r3 by (simp add: storeBinary_def)
  have c2: "contents w2 = (contents w)(p \<mapsto> [])"
    using create_empties [of p w1 w2] 2 r2 mkdirAll_keeps [OF 1] by simp
  have "os_write os p (fst (rq_body rq)) w2 = (Inr (), w3) \<and> snd (rq_body rq) = None"
    using 3 r3 by (auto simp: copyBody_def io_bind_def split: prod.splits sum.splits option.splits)
  moreover from this have "contents w3 = (contents w)(p \<mapsto> fst (rq_body rq))"
    using write_appends [of w2 p "[]" "fst (rq_body rq)" w3] by (simp add: c2)
  moreover have "contents w' = contents w3"
    unfolding w' using chmod_keeps [of p w3] by (metis prod.collapse)
  ultimately show ?thesis by simp
qed

lemma serve_serves:
  assumes "contents w p = Some b"
  shows "\<exists>w'. serveBinary os p w =
    (\<lparr>rs_status = 200, rs_contentType = ''application/octet-stream'', rs_body = b\<rparr>, w')"
  using open_reads [OF assms] by (auto simp: serveBinary_def)

end

section \<open>A stored binary is served\<close>

text \<open>C35: A binary that was stored is served: when a \<open>PUT\<close> is answered with 201, a \<open>GET\<close> for the same
  resource, architecture and version answers the bytes of the body, and no other file has
  changed.\<close>

theorem stored_binary_is_served:
  assumes store: "file_store os contents"
    and "rq_method put = ''PUT''" and "handleBinary os cs resource put w = (resp, w')" and "rs_status resp = 201"
    and "rq_method get = ''GET''" and "rq_path get = rq_path put" and "archOf get = archOf put"
  shows "(\<exists>w''. handleBinary os cs resource get w' =
      (\<lparr>rs_status = 200, rs_contentType = ''application/octet-stream'', rs_body = fst (rq_body put)\<rparr>, w'')) \<and>
    (\<forall>p. p \<noteq> binPathOf cs resource put \<longrightarrow> contents w' p = contents w p)"
proof -
  have v: "versionOf resource put \<notin> {[], ''versions''}"
    using assms(3,4) by (auto simp: handleBinary_def httpError_def split: if_splits)
  then have "storeBinary os put (binPathOf cs resource put) w = (resp, w')"
    using assms(2,3) by (simp add: handleBinary_def Let_def)
  from file_store.store_stores [OF store this assms(4)]
  have c: "contents w' = (contents w)(binPathOf cs resource put \<mapsto> fst (rq_body put))" by simp
  have same: "versionOf resource get = versionOf resource put" "binPathOf cs resource get = binPathOf cs resource put"
    using assms(6,7) by (simp_all add: versionOf_def binPathOf_def)
  have "handleBinary os cs resource get w' = serveBinary os (binPathOf cs resource put) w'"
    using v assms(5) same by (simp add: handleBinary_def Let_def)
  then show ?thesis
    using file_store.serve_serves [OF store, of w' "binPathOf cs resource put" "fst (rq_body put)"] c by simp
qed

section \<open>Where a request can reach\<close>

definition rootParts :: "string list \<Rightarrow> string \<Rightarrow> string list" where
  "rootParts dirs resource = (if resource = ''terraform'' then dirs else dirs @ [resource])"

lemma cacheRoot_abs:
  assumes "cs_CacheDir cs = absPath dirs" and "dirs \<noteq> []" and "\<forall>d \<in> set dirs. plainPart d" and "plainPart resource"
  shows "cacheRoot cs resource = absPath (rootParts dirs resource)"
proof -
  have "Join [absPath dirs, resource] = absPath (dirs @ [resource])"
    using Join_abs [of dirs "[resource]"] assms(2-4) splitChar_single [of slash resource]
      cleanParts_plain [of "dirs @ [resource]" True] by (simp add: plainPart_def)
  then show ?thesis using assms(1) by (simp add: cacheRoot_def rootParts_def)
qed

lemma binPath_parts:
  assumes "cs_CacheDir cs = absPath dirs" and "dirs \<noteq> []" and "\<forall>d \<in> set dirs. plainPart d" and "plainPart resource"
  shows "binPathOf cs resource rq = absPath (cleanParts True (rootParts dirs resource @
    splitChar slash (archOf rq) @ splitChar slash (versionOf resource rq)))"
proof -
  have "rootParts dirs resource \<noteq> []" "\<forall>d \<in> set (rootParts dirs resource). plainPart d"
    using assms(2-4) by (auto simp: rootParts_def)
  from Join_abs [OF this, of "[archOf rq, versionOf resource rq]"] show ?thesis
    by (simp add: binPathOf_def cacheRoot_abs [OF assms])
qed

text \<open>A clean path has no \<open>..\<close> among its components.\<close>

lemma cleanParts_noup: "''..'' \<notin> set (cleanParts True ps)"
proof -
  have "''..'' \<notin> set (cleanStep True p st)" if "''..'' \<notin> set st" for p st
    using that by (cases st) (auto simp: cleanStep_def)
  then have "''..'' \<notin> set st \<Longrightarrow> ''..'' \<notin> set (fold (cleanStep True) ps st)" for st
    by (induction ps arbitrary: st) simp_all
  then show ?thesis by (simp add: cleanParts_def)
qed

lemma fold_clean_subset: "set (fold (cleanStep r) ps st) \<subseteq> set st \<union> set ps"
proof (induction ps arbitrary: st)
  case (Cons p ps)
  have "set (cleanStep r p st) \<subseteq> insert p (set st)"
    by (cases st) (auto simp: cleanStep_def)
  then show ?case using Cons [of "cleanStep r p st"] by auto
qed simp

lemma cleanParts_noslash:
  "\<forall>p \<in> set ps. slash \<notin> set p \<Longrightarrow> \<forall>p \<in> set (cleanParts r ps). slash \<notin> set p"
  using fold_clean_subset [of r ps "[]"] by (auto simp: cleanParts_def)

lemma Clean_components:
  assumes "isRooted p"
  shows "''..'' \<notin> set (splitChar slash (Clean p))"
proof -
  let ?ps = "cleanParts True (splitChar slash p)"
  have c: "Clean p = absPath ?ps" using assms by (simp add: Clean_def absPath_def Let_def)
  have ns: "\<forall>q \<in> set ?ps. slash \<notin> set q"
    by (rule cleanParts_noslash) (auto dest: splitChar_no_sep)
  show ?thesis
  proof (cases "?ps = []")
    case True
    then show ?thesis by (simp add: c absPath_def)
  next
    case False
    then show ?thesis using splitChar_join [OF False ns] cleanParts_noup [of "splitChar slash p"]
      by (simp add: c absPath_def)
  qed
qed

lemma routed_version_noup:
  assumes "routeOf rq = Binary resource" and "rq_method rq \<noteq> ''CONNECT''"
  shows "resource \<in> {''terraform'', ''tofu''} \<and> ''..'' \<notin> set (splitChar slash (versionOf resource rq))"
proof -
  let ?p = "rq_path rq"
  have clean: "cleanPath ?p = ?p" and res: "resource \<in> {''terraform'', ''tofu''}"
    and pre: "hasPrefix ?p (''/api/v1/'' @ resource @ ''/'')"
    using assms by (auto simp: routeOf_def Let_def split: if_splits)
  let ?v = "versionOf resource rq"
  have p: "?p = (''/api/v1/'' @ resource) @ slash # ?v"
    using pre by (simp add: versionOf_def trimPrefix_def hasPrefix_def slash_def)
      (metis append.assoc append_Cons append_Nil append_take_drop_id)
  have rooted: "isRooted ?p" using p by (simp add: isRooted_def slash_def)
  have "''..'' \<notin> set (splitChar slash ?p)"
  proof (cases "last ?p = slash \<and> Clean ?p \<noteq> [slash]")
    case True
    then have "?p = Clean ?p @ slash # []"
      using clean rooted by (simp add: cleanPath_def isRooted_def Let_def)
    then show ?thesis using Clean_components [OF rooted] splitChar_sep [of slash "Clean ?p" "[]"]
      by (metis Un_iff empty_iff empty_set list.discI list.set_intros(1) set_ConsD set_append splitChar.simps(1))
  next
    case False
    then have "?p = Clean ?p" using clean rooted by (auto simp: cleanPath_def isRooted_def Let_def split: if_splits)
    then show ?thesis using Clean_components [OF rooted] by simp
  qed
  then show ?thesis using res splitChar_sep [of slash "''/api/v1/'' @ resource" ?v] p by simp
qed


lemma cleanParts_ups:
  "\<forall>d \<in> set dirs. plainPart d \<Longrightarrow> fold (cleanStep True) (replicate (length dirs) ''..'') (rev dirs) = []"
proof (induction dirs rule: rev_induct)
  case (snoc d ds)
  then have "cleanStep True ''..'' (d # rev ds) = rev ds" by (auto simp: cleanStep_def plainPart_def)
  then show ?case using snoc by simp
qed simp

text \<open>C37: The architecture does: for every file of the machine there is an architecture with which a
  request for a version of that file's name reads, or replaces, that file.\<close>

theorem arch_reaches_every_file:
  assumes "cs_CacheDir cs = absPath dirs" and "dirs \<noteq> []" and "\<forall>d \<in> set dirs. plainPart d"
    and "\<forall>t \<in> set target. plainPart t" and "plainPart file" and "file \<noteq> ''versions''"
    and "rq_path rq = ''/api/v1/terraform/'' @ file"
    and "archOf rq = str_join (replicate (length dirs) ''..'' @ target) [slash]"
  shows "(rq_method rq = ''GET'' \<longrightarrow> handleBinary os cs ''terraform'' rq w = serveBinary os (absPath (target @ [file])) w) \<and>
    (rq_method rq = ''PUT'' \<longrightarrow> handleBinary os cs ''terraform'' rq w = storeBinary os rq (absPath (target @ [file])) w)"
proof -
  have v: "versionOf ''terraform'' rq = file" using assms(7) by (simp add: versionOf_def trimPrefix_def hasPrefix_def)
  have res: "plainPart ''terraform''" by (simp add: plainPart_def slash_def)
  have ne: "replicate (length dirs) ''..'' @ target \<noteq> []" using assms(2) by simp
  have up: "slash \<notin> set ''..''" by (simp add: slash_def)
  have "\<forall>x \<in> set (replicate (length dirs) ''..'' @ target). slash \<notin> set x"
  proof
    fix x assume "x \<in> set (replicate (length dirs) ''..'' @ target)"
    then have "x = ''..'' \<or> x \<in> set target" by auto
    then show "slash \<notin> set x" using up assms(4) unfolding plainPart_def by blast
  qed
  then have a: "splitChar slash (archOf rq) = replicate (length dirs) ''..'' @ target"
    unfolding assms(8) by (rule splitChar_join [OF ne])
  have f: "splitChar slash file = [file]" using assms(5) by (simp add: splitChar_single plainPart_def)
  have "binPathOf cs ''terraform'' rq = absPath (cleanParts True (dirs @ replicate (length dirs) ''..'' @ target @ [file]))"
    using binPath_parts [OF assms(1-3) res, of rq] by (simp add: v a f rootParts_def)
  also have "cleanParts True (dirs @ replicate (length dirs) ''..'' @ target @ [file]) = target @ [file]"
    using fold_clean_plain [of "target @ [file]" True "[]"] fold_clean_plain [OF assms(3), of True "[]"]
      cleanParts_ups [OF assms(3)] assms(4,5)
    by (simp add: cleanParts_def)
  finally have "binPathOf cs ''terraform'' rq = absPath (target @ [file])" .
  moreover have "file \<noteq> []" using assms(5) by (simp add: plainPart_def)
  ultimately show ?thesis using assms(6) v by (simp add: handleBinary_def Let_def)
qed

section \<open>What the list of versions holds\<close>

definition regularIn :: "(string \<Rightarrow> goerr + (string \<times> bool) list) \<Rightarrow> string \<Rightarrow> string \<times> bool \<Rightarrow> string set" where
  "regularIn ls root d = (if snd d then (case ls (Join [root, fst d]) of Inl _ \<Rightarrow> {}
     | Inr es \<Rightarrow> {fst d @ ''/'' @ v | v. (v, False) \<in> set es}) else {})"

lemma archVersions_set:
  assumes "\<And>p. os_readDir os p w = (ls p, w)"
  shows "snd (archVersions os root ds w) = w \<and>
    set (fst (archVersions os root ds w)) = (\<Union>d \<in> set ds. regularIn ls root d)"
proof (induction ds)
  case (Cons d ds)
  obtain a isDir where d: "d = (a, isDir)" by (rule prod.exhaust)
  obtain vs where vs: "archVersions os root ds w = (vs, w)" "set vs = (\<Union>d \<in> set ds. regularIn ls root d)"
    using Cons by (metis prod.collapse)
  show ?case
  proof (cases "isDir \<and> (\<exists>es. ls (Join [root, a]) = Inr es)")
    case True
    then obtain es where es: "ls (Join [root, a]) = Inr es" by blast
    have "archVersions os root (d # ds) w =
        (map (\<lambda>e. a @ ''/'' @ fst e) (filter (\<lambda>e. \<not> snd e) es) @ vs, w)"
      using True es vs(1) assms by (simp add: d)
    moreover have "set (map (\<lambda>e. a @ ''/'' @ fst e) (filter (\<lambda>e. \<not> snd e) es)) = {a @ ''/'' @ v | v. (v, False) \<in> set es}"
      by force
    moreover have "regularIn ls root d = {a @ ''/'' @ v | v. (v, False) \<in> set es}"
      using True es by (simp add: regularIn_def d)
    ultimately show ?thesis using vs(2) by simp
  next
    case False
    then have "archVersions os root (d # ds) w = (vs, w)"
      using vs(1) assms by (cases "ls (Join [root, a])") (auto simp: d)
    moreover have "regularIn ls root d = {}"
      using False by (cases "ls (Join [root, a])") (auto simp: regularIn_def d)
    ultimately show ?thesis using vs(2) by simp
  qed
qed simp

text \<open>The list of versions is the sorted list of the regular files in the directories below the
  root of the resource, each as \<open>architecture/version\<close> on a line of its own; directories
  that cannot be read are left out.\<close>

theorem versions_listed:
  assumes reads: "\<And>p. os_readDir os p w = (ls p, w)" and "ls (cacheRoot cs resource) = Inr archDirs"
    and "rq_method rq = ''GET''" and "handleListVersions os cs resource rq w = (resp, w')"
  shows "\<exists>vs. rs_body resp = concat (map (\<lambda>v. v @ nl) vs) \<and> sorted vs \<and> w' = w \<and>
    set vs = (\<Union>d \<in> set archDirs. regularIn ls (cacheRoot cs resource) d)"
proof -
  obtain vs w'' where vs: "archVersions os (cacheRoot cs resource) archDirs w = (vs, w'')" by (rule prod.exhaust)
  then have "resp = \<lparr>rs_status = 200, rs_contentType = ''text/plain'', rs_body = concat (map (\<lambda>v. v @ nl) (sort vs))\<rparr>" "w' = w''"
    using assms by (simp_all add: handleListVersions_def)
  moreover have "w'' = w"
    "set (sort vs) = (\<Union>d \<in> set archDirs. regularIn ls (cacheRoot cs resource) d)"
    using archVersions_set [of os w ls "cacheRoot cs resource" archDirs] reads vs by simp_all
  ultimately show ?thesis by (intro exI [of _ "sort vs"]) simp
qed

section \<open>A file system in memory\<close>

record fsMem =
  fm_files :: "(string, string) gomap"
  fm_dirs :: "(string, (string \<times> bool) list) gomap"

definition memFs :: "fsMem osys" where
  "memFs = \<lparr>os_mkdirAll = (\<lambda>p w. (Inr (), w)),
     os_open = (\<lambda>p w. case map_of (fm_files w) p of None \<Rightarrow> (Inl (ErrNotFound p), w) | Some b \<Rightarrow> (Inr b, w)),
     os_create = (\<lambda>p w. (Inr (), w\<lparr>fm_files := AList.update p [] (fm_files w)\<rparr>)),
     os_write = (\<lambda>p b w. case map_of (fm_files w) p of None \<Rightarrow> (Inl (ErrNotFound p), w)
        | Some old \<Rightarrow> (Inr (), w\<lparr>fm_files := AList.update p (old @ b) (fm_files w)\<rparr>)),
     os_remove = (\<lambda>p w. (Inr (), w\<lparr>fm_files := AList.delete p (fm_files w)\<rparr>)),
     os_chmod = (\<lambda>p w. (Inr (), w)),
     os_readDir = (\<lambda>p w. (case map_of (fm_dirs w) p of None \<Rightarrow> Inl (ErrNotFound p) | Some es \<Rightarrow> Inr es, w))\<rparr>"

interpretation mem_fs: file_store memFs "map_of \<circ> fm_files"
proof
qed (auto simp: memFs_def fun_eq_iff split: option.splits)

definition exampleServer :: CacheServer where
  "exampleServer = \<lparr>cs_CacheDir = ''/var/cache/infrakube/terraform'', cs_Addr = '':8082''\<rparr>"

abbreviation exampleDirs :: "string list" where
  "exampleDirs \<equiv> [''var'', ''cache'', ''infrakube'', ''terraform'']"

lemma exampleServer_dirs: "cs_CacheDir exampleServer = absPath exampleDirs" "\<forall>d \<in> set exampleDirs. plainPart d"
  by (simp_all add: exampleServer_def absPath_def plainPart_def slash_def)

definition exampleRequest :: "string \<Rightarrow> string \<Rightarrow> string \<Rightarrow> httpRequest" where
  "exampleRequest method version arch = \<lparr>rq_method = method, rq_path = ''/api/v1/terraform/'' @ version,
     rq_query = [(''arch'', arch)], rq_body = (''binary'', None)\<rparr>"

lemma stored_binary_is_served_witness:
  "\<exists>w' w''. handleBinary memFs exampleServer ''terraform'' (exampleRequest ''PUT'' ''1.5.7'' ''arm64'') \<lparr>fm_files = [], fm_dirs = []\<rparr> =
       (\<lparr>rs_status = 201, rs_contentType = [], rs_body = []\<rparr>, w') \<and>
     handleBinary memFs exampleServer ''terraform'' (exampleRequest ''GET'' ''1.5.7'' ''arm64'') w' =
       (\<lparr>rs_status = 200, rs_contentType = ''application/octet-stream'', rs_body = ''binary''\<rparr>, w'')"
proof -
  let ?put = "exampleRequest ''PUT'' ''1.5.7'' ''arm64''" and ?get = "exampleRequest ''GET'' ''1.5.7'' ''arm64''"
  let ?w = "\<lparr>fm_files = [], fm_dirs = []\<rparr> :: fsMem"
  have v: "versionOf ''terraform'' ?put = ''1.5.7''"
    by (simp add: versionOf_def trimPrefix_def hasPrefix_def exampleRequest_def)
  obtain resp w' where p: "handleBinary memFs exampleServer ''terraform'' ?put ?w = (resp, w')" by (rule prod.exhaust)
  have r: "resp = \<lparr>rs_status = 201, rs_contentType = [], rs_body = []\<rparr>"
    using p v by (simp add: handleBinary_def Let_def storeBinary_def memFs_def copyBody_def io_bind_def exampleRequest_def split: prod.splits)
  have "rs_status resp = 201" "rq_method ?put = ''PUT''" "rq_method ?get = ''GET''" "rq_path ?get = rq_path ?put" "archOf ?get = archOf ?put"
    by (simp_all add: r exampleRequest_def archOf_def)
  from stored_binary_is_served [OF mem_fs.file_store_axioms this(2) p this(1) this(3-5)] show ?thesis
    using p r by (auto simp: exampleRequest_def)
qed


lemma arch_reaches_every_file_witness:
  "handleBinary memFs exampleServer ''terraform'' (exampleRequest ''GET'' ''passwd'' ''../../../../etc'') \<lparr>fm_files = [], fm_dirs = []\<rparr> =
     serveBinary memFs ''/etc/passwd'' \<lparr>fm_files = [], fm_dirs = []\<rparr>"
proof -
  let ?rq = "exampleRequest ''GET'' ''passwd'' ''../../../../etc''"
  have a: "archOf ?rq = str_join (replicate (length exampleDirs) ''..'' @ [''etc'']) [slash]"
    by (simp add: archOf_def exampleRequest_def slash_def)
  have "\<forall>t \<in> set [''etc'']. plainPart t" "plainPart ''passwd''" by (simp_all add: plainPart_def slash_def)
  moreover have "rq_path ?rq = ''/api/v1/terraform/'' @ ''passwd''" "rq_method ?rq = ''GET''" by (simp_all add: exampleRequest_def)
  moreover have "absPath ([''etc''] @ [''passwd'']) = ''/etc/passwd''" by (simp add: absPath_def slash_def)
  ultimately show ?thesis
    using arch_reaches_every_file [OF exampleServer_dirs(1) _ exampleServer_dirs(2) _ _ _ _ a, of "''passwd''" memFs "\<lparr>fm_files = [], fm_dirs = []\<rparr>"] by simp
qed

lemma versions_listed_witness:
  "let w = \<lparr>fm_files = [], fm_dirs = [(''/var/cache/infrakube/terraform'', [(''arm64'', True), (''amd64'', True), (''x'', False)]),
         (''/var/cache/infrakube/terraform/amd64'', [(''1.5.7'', False), (''old'', True)])]\<rparr> in
   \<exists>vs. rs_body (fst (handleListVersions memFs exampleServer ''terraform'' (exampleRequest ''GET'' ''versions'' []) w)) =
       concat (map (\<lambda>v. v @ nl) vs) \<and> ''amd64/1.5.7'' \<in> set vs"
proof -
  let ?dirs = "[(''/var/cache/infrakube/terraform'', [(''arm64'', True), (''amd64'', True), (''x'', False)]),
         (''/var/cache/infrakube/terraform/amd64'', [(''1.5.7'', False), (''old'', True)])]"
  let ?w = "\<lparr>fm_files = [], fm_dirs = ?dirs\<rparr>" and ?rq = "exampleRequest ''GET'' ''versions'' []"
  let ?ls = "\<lambda>p. case map_of ?dirs p of None \<Rightarrow> Inl (ErrNotFound p) | Some es \<Rightarrow> Inr es"
  have ls: "os_readDir memFs p ?w = (?ls p, ?w)" for p by (simp add: memFs_def)
  have root: "cacheRoot exampleServer ''terraform'' = ''/var/cache/infrakube/terraform''"
    by (simp add: cacheRoot_def exampleServer_def)
  have dirs: "?ls (cacheRoot exampleServer ''terraform'') = Inr [(''arm64'', True), (''amd64'', True), (''x'', False)]"
    by (simp add: root)
  have arch: "?ls (Join [cacheRoot exampleServer ''terraform'', ''amd64'']) = Inr [(''1.5.7'', False), (''old'', True)]"
    by (simp add: root Clean_def isRooted_def cleanParts_def cleanStep_def slash_def)
  obtain resp w' where h: "handleListVersions memFs exampleServer ''terraform'' ?rq ?w = (resp, w')" by (rule prod.exhaust)
  have "rq_method ?rq = ''GET''" by (simp add: exampleRequest_def)
  from versions_listed [OF ls dirs this h] obtain vs where vs:
    "rs_body resp = concat (map (\<lambda>v. v @ nl) vs)" "set vs = (\<Union>d \<in> set [(''arm64'', True), (''amd64'', True), (''x'', False)].
      regularIn ?ls (cacheRoot exampleServer ''terraform'') d)" by blast
  have "''1.5.7'' \<in> {v. (v, False) \<in> set [(''1.5.7'', False), (''old'', True)]}" by simp
  then have "''amd64/1.5.7'' \<in> regularIn ?ls (cacheRoot exampleServer ''terraform'') (''amd64'', True)"
    unfolding regularIn_def fst_conv snd_conv arch by simp
  then have "''amd64/1.5.7'' \<in> set vs" unfolding vs(2) by (rule UN_I [rotated]) simp
  then show ?thesis using h vs(1) by auto
qed

end
