(* ===== verification/Startup.thy ===== *)
theory Startup
  imports Provider CacheServer TofuReconcile TfSafety
begin

text \<open>
  What \<open>StartInfrakube\<close> (\<open>cmd/manager/main.go\<close>) hands to the parts it starts: the flags with
  their defaults, the environment it passes on to the tasks, the two reconcilers, the
  options of the provider of clusters, the cache server and the index on pods. The calls
  that start them, and those of the manager's library, are not modelled.
\<close>

section \<open>Flags\<close>

record flags =
  fl_metricsAddr :: string
  fl_probeAddr :: string
  fl_disableReconciler :: bool
  fl_enableLeaderElection :: bool
  fl_maxConcurrentReconciles :: int
  fl_inheritNodeSelector :: bool
  fl_inheritAffinty :: bool
  fl_inheritTolerations :: bool
  fl_requireApprovalImage :: string
  fl_cacheDir :: string
  fl_cacheURL :: string
  fl_autoDownload :: bool
  fl_tfDownloadBaseURL :: string
  fl_tofuDownloadBaseURL :: string
  fl_enableMulticluster :: bool
  fl_clusterSecretsNamespace :: string
  fl_clusterSecretsLabel :: string
  fl_clusterSecretsKubeconfigKey :: string
  fl_clusterNameLabel :: string
  fl_taskImage :: string

section \<open>The environment\<close>

text \<open>
  The environment is the list of its entries, \<open>NAME=value\<close>. \<open>os.Getenv\<close> of the standard
  library answers the value of the first entry of a name, and nothing for an empty name.
\<close>

abbreviation equalsChar :: char where
  "equalsChar \<equiv> CHR ''=''"

definition envKey :: "string \<Rightarrow> string" where
  "envKey e = hd (splitChar equalsChar e)"

fun osGetenv :: "string list \<Rightarrow> string \<Rightarrow> string" where
  "osGetenv [] key = []"
| "osGetenv (e # es) key =
     (if key \<noteq> [] \<and> hasPrefix e (key @ [equalsChar]) then drop (length key + 1) e else osGetenv es key)"

text \<open>The loop over \<open>os.Environ\<close>, for one of its two prefixes.\<close>

definition globalEnvFrom :: "string \<Rightarrow> string list \<Rightarrow> (string, string) gomap" where
  "globalEnvFrom prefix environ =
    foldl (\<lambda>data env. let key = envKey env in
        if hasPrefix key prefix then AList.update (trimPrefix key prefix) (osGetenv environ key) data else data)
      [] environ"

definition defaultFlags :: "string list \<Rightarrow> flags" where
  "defaultFlags environ = \<lparr>fl_metricsAddr = '':8080'', fl_probeAddr = '':8081'', fl_disableReconciler = False,
     fl_enableLeaderElection = False, fl_maxConcurrentReconciles = 1, fl_inheritNodeSelector = False,
     fl_inheritAffinty = False, fl_inheritTolerations = False,
     fl_requireApprovalImage = ''ghcr.io/galleybytes/require-approval:0.2.0'',
     fl_cacheDir = ''/var/cache/infrakube/terraform'',
     fl_cacheURL = ''http://infrakube-controller.infrakube-system.svc:8082'', fl_autoDownload = True,
     fl_tfDownloadBaseURL = ''https://releases.hashicorp.com/terraform'',
     fl_tofuDownloadBaseURL = ''https://github.com/opentofu/opentofu/releases/download'',
     fl_enableMulticluster = False, fl_clusterSecretsNamespace = ''infrakube-system'',
     fl_clusterSecretsLabel = ''infrakube.galleybytes.com/cluster'', fl_clusterSecretsKubeconfigKey = ''kubeconfig'',
     fl_clusterNameLabel = DefaultClusterNameLabel,
     fl_taskImage = (let taskImageDefault = osGetenv environ ''INFRAKUBE_TASK_IMAGE''
        in if taskImageDefault = [] then TaskImageRepoDefault @ '':'' @ TaskImageTagDefault else taskImageDefault)\<rparr>"

section \<open>The parts\<close>

text \<open>The scripts \<open>go:embed\<close> puts into the binary, which are not Go code.\<close>

record embedded =
  em_tf :: string
  em_tofu :: string
  em_setup :: string
  em_noop :: string

definition tfReconciler :: "embedded \<Rightarrow> string list \<Rightarrow> flags \<Rightarrow> reconciler" where
  "tfReconciler em environ fl =
    \<lparr>rc_globalEnvFromConfigmapData = globalEnvFrom ''INFRAKUBE_VAR_'' environ,
     rc_globalEnvFromSecretData = globalEnvFrom ''INFRAKUBE_SECRET_'' environ,
     rc_globalEnvSuffix = ''global-envs'',
     rc_inheritNodeSelector = fl_inheritNodeSelector fl, rc_nodeSelectorCacheKey = ''inherited_nodeselector'',
     rc_inheritAffinity = fl_inheritAffinty fl, rc_affinityCacheKey = ''inherited_affinity'',
     rc_inheritTolerations = fl_inheritTolerations fl, rc_tolerationsCacheKey = ''inherited_tolerations'',
     rc_requireApprovalImage = fl_requireApprovalImage fl, rc_cacheURL = fl_cacheURL fl,
     rc_autoDownload = fl_autoDownload fl, rc_downloadBaseURL = fl_tfDownloadBaseURL fl,
     rc_taskImage = fl_taskImage fl,
     rc_taskScript = em_tf em, rc_setupScript = em_setup em, rc_noopScript = em_noop em\<rparr>"

definition tofuReconciler :: "embedded \<Rightarrow> string list \<Rightarrow> flags \<Rightarrow> reconciler" where
  "tofuReconciler em environ fl =
    \<lparr>rc_globalEnvFromConfigmapData = globalEnvFrom ''INFRAKUBE_VAR_'' environ,
     rc_globalEnvFromSecretData = globalEnvFrom ''INFRAKUBE_SECRET_'' environ,
     rc_globalEnvSuffix = ''global-envs'',
     rc_inheritNodeSelector = fl_inheritNodeSelector fl, rc_nodeSelectorCacheKey = ''inherited_nodeselector'',
     rc_inheritAffinity = fl_inheritAffinty fl, rc_affinityCacheKey = ''inherited_affinity'',
     rc_inheritTolerations = fl_inheritTolerations fl, rc_tolerationsCacheKey = ''inherited_tolerations'',
     rc_requireApprovalImage = fl_requireApprovalImage fl, rc_cacheURL = fl_cacheURL fl,
     rc_autoDownload = fl_autoDownload fl, rc_downloadBaseURL = fl_tofuDownloadBaseURL fl,
     rc_taskImage = fl_taskImage fl,
     rc_taskScript = em_tofu em, rc_setupScript = em_setup em, rc_noopScript = em_noop em\<rparr>"

text \<open>\<open>scheme\<close> is the one cluster option, which sets the scheme of a cluster's client.\<close>

definition providerOptions :: "opaque \<Rightarrow> flags \<Rightarrow> ProviderOptions" where
  "providerOptions scheme fl =
    \<lparr>po_namespace = fl_clusterSecretsNamespace fl, po_secretLabel = fl_clusterSecretsLabel fl,
     po_kubeconfigKey = fl_clusterSecretsKubeconfigKey fl, po_clusterNameLabel = fl_clusterNameLabel fl,
     po_clusterOptions = [scheme]\<rparr>"

definition cacheServerOf :: "flags \<Rightarrow> CacheServer" where
  "cacheServerOf fl = \<lparr>cs_CacheDir = fl_cacheDir fl, cs_Addr = '':8082''\<rparr>"

text \<open>The index on pods by which the controllers find the pod of a stage.\<close>

definition indexGenerateName :: "Pod \<Rightarrow> string list" where
  "indexGenerateName pod = [pod_generateName pod]"

section \<open>Lemmas\<close>

lemma splitChar_nonempty: "splitChar c e \<noteq> []"
  by (cases e) (auto split: list.splits)

lemma envKey_Nil: "envKey [] = []"
  by (simp add: envKey_def)

lemma envKey_Cons: "envKey (c # e) = (if c = equalsChar then [] else c # envKey e)"
  by (cases "splitChar equalsChar e") (simp_all add: envKey_def splitChar_nonempty)

lemma envKey_no_equals: "equalsChar \<notin> set (envKey e)"
  by (induction e) (simp_all add: envKey_Nil envKey_Cons)

lemma envKey_of: "equalsChar \<notin> set key \<Longrightarrow> envKey (key @ equalsChar # v) = key"
  by (induction key) (auto simp: envKey_Cons)

lemma trimPrefix_append: "hasPrefix s p \<Longrightarrow> p @ trimPrefix s p = s"
  by (auto simp: hasPrefix_def trimPrefix_def) (metis append_take_drop_id)

lemma globalEnv_loop:
  "map_of (foldl (\<lambda>data env. let key = envKey env in
        if hasPrefix key p then AList.update (trimPrefix key p) (osGetenv environ key) data else data) d es) k =
     (if \<exists>e \<in> set es. envKey e = p @ k then Some (osGetenv environ (p @ k)) else map_of d k)"
proof (induction es arbitrary: d)
  case (Cons e es)
  show ?case
  proof (cases "hasPrefix (envKey e) p")
    case True
    then have "envKey e = p @ k \<longleftrightarrow> trimPrefix (envKey e) p = k" by (metis trimPrefix_append same_append_eq)
    then show ?thesis using True Cons by (auto simp: Let_def update_conv')
  next
    case False
    then have "envKey e \<noteq> p @ k" by (auto simp: hasPrefix_def)
    then show ?thesis using False Cons by (simp add: Let_def)
  qed
qed simp

lemma osGetenv_entry:
  assumes "key \<noteq> []" and "equalsChar \<notin> set key" and "key @ equalsChar # v \<in> set environ"
    and "\<forall>e \<in> set environ. envKey e = key \<longrightarrow> e = key @ equalsChar # v"
  shows "osGetenv environ key = v"
  using assms(3,4)
proof (induction environ)
  case (Cons e es)
  show ?case
  proof (cases "hasPrefix e (key @ [equalsChar])")
    case True
    then obtain v' where "e = key @ equalsChar # v'"
      by (metis hasPrefix_def append.assoc append_Cons append_Nil append_take_drop_id)
    then have "e = key @ equalsChar # v" using Cons.prems(2) envKey_of [OF assms(2)] by simp
    then show ?thesis using assms(1) True by simp
  next
    case False
    have "e \<noteq> key @ equalsChar # v" using False by (auto simp: hasPrefix_def)
    then show ?thesis using Cons False by simp
  qed
qed simp

text \<open>Both reconcilers keep the cache, which they share, well typed, and mean the same by that.\<close>

lemma main_keysOk: "keysOk (tfReconciler em environ fl)" "keysOk (tofuReconciler em environ fl)"
  by (simp_all add: keysOk_def tfReconciler_def tofuReconciler_def hasSuffix_def lockSuffix_def)

lemma main_cacheTyped: "cacheTyped (tofuReconciler em environ fl) = cacheTyped (tfReconciler em environ fl)"
  by (rule ext) (simp add: cacheTyped_def tfReconciler_def tofuReconciler_def)

text \<open>Resources of one name share the objects of the global environment, of whatever kind they are.\<close>

lemma main_envShared:
  "envConfigMap (tofuReconciler em environ fl) name ns = envConfigMap (tfReconciler em environ fl) name ns"
  "envSecret (tofuReconciler em environ fl) name ns = envSecret (tfReconciler em environ fl) name ns"
  by (simp_all add: envConfigMap_def envSecret_def envFromName_def tfReconciler_def tofuReconciler_def)

section \<open>Properties\<close>


definition exampleEmbedded :: embedded where
  "exampleEmbedded = \<lparr>em_tf = ''terraform'', em_tofu = ''tofu'', em_setup = ''setup'', em_noop = []\<rparr>"


end
