(* ===== verification/Json.thy ===== *)
theory Json
  imports ApiTypes "HOL-Library.Monad_Syntax"
begin

text \<open>
  What the source uses of \<open>encoding/json\<close>: values, and for a Go type the pair of its encoder
  and its decoder. Struct fields have a name and may be omitted when empty; a field of an
  embedded struct is hidden by a field of the same name nearer to the top; of two members
  with one name the last counts when a struct is decoded; \<open>null\<close> and an absent member leave
  the zero value. Documents are values, not texts, and Go strings are valid UTF-8, which the
  encoder writes without loss. Member names are compared as they are written; the decoder's
  second look, without regard to case, is for documents the encoder does not write.
\<close>

section \<open>Values and codecs\<close>

datatype json = JNull | JBool bool | JNum int | JStr string | JArr "json list" | JObj "(string \<times> json) list"

text \<open>\<open>dec\<close> gets the member, if there is one, and answers \<open>None\<close> for an error.\<close>

record 'a codec =
  enc :: "'a \<Rightarrow> json"
  dec :: "json option \<Rightarrow> 'a option"

named_theorems codec_simps

definition keeps_value :: "'a codec \<Rightarrow> 'a \<Rightarrow> bool" where
  "keeps_value c x \<longleftrightarrow> dec c (Some (enc c x)) = Some x"

definition boolCodec :: "bool codec" where
  "boolCodec = \<lparr>enc = JBool, dec = (\<lambda>j. case j of None \<Rightarrow> Some False | Some JNull \<Rightarrow> Some False
     | Some (JBool b) \<Rightarrow> Some b | _ \<Rightarrow> None)\<rparr>"

definition intCodec :: "int codec" where
  "intCodec = \<lparr>enc = JNum, dec = (\<lambda>j. case j of None \<Rightarrow> Some 0 | Some JNull \<Rightarrow> Some 0
     | Some (JNum i) \<Rightarrow> Some i | _ \<Rightarrow> None)\<rparr>"

definition strCodec :: "string codec" where
  "strCodec = \<lparr>enc = JStr, dec = (\<lambda>j. case j of None \<Rightarrow> Some [] | Some JNull \<Rightarrow> Some []
     | Some (JStr s) \<Rightarrow> Some s | _ \<Rightarrow> None)\<rparr>"

text \<open>A pointer: nil is \<open>null\<close>.\<close>

definition ptrCodec :: "'a codec \<Rightarrow> 'a option codec" where
  "ptrCodec c = \<lparr>enc = (\<lambda>p. case p of None \<Rightarrow> JNull | Some x \<Rightarrow> enc c x),
     dec = (\<lambda>j. case j of None \<Rightarrow> Some None | Some JNull \<Rightarrow> Some None
       | Some v \<Rightarrow> map_option Some (dec c (Some v)))\<rparr>"

text \<open>A slice: the empty list is the nil slice, as an absent member leaves it, and nil is \<open>null\<close>.\<close>

fun decAll :: "'a codec \<Rightarrow> json list \<Rightarrow> 'a list option" where
  "decAll c [] = Some []"
| "decAll c (j # js) = do {x \<leftarrow> dec c (Some j); xs \<leftarrow> decAll c js; Some (x # xs)}"

definition listCodec :: "'a codec \<Rightarrow> 'a list codec" where
  "listCodec c = \<lparr>enc = (\<lambda>xs. if xs = [] then JNull else JArr (map (enc c) xs)),
     dec = (\<lambda>j. case j of None \<Rightarrow> Some [] | Some JNull \<Rightarrow> Some [] | Some (JArr js) \<Rightarrow> decAll c js | _ \<Rightarrow> None)\<rparr>"

text \<open>A map with strings for keys: the encoder writes the members in the order of their keys.\<close>

fun fillMap :: "'a codec \<Rightarrow> (string \<times> json) list \<Rightarrow> (string, 'a) gomap \<Rightarrow> (string, 'a) gomap option" where
  "fillMap c [] m = Some m"
| "fillMap c ((k, j) # o') m = do {x \<leftarrow> dec c (Some j); fillMap c o' (AList.update k x m)}"

definition mapCodec :: "'a codec \<Rightarrow> (string, 'a) gomap codec" where
  "mapCodec c = \<lparr>enc = (\<lambda>m. if m = [] then JNull else JObj (map (\<lambda>(k, x). (k, enc c x)) (sort_key fst m))),
     dec = (\<lambda>j. case j of None \<Rightarrow> Some [] | Some JNull \<Rightarrow> Some [] | Some (JObj o') \<Rightarrow> fillMap c o' [] | _ \<Rightarrow> None)\<rparr>"

text \<open>The list that stands for a Go map is one in the order of its keys.\<close>

definition inKeyOrder :: "(string, 'a) gomap \<Rightarrow> bool" where
  "inKeyOrder m \<longleftrightarrow> sorted_wrt (<) (map fst m)"

section \<open>Structs\<close>

text \<open>A field without and with \<open>omitempty\<close>, by the kind of its type.\<close>

type_synonym jfield = "string \<times> json option"

definition unless :: "bool \<Rightarrow> json \<Rightarrow> json option" where
  "unless isEmpty j = (if isEmpty then None else Some j)"

definition field :: "string \<Rightarrow> 'a codec \<Rightarrow> 'a \<Rightarrow> jfield" where
  "field k c x = (k, Some (enc c x))"

definition omitFalse :: "string \<Rightarrow> bool \<Rightarrow> jfield" where
  "omitFalse k b = (k, unless (\<not> b) (JBool b))"

definition omitNil :: "string \<Rightarrow> 'a list codec \<Rightarrow> 'a list \<Rightarrow> jfield" where
  "omitNil k c xs = (k, unless (xs = []) (enc c xs))"

definition omitPtr :: "string \<Rightarrow> 'a codec \<Rightarrow> 'a option \<Rightarrow> jfield" where
  "omitPtr k c p = (k, map_option (enc c) p)"

fun written :: "jfield list \<Rightarrow> (string \<times> json) list" where
  "written [] = []"
| "written ((k, v) # fs) = (case v of None \<Rightarrow> written fs | Some j \<Rightarrow> (k, j) # written fs)"

text \<open>The fields of an embedded struct and those beside it, in Go's order.\<close>

definition embedded :: "jfield list \<Rightarrow> jfield list \<Rightarrow> jfield list" where
  "embedded inner outer = filter (\<lambda>f. fst f \<notin> set (map fst outer)) inner @ outer"

definition structCodec :: "('a \<Rightarrow> jfield list) \<Rightarrow> ((string \<times> json) list \<Rightarrow> 'a option) \<Rightarrow> 'a codec" where
  "structCodec members build = \<lparr>enc = (\<lambda>x. JObj (written (members x))),
     dec = (\<lambda>j. case j of None \<Rightarrow> build [] | Some JNull \<Rightarrow> build [] | Some (JObj o') \<Rightarrow> build o' | _ \<Rightarrow> None)\<rparr>"

definition fetch :: "'a codec \<Rightarrow> (string \<times> json) list \<Rightarrow> string \<Rightarrow> 'a option" where
  "fetch c o' k = dec c (map_of (rev o') k)"

section \<open>Lemmas\<close>

lemma written_keys: "set (map fst (written fs)) \<subseteq> set (map fst fs)"
  by (induction fs rule: written.induct) (auto split: option.splits)

lemma written_distinct: "distinct (map fst fs) \<Longrightarrow> distinct (map fst (written fs))"
proof (induction fs rule: written.induct)
  case (2 k v fs)
  then show ?case using written_keys [of fs] by (auto split: option.splits)
qed simp

lemma map_of_rev_distinct: "distinct (map fst ms) \<Longrightarrow> map_of (rev ms) = map_of ms"
  by (intro map_of_eqI) (auto simp: rev_map [symmetric])

lemma written_at: "distinct (map fst fs) \<Longrightarrow> map_of (rev (written fs)) k = (case map_of fs k of None \<Rightarrow> None | Some v \<Rightarrow> v)"
proof -
  assume d: "distinct (map fst fs)"
  then have "map_of (rev (written fs)) k = map_of (written fs) k" by (simp add: written_distinct map_of_rev_distinct)
  also have "\<dots> = (case map_of fs k of None \<Rightarrow> None | Some v \<Rightarrow> v)"
    using d
  proof (induction fs rule: written.induct)
    case (2 k' v fs)
    then have "map_of (written fs) k' = None" using written_keys [of fs] by (force simp: map_of_eq_None_iff)
    then show ?case using 2 by (auto split: option.splits)
  qed simp
  finally show ?thesis .
qed

lemma codec_struct [codec_simps]:
  "keeps_value (structCodec members build) x \<longleftrightarrow> build (written (members x)) = Some x"
  by (simp add: keeps_value_def structCodec_def)

lemma codec_basic [codec_simps]:
  "keeps_value boolCodec b" "keeps_value strCodec s" "keeps_value intCodec i"
  by (simp_all add: keeps_value_def boolCodec_def strCodec_def intCodec_def)

lemma decAll_enc: "\<forall>x \<in> set xs. keeps_value c x \<Longrightarrow> decAll c (map (enc c) xs) = Some xs"
  by (induction xs) (auto simp: keeps_value_def)

lemma codec_list [codec_simps]: "\<forall>x \<in> set xs. keeps_value c x \<Longrightarrow> keeps_value (listCodec c) xs"
  by (simp add: keeps_value_def [of "listCodec c"]) (simp add: listCodec_def decAll_enc)

lemma fillMap_enc:
  assumes "\<forall>x \<in> snd ` set m. keeps_value c x" and "distinct (map fst (m0 @ m))"
  shows "fillMap c (map (\<lambda>(k, x). (k, enc c x)) m) m0 = Some (m0 @ m)"
  using assms
proof (induction m arbitrary: m0)
  case (Cons p m)
  obtain k x where p: "p = (k, x)" by (cases p)
  have "k \<notin> set (map fst m0)" using Cons.prems(2) p by auto
  then have "AList.update k x m0 = m0 @ [(k, x)]" by (induction m0) auto
  then show ?case using Cons.IH [of "m0 @ [p]"] Cons.prems p by (simp add: keeps_value_def)
qed simp

lemma codec_map [codec_simps]:
  assumes "\<forall>x \<in> snd ` set m. keeps_value c x" and "inKeyOrder m"
  shows "keeps_value (mapCodec c) m"
proof -
  have s: "sorted (map fst m)" "distinct (map fst m)"
    using assms(2) by (simp_all add: inKeyOrder_def strict_sorted_iff)
  then have "sort_key fst m = m" by (simp add: sort_key_id_if_sorted)
  then show ?thesis using fillMap_enc [of m c "[]"] assms(1) s(2)
    by (simp add: keeps_value_def [of "mapCodec c"]) (simp add: mapCodec_def)
qed

lemma inKeyOrder_Nil [simp]: "inKeyOrder []"
  by (simp add: inKeyOrder_def)

lemma codec_ptr:
  "(case p of None \<Rightarrow> True | Some x \<Rightarrow> keeps_value c x \<and> enc c x \<noteq> JNull) \<Longrightarrow> keeps_value (ptrCodec c) p"
  by (auto simp: keeps_value_def ptrCodec_def split: option.splits json.splits)

lemma not_null [codec_simps]:
  "enc boolCodec b \<noteq> JNull" "enc strCodec s \<noteq> JNull" "enc intCodec i \<noteq> JNull" "enc (structCodec members build) x \<noteq> JNull"
  by (simp_all add: boolCodec_def strCodec_def intCodec_def structCodec_def)

text \<open>A field comes back from the members written for its struct.\<close>

lemma fetch_written [codec_simps]:
  "distinct (map fst fs) \<Longrightarrow> fetch c (written fs) k = dec c (case map_of fs k of None \<Rightarrow> None | Some v \<Rightarrow> v)"
  by (simp add: fetch_def written_at)

lemma dec_field [codec_simps]:
  "keeps_value c x \<Longrightarrow> dec c (Some (enc c x)) = Some x"
  "dec boolCodec (unless (\<not> b) (JBool b)) = Some b"
  "dec strCodec (unless (s = []) (enc strCodec s)) = Some s"
  "keeps_value (listCodec d) xs \<Longrightarrow> dec (listCodec d) (unless (xs = []) (enc (listCodec d) xs)) = Some xs"
  "keeps_value (mapCodec e) m \<Longrightarrow> dec (mapCodec e) (unless (m = []) (enc (mapCodec e) m)) = Some m"
  "keeps_value (ptrCodec a) p \<Longrightarrow> dec (ptrCodec a) (map_option (enc a) p) = Some p"
  by (auto simp: keeps_value_def unless_def boolCodec_def strCodec_def listCodec_def mapCodec_def ptrCodec_def
      split: option.splits)

lemma field_parts [codec_simps]:
  "fst (field k c x) = k" "fst (omitFalse k b) = k" "fst (omitNil k d xs) = k" "fst (omitPtr k c p) = k"
  "snd (field k c x) = Some (enc c x)" "snd (omitFalse k b) = unless (\<not> b) (JBool b)"
  "snd (omitNil k d xs) = unless (xs = []) (enc d xs)" "snd (omitPtr k c p) = map_option (enc c) p"
  by (simp_all add: field_def omitFalse_def omitNil_def omitPtr_def)

lemma codec_option [codec_simps]:
  "\<forall>x \<in> set_option p. keeps_value c x \<and> enc c x \<noteq> JNull \<Longrightarrow> keeps_value (ptrCodec c) p"
  by (rule codec_ptr) (auto split: option.splits)

end
