(* ===== verification/JsonTypes.thy ===== *)
theory JsonTypes
  imports Json
begin

text \<open>
  How the resources are written to and read from the API server: the struct tags of
  \<open>pkg/apis/infrakube/v1\<close> and the methods \<open>MarshalJSON\<close>. For every struct \<open>xFields\<close> are the
  members the tags give, \<open>xOf\<close> reads them, and \<open>xMarshal\<close>, where there is one, is the
  struct's \<open>MarshalJSON\<close>: it embeds the fields under an alias type, which has no method of
  its own, and puts some of them beside it once more, without \<open>omitempty\<close>.
\<close>

section \<open>The Kubernetes types\<close>

text \<open>
  Values of \<open>k8s.io\<close> types have codecs of their own. A quantity is its canonical text. A
  time is written in seconds, and the zero time as \<open>null\<close>.
\<close>

record k8sJson =
  kj_policyRule :: "PolicyRule codec"
  kj_envFrom :: "EnvFromSource codec"
  kj_envVar :: "EnvVar codec"
  kj_resources :: "opaque codec"
  kj_volume :: "Volume codec"
  kj_volumeMount :: "VolumeMount codec"
  kj_quantity :: "string codec"
  kj_time :: "int codec"

definition codec_law :: "'a codec \<Rightarrow> bool" where
  "codec_law c \<longleftrightarrow> (\<forall>x. keeps_value c x \<and> enc c x \<noteq> JNull)"

definition k8s_json_law :: "k8sJson \<Rightarrow> bool" where
  "k8s_json_law K \<longleftrightarrow> codec_law (kj_policyRule K) \<and> codec_law (kj_envFrom K) \<and> codec_law (kj_envVar K) \<and>
     codec_law (kj_resources K) \<and> codec_law (kj_volume K) \<and> codec_law (kj_volumeMount K) \<and>
     codec_law (kj_quantity K) \<and> (\<forall>t. keeps_value (kj_time K) t \<and> (t \<noteq> 0 \<longrightarrow> enc (kj_time K) t \<noteq> JNull))"

definition optionInOrder :: "TaskOption \<Rightarrow> bool" where
  "optionInOrder x \<longleftrightarrow> inKeyOrder (topt_labels x) \<and> inKeyOrder (topt_annotations x)"

lemma k8s_keeps [codec_simps]:
  assumes "k8s_json_law K"
  shows "keeps_value (kj_policyRule K) x1" "keeps_value (kj_envFrom K) x2" "keeps_value (kj_envVar K) x3"
    "keeps_value (kj_resources K) x4" "enc (kj_resources K) x4 \<noteq> JNull" "keeps_value (kj_volume K) x5"
    "keeps_value (kj_volumeMount K) x6" "keeps_value (kj_quantity K) x7" "enc (kj_quantity K) x7 \<noteq> JNull"
    "keeps_value (kj_time K) x8" "p \<noteq> Some 0 \<Longrightarrow> keeps_value (ptrCodec (kj_time K)) p"
proof -
  show "keeps_value (ptrCodec (kj_time K)) p" if "p \<noteq> Some 0"
    using assms that by (intro codec_option) (auto simp: k8s_json_law_def)
qed (use assms in \<open>simp_all add: k8s_json_law_def codec_law_def\<close>)

section \<open>The specs\<close>

definition imageConfigFields :: "ImageConfig \<Rightarrow> jfield list" where
  "imageConfigFields x =
    [field ''image'' strCodec (ic_image x), omitNil ''imagePullPolicy'' strCodec (ic_imagePullPolicy x)]"

definition imageConfigOf :: "(string \<times> json) list \<Rightarrow> ImageConfig option" where
  "imageConfigOf ms = do {
     v0 \<leftarrow> fetch strCodec ms ''image''; v1 \<leftarrow> fetch strCodec ms ''imagePullPolicy'';
     Some \<lparr>ic_image = v0, ic_imagePullPolicy = v1\<rparr>}"

definition imageConfigCodec :: "ImageConfig codec" where
  "imageConfigCodec = structCodec imageConfigFields imageConfigOf"

lemma keeps_imageConfig [codec_simps]: "keeps_value imageConfigCodec x"
  by (cases x) (simp add: imageConfigCodec_def imageConfigFields_def imageConfigOf_def codec_simps)

lemma imageConfig_not_null [codec_simps]: "enc imageConfigCodec x \<noteq> JNull"
  by (simp add: imageConfigCodec_def codec_simps)

definition imagesFields :: "Images \<Rightarrow> jfield list" where
  "imagesFields x =
    [omitPtr ''terraform'' imageConfigCodec (img_terraform x),
     omitPtr ''script'' imageConfigCodec (img_script x), omitPtr ''setup'' imageConfigCodec (img_setup x)]"

definition imagesOf :: "(string \<times> json) list \<Rightarrow> Images option" where
  "imagesOf ms = do {
     v0 \<leftarrow> fetch (ptrCodec imageConfigCodec) ms ''terraform'';
     v1 \<leftarrow> fetch (ptrCodec imageConfigCodec) ms ''script'';
     v2 \<leftarrow> fetch (ptrCodec imageConfigCodec) ms ''setup'';
     Some \<lparr>img_terraform = v0, img_script = v1, img_setup = v2\<rparr>}"

definition imagesCodec :: "Images codec" where
  "imagesCodec = structCodec imagesFields imagesOf"

lemma keeps_images [codec_simps]: "keeps_value imagesCodec x"
  by (cases x) (simp add: imagesCodec_def imagesFields_def imagesOf_def codec_simps)

lemma images_not_null [codec_simps]: "enc imagesCodec x \<noteq> JNull"
  by (simp add: imagesCodec_def codec_simps)

definition tofuImagesFields :: "TofuImages \<Rightarrow> jfield list" where
  "tofuImagesFields x =
    [omitPtr ''tofu'' imageConfigCodec (timg_tofu x), omitPtr ''script'' imageConfigCodec (timg_script x),
     omitPtr ''setup'' imageConfigCodec (timg_setup x)]"

definition tofuImagesOf :: "(string \<times> json) list \<Rightarrow> TofuImages option" where
  "tofuImagesOf ms = do {
     v0 \<leftarrow> fetch (ptrCodec imageConfigCodec) ms ''tofu'';
     v1 \<leftarrow> fetch (ptrCodec imageConfigCodec) ms ''script'';
     v2 \<leftarrow> fetch (ptrCodec imageConfigCodec) ms ''setup'';
     Some \<lparr>timg_tofu = v0, timg_script = v1, timg_setup = v2\<rparr>}"

definition tofuImagesCodec :: "TofuImages codec" where
  "tofuImagesCodec = structCodec tofuImagesFields tofuImagesOf"

lemma keeps_tofuImages [codec_simps]: "keeps_value tofuImagesCodec x"
  by (cases x) (simp add: tofuImagesCodec_def tofuImagesFields_def tofuImagesOf_def codec_simps)

lemma tofuImages_not_null [codec_simps]: "enc tofuImagesCodec x \<noteq> JNull"
  by (simp add: tofuImagesCodec_def codec_simps)

definition configMapSelectorFields :: "ConfigMapSelector \<Rightarrow> jfield list" where
  "configMapSelectorFields x =
    [field ''name'' strCodec (cms_name x), omitNil ''key'' strCodec (cms_key x)]"

definition configMapSelectorOf :: "(string \<times> json) list \<Rightarrow> ConfigMapSelector option" where
  "configMapSelectorOf ms = do {
     v0 \<leftarrow> fetch strCodec ms ''name''; v1 \<leftarrow> fetch strCodec ms ''key'';
     Some \<lparr>cms_name = v0, cms_key = v1\<rparr>}"

definition configMapSelectorCodec :: "ConfigMapSelector codec" where
  "configMapSelectorCodec = structCodec configMapSelectorFields configMapSelectorOf"

lemma keeps_configMapSelector [codec_simps]: "keeps_value configMapSelectorCodec x"
  by (cases x) (simp add: configMapSelectorCodec_def configMapSelectorFields_def configMapSelectorOf_def codec_simps)

lemma configMapSelector_not_null [codec_simps]: "enc configMapSelectorCodec x \<noteq> JNull"
  by (simp add: configMapSelectorCodec_def codec_simps)

definition moduleFields :: "Module \<Rightarrow> jfield list" where
  "moduleFields x =
    [omitNil ''source'' strCodec (mod_source x), omitNil ''version'' strCodec (mod_version x),
     omitPtr ''configMapSelector'' configMapSelectorCodec (mod_configMapSelector x),
     omitPtr ''configMapSeclector'' configMapSelectorCodec (mod_configMapSeclector_x x),
     omitNil ''inline'' strCodec (mod_inline x)]"

definition moduleOf :: "(string \<times> json) list \<Rightarrow> Module option" where
  "moduleOf ms = do {
     v0 \<leftarrow> fetch strCodec ms ''source''; v1 \<leftarrow> fetch strCodec ms ''version'';
     v2 \<leftarrow> fetch (ptrCodec configMapSelectorCodec) ms ''configMapSelector'';
     v3 \<leftarrow> fetch (ptrCodec configMapSelectorCodec) ms ''configMapSeclector'';
     v4 \<leftarrow> fetch strCodec ms ''inline'';
     Some \<lparr>mod_source = v0, mod_version = v1, mod_configMapSelector = v2, mod_configMapSeclector_x = v3,
       mod_inline = v4\<rparr>}"

definition moduleCodec :: "Module codec" where
  "moduleCodec = structCodec moduleFields moduleOf"

lemma keeps_module [codec_simps]: "keeps_value moduleCodec x"
  by (cases x) (simp add: moduleCodec_def moduleFields_def moduleOf_def codec_simps)

definition stageScriptFields :: "StageScript \<Rightarrow> jfield list" where
  "stageScriptFields x =
    [omitNil ''source'' strCodec (ss_source x),
     omitPtr ''configMapSelector'' configMapSelectorCodec (ss_configMapSelector x),
     omitNil ''inline'' strCodec (ss_inline x)]"

definition stageScriptOf :: "(string \<times> json) list \<Rightarrow> StageScript option" where
  "stageScriptOf ms = do {
     v0 \<leftarrow> fetch strCodec ms ''source'';
     v1 \<leftarrow> fetch (ptrCodec configMapSelectorCodec) ms ''configMapSelector'';
     v2 \<leftarrow> fetch strCodec ms ''inline'';
     Some \<lparr>ss_source = v0, ss_configMapSelector = v1, ss_inline = v2\<rparr>}"

definition stageScriptCodec :: "StageScript codec" where
  "stageScriptCodec = structCodec stageScriptFields stageScriptOf"

lemma keeps_stageScript [codec_simps]: "keeps_value stageScriptCodec x"
  by (cases x) (simp add: stageScriptCodec_def stageScriptFields_def stageScriptOf_def codec_simps)

text \<open>A \<open>TaskOption\<close> holds values of the Kubernetes types; its script is a struct, which \<open>omitempty\<close>
  never omits.\<close>

definition taskOptionFields :: "k8sJson \<Rightarrow> TaskOption \<Rightarrow> jfield list" where
  "taskOptionFields K x =
    [field ''for'' (listCodec strCodec) (topt_for x),
     omitNil ''policyRules'' (listCodec (kj_policyRule K)) (topt_policyRules x),
     omitNil ''labels'' (mapCodec strCodec) (topt_labels x),
     omitNil ''annotations'' (mapCodec strCodec) (topt_annotations x),
     omitNil ''envFrom'' (listCodec (kj_envFrom K)) (topt_envFrom x),
     omitNil ''env'' (listCodec (kj_envVar K)) (topt_env x),
     omitPtr ''resources'' (kj_resources K) (topt_resources x),
     field ''script'' stageScriptCodec (topt_script x),
     omitNil ''restartPolicy'' strCodec (topt_restartPolicy x),
     omitNil ''volumes'' (listCodec (kj_volume K)) (topt_volumes x),
     omitNil ''volumeMounts'' (listCodec (kj_volumeMount K)) (topt_volumeMounts x)]"

definition taskOptionOf :: "k8sJson \<Rightarrow> (string \<times> json) list \<Rightarrow> TaskOption option" where
  "taskOptionOf K ms = do {
     v0 \<leftarrow> fetch (listCodec strCodec) ms ''for'';
     v1 \<leftarrow> fetch (listCodec (kj_policyRule K)) ms ''policyRules'';
     v2 \<leftarrow> fetch (mapCodec strCodec) ms ''labels'';
     v3 \<leftarrow> fetch (mapCodec strCodec) ms ''annotations'';
     v4 \<leftarrow> fetch (listCodec (kj_envFrom K)) ms ''envFrom'';
     v5 \<leftarrow> fetch (listCodec (kj_envVar K)) ms ''env'';
     v6 \<leftarrow> fetch (ptrCodec (kj_resources K)) ms ''resources'';
     v7 \<leftarrow> fetch stageScriptCodec ms ''script''; v8 \<leftarrow> fetch strCodec ms ''restartPolicy'';
     v9 \<leftarrow> fetch (listCodec (kj_volume K)) ms ''volumes'';
     v10 \<leftarrow> fetch (listCodec (kj_volumeMount K)) ms ''volumeMounts'';
     Some \<lparr>topt_for = v0, topt_policyRules = v1, topt_labels = v2, topt_annotations = v3, topt_envFrom = v4,
       topt_env = v5, topt_resources = v6, topt_script = v7, topt_restartPolicy = v8, topt_volumes = v9,
       topt_volumeMounts = v10\<rparr>}"

definition taskOptionCodec :: "k8sJson \<Rightarrow> TaskOption codec" where
  "taskOptionCodec K = structCodec (taskOptionFields K) (taskOptionOf K)"

lemma keeps_taskOption [codec_simps]: "k8s_json_law K \<Longrightarrow> optionInOrder x \<Longrightarrow> keeps_value (taskOptionCodec K) x"
  by (cases x) (simp add: taskOptionCodec_def taskOptionFields_def taskOptionOf_def optionInOrder_def codec_simps)

definition sshKeySecretRefFields :: "SSHKeySecretRef \<Rightarrow> jfield list" where
  "sshKeySecretRefFields x =
    [field ''name'' strCodec (sk_name x), omitNil ''namespace'' strCodec (sk_namespace x),
     omitNil ''key'' strCodec (sk_key x), omitFalse ''lockSecretDeletion'' (sk_lockSecretDeletion x)]"

definition sshKeySecretRefOf :: "(string \<times> json) list \<Rightarrow> SSHKeySecretRef option" where
  "sshKeySecretRefOf ms = do {
     v0 \<leftarrow> fetch strCodec ms ''name''; v1 \<leftarrow> fetch strCodec ms ''namespace'';
     v2 \<leftarrow> fetch strCodec ms ''key''; v3 \<leftarrow> fetch boolCodec ms ''lockSecretDeletion'';
     Some \<lparr>sk_name = v0, sk_namespace = v1, sk_key = v2, sk_lockSecretDeletion = v3\<rparr>}"

definition sshKeySecretRefCodec :: "SSHKeySecretRef codec" where
  "sshKeySecretRefCodec = structCodec sshKeySecretRefFields sshKeySecretRefOf"

lemma keeps_sshKeySecretRef [codec_simps]: "keeps_value sshKeySecretRefCodec x"
  by (cases x) (simp add: sshKeySecretRefCodec_def sshKeySecretRefFields_def sshKeySecretRefOf_def codec_simps)

lemma sshKeySecretRef_not_null [codec_simps]: "enc sshKeySecretRefCodec x \<noteq> JNull"
  by (simp add: sshKeySecretRefCodec_def codec_simps)

definition tokenSecretRefFields :: "TokenSecretRef \<Rightarrow> jfield list" where
  "tokenSecretRefFields x =
    [field ''name'' strCodec (tk_name x), omitNil ''namespace'' strCodec (tk_namespace x),
     omitNil ''key'' strCodec (tk_key x), omitFalse ''lockSecretDeletion'' (tk_lockSecretDeletion x)]"

definition tokenSecretRefOf :: "(string \<times> json) list \<Rightarrow> TokenSecretRef option" where
  "tokenSecretRefOf ms = do {
     v0 \<leftarrow> fetch strCodec ms ''name''; v1 \<leftarrow> fetch strCodec ms ''namespace'';
     v2 \<leftarrow> fetch strCodec ms ''key''; v3 \<leftarrow> fetch boolCodec ms ''lockSecretDeletion'';
     Some \<lparr>tk_name = v0, tk_namespace = v1, tk_key = v2, tk_lockSecretDeletion = v3\<rparr>}"

definition tokenSecretRefCodec :: "TokenSecretRef codec" where
  "tokenSecretRefCodec = structCodec tokenSecretRefFields tokenSecretRefOf"

lemma keeps_tokenSecretRef [codec_simps]: "keeps_value tokenSecretRefCodec x"
  by (cases x) (simp add: tokenSecretRefCodec_def tokenSecretRefFields_def tokenSecretRefOf_def codec_simps)

lemma tokenSecretRef_not_null [codec_simps]: "enc tokenSecretRefCodec x \<noteq> JNull"
  by (simp add: tokenSecretRefCodec_def codec_simps)

definition gitSSHFields :: "GitSSH \<Rightarrow> jfield list" where
  "gitSSHFields x =
    [omitFalse ''requireProxy'' (gssh_requireProxy x),
     field ''sshKeySecretRef'' (ptrCodec sshKeySecretRefCodec) (gssh_sshKeySecretRef x)]"

definition gitSSHOf :: "(string \<times> json) list \<Rightarrow> GitSSH option" where
  "gitSSHOf ms = do {
     v0 \<leftarrow> fetch boolCodec ms ''requireProxy'';
     v1 \<leftarrow> fetch (ptrCodec sshKeySecretRefCodec) ms ''sshKeySecretRef'';
     Some \<lparr>gssh_requireProxy = v0, gssh_sshKeySecretRef = v1\<rparr>}"

definition gitSSHMarshal :: "GitSSH \<Rightarrow> jfield list" where
  "gitSSHMarshal x = embedded (gitSSHFields x)
    [field ''requireProxy'' boolCodec (gssh_requireProxy x)]"

definition gitSSHCodec :: "GitSSH codec" where
  "gitSSHCodec = structCodec gitSSHMarshal gitSSHOf"

lemma keeps_gitSSH [codec_simps]: "keeps_value gitSSHCodec x"
  by (cases x) (simp add: gitSSHCodec_def gitSSHFields_def gitSSHOf_def gitSSHMarshal_def embedded_def codec_simps)

lemma gitSSH_not_null [codec_simps]: "enc gitSSHCodec x \<noteq> JNull"
  by (simp add: gitSSHCodec_def codec_simps)

definition gitHTTPSFields :: "GitHTTPS \<Rightarrow> jfield list" where
  "gitHTTPSFields x =
    [omitFalse ''requireProxy'' (ghttps_requireProxy x),
     field ''tokenSecretRef'' (ptrCodec tokenSecretRefCodec) (ghttps_tokenSecretRef x)]"

definition gitHTTPSOf :: "(string \<times> json) list \<Rightarrow> GitHTTPS option" where
  "gitHTTPSOf ms = do {
     v0 \<leftarrow> fetch boolCodec ms ''requireProxy'';
     v1 \<leftarrow> fetch (ptrCodec tokenSecretRefCodec) ms ''tokenSecretRef'';
     Some \<lparr>ghttps_requireProxy = v0, ghttps_tokenSecretRef = v1\<rparr>}"

definition gitHTTPSMarshal :: "GitHTTPS \<Rightarrow> jfield list" where
  "gitHTTPSMarshal x = embedded (gitHTTPSFields x)
    [field ''requireProxy'' boolCodec (ghttps_requireProxy x)]"

definition gitHTTPSCodec :: "GitHTTPS codec" where
  "gitHTTPSCodec = structCodec gitHTTPSMarshal gitHTTPSOf"

lemma keeps_gitHTTPS [codec_simps]: "keeps_value gitHTTPSCodec x"
  by (cases x) (simp add: gitHTTPSCodec_def gitHTTPSFields_def gitHTTPSOf_def gitHTTPSMarshal_def embedded_def codec_simps)

lemma gitHTTPS_not_null [codec_simps]: "enc gitHTTPSCodec x \<noteq> JNull"
  by (simp add: gitHTTPSCodec_def codec_simps)

definition gitSCMFields :: "GitSCM \<Rightarrow> jfield list" where
  "gitSCMFields x =
    [omitPtr ''ssh'' gitSSHCodec (git_ssh x), omitPtr ''https'' gitHTTPSCodec (git_https x)]"

definition gitSCMOf :: "(string \<times> json) list \<Rightarrow> GitSCM option" where
  "gitSCMOf ms = do {
     v0 \<leftarrow> fetch (ptrCodec gitSSHCodec) ms ''ssh'';
     v1 \<leftarrow> fetch (ptrCodec gitHTTPSCodec) ms ''https'';
     Some \<lparr>git_ssh = v0, git_https = v1\<rparr>}"

definition gitSCMCodec :: "GitSCM codec" where
  "gitSCMCodec = structCodec gitSCMFields gitSCMOf"

lemma keeps_gitSCM [codec_simps]: "keeps_value gitSCMCodec x"
  by (cases x) (simp add: gitSCMCodec_def gitSCMFields_def gitSCMOf_def codec_simps)

lemma gitSCM_not_null [codec_simps]: "enc gitSCMCodec x \<noteq> JNull"
  by (simp add: gitSCMCodec_def codec_simps)

definition scmAuthMethodFields :: "SCMAuthMethod \<Rightarrow> jfield list" where
  "scmAuthMethodFields x =
    [field ''host'' strCodec (scm_host x), omitPtr ''git'' gitSCMCodec (scm_git x)]"

definition scmAuthMethodOf :: "(string \<times> json) list \<Rightarrow> SCMAuthMethod option" where
  "scmAuthMethodOf ms = do {
     v0 \<leftarrow> fetch strCodec ms ''host''; v1 \<leftarrow> fetch (ptrCodec gitSCMCodec) ms ''git'';
     Some \<lparr>scm_host = v0, scm_git = v1\<rparr>}"

definition scmAuthMethodCodec :: "SCMAuthMethod codec" where
  "scmAuthMethodCodec = structCodec scmAuthMethodFields scmAuthMethodOf"

lemma keeps_scmAuthMethod [codec_simps]: "keeps_value scmAuthMethodCodec x"
  by (cases x) (simp add: scmAuthMethodCodec_def scmAuthMethodFields_def scmAuthMethodOf_def codec_simps)

definition resourceDownloadFields :: "ResourceDownload \<Rightarrow> jfield list" where
  "resourceDownloadFields x =
    [field ''address'' strCodec (rd_address x), omitNil ''path'' strCodec (rd_path x),
     omitFalse ''useAsVar'' (rd_useAsVar x)]"

definition resourceDownloadOf :: "(string \<times> json) list \<Rightarrow> ResourceDownload option" where
  "resourceDownloadOf ms = do {
     v0 \<leftarrow> fetch strCodec ms ''address''; v1 \<leftarrow> fetch strCodec ms ''path'';
     v2 \<leftarrow> fetch boolCodec ms ''useAsVar'';
     Some \<lparr>rd_address = v0, rd_path = v1, rd_useAsVar = v2\<rparr>}"

definition resourceDownloadMarshal :: "ResourceDownload \<Rightarrow> jfield list" where
  "resourceDownloadMarshal x = embedded (resourceDownloadFields x)
    [field ''useAsVar'' boolCodec (rd_useAsVar x)]"

definition resourceDownloadCodec :: "ResourceDownload codec" where
  "resourceDownloadCodec = structCodec resourceDownloadMarshal resourceDownloadOf"

lemma keeps_resourceDownload [codec_simps]: "keeps_value resourceDownloadCodec x"
  by (cases x) (simp add: resourceDownloadCodec_def resourceDownloadFields_def resourceDownloadOf_def resourceDownloadMarshal_def embedded_def codec_simps)

definition setupSpecFields :: "Setup \<Rightarrow> jfield list" where
  "setupSpecFields x =
    [omitNil ''resourceDownloads'' (listCodec resourceDownloadCodec) (su_resourceDownloads x),
     omitFalse ''cleanupDisk'' (su_cleanupDisk x)]"

definition setupSpecOf :: "(string \<times> json) list \<Rightarrow> Setup option" where
  "setupSpecOf ms = do {
     v0 \<leftarrow> fetch (listCodec resourceDownloadCodec) ms ''resourceDownloads'';
     v1 \<leftarrow> fetch boolCodec ms ''cleanupDisk'';
     Some \<lparr>su_resourceDownloads = v0, su_cleanupDisk = v1\<rparr>}"

definition setupSpecMarshal :: "Setup \<Rightarrow> jfield list" where
  "setupSpecMarshal x = embedded (setupSpecFields x)
    [field ''cleanupDisk'' boolCodec (su_cleanupDisk x)]"

definition setupSpecCodec :: "Setup codec" where
  "setupSpecCodec = structCodec setupSpecMarshal setupSpecOf"

lemma keeps_setupSpec [codec_simps]: "keeps_value setupSpecCodec x"
  by (cases x) (simp add: setupSpecCodec_def setupSpecFields_def setupSpecOf_def setupSpecMarshal_def embedded_def codec_simps)

lemma setupSpec_not_null [codec_simps]: "enc setupSpecCodec x \<noteq> JNull"
  by (simp add: setupSpecCodec_def codec_simps)

definition proxyOptsFields :: "ProxyOpts \<Rightarrow> jfield list" where
  "proxyOptsFields x =
    [omitNil ''host'' strCodec (px_host x), omitNil ''user'' strCodec (px_user x),
     field ''sshKeySecretRef'' sshKeySecretRefCodec (px_sshKeySecretRef x)]"

definition proxyOptsOf :: "(string \<times> json) list \<Rightarrow> ProxyOpts option" where
  "proxyOptsOf ms = do {
     v0 \<leftarrow> fetch strCodec ms ''host''; v1 \<leftarrow> fetch strCodec ms ''user'';
     v2 \<leftarrow> fetch sshKeySecretRefCodec ms ''sshKeySecretRef'';
     Some \<lparr>px_host = v0, px_user = v1, px_sshKeySecretRef = v2\<rparr>}"

definition proxyOptsCodec :: "ProxyOpts codec" where
  "proxyOptsCodec = structCodec proxyOptsFields proxyOptsOf"

lemma keeps_proxyOpts [codec_simps]: "keeps_value proxyOptsCodec x"
  by (cases x) (simp add: proxyOptsCodec_def proxyOptsFields_def proxyOptsOf_def codec_simps)

lemma proxyOpts_not_null [codec_simps]: "enc proxyOptsCodec x \<noteq> JNull"
  by (simp add: proxyOptsCodec_def codec_simps)

definition secretNameRefFields :: "SecretNameRef \<Rightarrow> jfield list" where
  "secretNameRefFields x =
    [field ''name'' strCodec (snr_name x), omitNil ''namespace'' strCodec (snr_namespace x),
     omitNil ''key'' strCodec (snr_key x)]"

definition secretNameRefOf :: "(string \<times> json) list \<Rightarrow> SecretNameRef option" where
  "secretNameRefOf ms = do {
     v0 \<leftarrow> fetch strCodec ms ''name''; v1 \<leftarrow> fetch strCodec ms ''namespace'';
     v2 \<leftarrow> fetch strCodec ms ''key'';
     Some \<lparr>snr_name = v0, snr_namespace = v1, snr_key = v2\<rparr>}"

definition secretNameRefCodec :: "SecretNameRef codec" where
  "secretNameRefCodec = structCodec secretNameRefFields secretNameRefOf"

lemma keeps_secretNameRef [codec_simps]: "keeps_value secretNameRefCodec x"
  by (cases x) (simp add: secretNameRefCodec_def secretNameRefFields_def secretNameRefOf_def codec_simps)

definition awsCredentialsFields :: "AWSCredentials \<Rightarrow> jfield list" where
  "awsCredentialsFields x =
    [omitNil ''irsa'' strCodec (aws_irsa x), omitNil ''kiam'' strCodec (aws_kiam x)]"

definition awsCredentialsOf :: "(string \<times> json) list \<Rightarrow> AWSCredentials option" where
  "awsCredentialsOf ms = do {
     v0 \<leftarrow> fetch strCodec ms ''irsa''; v1 \<leftarrow> fetch strCodec ms ''kiam'';
     Some \<lparr>aws_irsa = v0, aws_kiam = v1\<rparr>}"

definition awsCredentialsCodec :: "AWSCredentials codec" where
  "awsCredentialsCodec = structCodec awsCredentialsFields awsCredentialsOf"

lemma keeps_awsCredentials [codec_simps]: "keeps_value awsCredentialsCodec x"
  by (cases x) (simp add: awsCredentialsCodec_def awsCredentialsFields_def awsCredentialsOf_def codec_simps)

definition credentialsFields :: "Credentials \<Rightarrow> jfield list" where
  "credentialsFields x =
    [field ''secretNameRef'' secretNameRefCodec (cr_secretNameRef x),
     field ''aws'' awsCredentialsCodec (cr_awsCredentials x),
     omitNil ''serviceAccountAnnotations'' (mapCodec strCodec) (cr_serviceAccountAnnotations x)]"

definition credentialsOf :: "(string \<times> json) list \<Rightarrow> Credentials option" where
  "credentialsOf ms = do {
     v0 \<leftarrow> fetch secretNameRefCodec ms ''secretNameRef'';
     v1 \<leftarrow> fetch awsCredentialsCodec ms ''aws'';
     v2 \<leftarrow> fetch (mapCodec strCodec) ms ''serviceAccountAnnotations'';
     Some \<lparr>cr_secretNameRef = v0, cr_awsCredentials = v1, cr_serviceAccountAnnotations = v2\<rparr>}"

definition credentialsCodec :: "Credentials codec" where
  "credentialsCodec = structCodec credentialsFields credentialsOf"

lemma keeps_credentials [codec_simps]: "inKeyOrder (cr_serviceAccountAnnotations x) \<Longrightarrow> keeps_value credentialsCodec x"
  by (cases x) (simp add: credentialsCodec_def credentialsFields_def credentialsOf_def codec_simps)

text \<open>A plugin embeds its image: the members of \<open>ImageConfig\<close> stand beside its own.\<close>

definition pluginFields :: "Plugin \<Rightarrow> jfield list" where
  "pluginFields x = embedded (imageConfigFields (pl_imageConfig x))
    [field ''when'' strCodec (pl_when x), field ''task'' strCodec (pl_task x), omitFalse ''must'' (pl_must x)]"

definition pluginOf :: "(string \<times> json) list \<Rightarrow> Plugin option" where
  "pluginOf ms = do {
     v0 \<leftarrow> imageConfigOf ms; v1 \<leftarrow> fetch strCodec ms ''when'';
     v2 \<leftarrow> fetch strCodec ms ''task''; v3 \<leftarrow> fetch boolCodec ms ''must'';
     Some \<lparr>pl_imageConfig = v0, pl_when = v1, pl_task = v2, pl_must = v3\<rparr>}"

definition pluginMarshal :: "Plugin \<Rightarrow> jfield list" where
  "pluginMarshal x = embedded (pluginFields x) [field ''must'' boolCodec (pl_must x)]"

definition pluginCodec :: "Plugin codec" where
  "pluginCodec = structCodec pluginMarshal pluginOf"

lemma keeps_plugin [codec_simps]: "keeps_value pluginCodec x"
  by (cases x, cases "pl_imageConfig x") (simp add: pluginCodec_def pluginMarshal_def pluginFields_def pluginOf_def embedded_def
      imageConfigFields_def imageConfigOf_def codec_simps)

definition terraformSpecInOrder :: "TerraformSpec \<Rightarrow> bool" where
  "terraformSpecInOrder x \<longleftrightarrow> (\<forall>c \<in> set (tfs_credentials x). inKeyOrder (cr_serviceAccountAnnotations c)) \<and>
     (\<forall>t \<in> set (tfs_taskOptions x). optionInOrder t) \<and> inKeyOrder (tfs_plugins x)"

definition terraformSpecFields :: "k8sJson \<Rightarrow> TerraformSpec \<Rightarrow> jfield list" where
  "terraformSpecFields K x =
    [omitFalse ''keepLatestPodsOnly'' (tfs_keepLatestPodsOnly x),
     omitFalse ''keepCompletedPods'' (tfs_keepCompletedPods x),
     omitNil ''outputsSecret'' strCodec (tfs_outputsSecret x),
     omitNil ''outputsToInclude'' (listCodec strCodec) (tfs_outputsToInclude x),
     omitNil ''outputsToOmit'' (listCodec strCodec) (tfs_outputsToOmit x),
     omitFalse ''writeOutputsToStatus'' (tfs_writeOutputsToStatus x),
     omitPtr ''persistentVolumeSize'' (kj_quantity K) (tfs_persistentVolumeSize x),
     omitPtr ''storageClassName'' strCodec (tfs_storageClassName x),
     omitNil ''serviceAccount'' strCodec (tfs_serviceAccount x),
     omitNil ''credentials'' (listCodec credentialsCodec) (tfs_credentials x),
     omitFalse ''ignoreDelete'' (tfs_ignoreDelete x), omitPtr ''sshTunnel'' proxyOptsCodec (tfs_sshTunnel x),
     omitNil ''scmAuthMethods'' (listCodec scmAuthMethodCodec) (tfs_scmAuthMethods x),
     omitPtr ''images'' imagesCodec (tfs_images x), omitPtr ''setup'' setupSpecCodec (tfs_setup x),
     field ''terraformModule'' moduleCodec (tfs_module x), field ''terraformVersion'' strCodec (tfs_version x),
     field ''backend'' strCodec (tfs_backend x),
     omitNil ''taskOptions'' (listCodec (taskOptionCodec K)) (tfs_taskOptions x),
     omitNil ''plugins'' (mapCodec pluginCodec) (tfs_plugins x),
     omitFalse ''requireApproval'' (tfs_requireApproval x)]"

definition terraformSpecOf :: "k8sJson \<Rightarrow> (string \<times> json) list \<Rightarrow> TerraformSpec option" where
  "terraformSpecOf K ms = do {
     v0 \<leftarrow> fetch boolCodec ms ''keepLatestPodsOnly'';
     v1 \<leftarrow> fetch boolCodec ms ''keepCompletedPods'';
     v2 \<leftarrow> fetch strCodec ms ''outputsSecret'';
     v3 \<leftarrow> fetch (listCodec strCodec) ms ''outputsToInclude'';
     v4 \<leftarrow> fetch (listCodec strCodec) ms ''outputsToOmit'';
     v5 \<leftarrow> fetch boolCodec ms ''writeOutputsToStatus'';
     v6 \<leftarrow> fetch (ptrCodec (kj_quantity K)) ms ''persistentVolumeSize'';
     v7 \<leftarrow> fetch (ptrCodec strCodec) ms ''storageClassName'';
     v8 \<leftarrow> fetch strCodec ms ''serviceAccount'';
     v9 \<leftarrow> fetch (listCodec credentialsCodec) ms ''credentials'';
     v10 \<leftarrow> fetch boolCodec ms ''ignoreDelete'';
     v11 \<leftarrow> fetch (ptrCodec proxyOptsCodec) ms ''sshTunnel'';
     v12 \<leftarrow> fetch (listCodec scmAuthMethodCodec) ms ''scmAuthMethods'';
     v13 \<leftarrow> fetch (ptrCodec imagesCodec) ms ''images'';
     v14 \<leftarrow> fetch (ptrCodec setupSpecCodec) ms ''setup'';
     v15 \<leftarrow> fetch moduleCodec ms ''terraformModule'';
     v16 \<leftarrow> fetch strCodec ms ''terraformVersion''; v17 \<leftarrow> fetch strCodec ms ''backend'';
     v18 \<leftarrow> fetch (listCodec (taskOptionCodec K)) ms ''taskOptions'';
     v19 \<leftarrow> fetch (mapCodec pluginCodec) ms ''plugins'';
     v20 \<leftarrow> fetch boolCodec ms ''requireApproval'';
     Some \<lparr>tfs_keepLatestPodsOnly = v0, tfs_keepCompletedPods = v1, tfs_outputsSecret = v2,
       tfs_outputsToInclude = v3, tfs_outputsToOmit = v4, tfs_writeOutputsToStatus = v5,
       tfs_persistentVolumeSize = v6, tfs_storageClassName = v7, tfs_serviceAccount = v8, tfs_credentials = v9,
       tfs_ignoreDelete = v10, tfs_sshTunnel = v11, tfs_scmAuthMethods = v12, tfs_images = v13,
       tfs_setup = v14, tfs_module = v15, tfs_version = v16, tfs_backend = v17, tfs_taskOptions = v18,
       tfs_plugins = v19, tfs_requireApproval = v20\<rparr>}"

definition terraformSpecMarshal :: "k8sJson \<Rightarrow> TerraformSpec \<Rightarrow> jfield list" where
  "terraformSpecMarshal K x = embedded (terraformSpecFields K x)
    [field ''keepLatestPodsOnly'' boolCodec (tfs_keepLatestPodsOnly x),
     field ''keepCompletedPods'' boolCodec (tfs_keepCompletedPods x),
     field ''writeOutputsToStatus'' boolCodec (tfs_writeOutputsToStatus x),
     field ''ignoreDelete'' boolCodec (tfs_ignoreDelete x),
     field ''requireApproval'' boolCodec (tfs_requireApproval x),
     field ''taskOptions'' (listCodec (taskOptionCodec K)) (tfs_taskOptions x)]"

definition terraformSpecCodec :: "k8sJson \<Rightarrow> TerraformSpec codec" where
  "terraformSpecCodec K = structCodec (terraformSpecMarshal K) (terraformSpecOf K)"

lemma keeps_terraformSpec [codec_simps]: "k8s_json_law K \<Longrightarrow> terraformSpecInOrder x \<Longrightarrow> keeps_value (terraformSpecCodec K) x"
  by (cases x) (simp add: terraformSpecCodec_def terraformSpecFields_def terraformSpecOf_def terraformSpecMarshal_def embedded_def terraformSpecInOrder_def codec_simps)

definition tofuSpecInOrder :: "TofuSpec \<Rightarrow> bool" where
  "tofuSpecInOrder x \<longleftrightarrow> (\<forall>c \<in> set (tos_credentials x). inKeyOrder (cr_serviceAccountAnnotations c)) \<and>
     (\<forall>t \<in> set (tos_taskOptions x). optionInOrder t) \<and> inKeyOrder (tos_plugins x)"

definition tofuSpecFields :: "k8sJson \<Rightarrow> TofuSpec \<Rightarrow> jfield list" where
  "tofuSpecFields K x =
    [omitFalse ''keepLatestPodsOnly'' (tos_keepLatestPodsOnly x),
     omitFalse ''keepCompletedPods'' (tos_keepCompletedPods x),
     omitNil ''outputsSecret'' strCodec (tos_outputsSecret x),
     omitNil ''outputsToInclude'' (listCodec strCodec) (tos_outputsToInclude x),
     omitNil ''outputsToOmit'' (listCodec strCodec) (tos_outputsToOmit x),
     omitFalse ''writeOutputsToStatus'' (tos_writeOutputsToStatus x),
     omitPtr ''persistentVolumeSize'' (kj_quantity K) (tos_persistentVolumeSize x),
     omitPtr ''storageClassName'' strCodec (tos_storageClassName x),
     omitNil ''serviceAccount'' strCodec (tos_serviceAccount x),
     omitNil ''credentials'' (listCodec credentialsCodec) (tos_credentials x),
     omitFalse ''ignoreDelete'' (tos_ignoreDelete x), omitPtr ''sshTunnel'' proxyOptsCodec (tos_sshTunnel x),
     omitNil ''scmAuthMethods'' (listCodec scmAuthMethodCodec) (tos_scmAuthMethods x),
     omitPtr ''images'' tofuImagesCodec (tos_images x), omitPtr ''setup'' setupSpecCodec (tos_setup x),
     field ''tofuModule'' moduleCodec (tos_module x), field ''tofuVersion'' strCodec (tos_version x),
     field ''backend'' strCodec (tos_backend x),
     omitNil ''taskOptions'' (listCodec (taskOptionCodec K)) (tos_taskOptions x),
     omitNil ''plugins'' (mapCodec pluginCodec) (tos_plugins x),
     omitFalse ''requireApproval'' (tos_requireApproval x)]"

definition tofuSpecOf :: "k8sJson \<Rightarrow> (string \<times> json) list \<Rightarrow> TofuSpec option" where
  "tofuSpecOf K ms = do {
     v0 \<leftarrow> fetch boolCodec ms ''keepLatestPodsOnly'';
     v1 \<leftarrow> fetch boolCodec ms ''keepCompletedPods'';
     v2 \<leftarrow> fetch strCodec ms ''outputsSecret'';
     v3 \<leftarrow> fetch (listCodec strCodec) ms ''outputsToInclude'';
     v4 \<leftarrow> fetch (listCodec strCodec) ms ''outputsToOmit'';
     v5 \<leftarrow> fetch boolCodec ms ''writeOutputsToStatus'';
     v6 \<leftarrow> fetch (ptrCodec (kj_quantity K)) ms ''persistentVolumeSize'';
     v7 \<leftarrow> fetch (ptrCodec strCodec) ms ''storageClassName'';
     v8 \<leftarrow> fetch strCodec ms ''serviceAccount'';
     v9 \<leftarrow> fetch (listCodec credentialsCodec) ms ''credentials'';
     v10 \<leftarrow> fetch boolCodec ms ''ignoreDelete'';
     v11 \<leftarrow> fetch (ptrCodec proxyOptsCodec) ms ''sshTunnel'';
     v12 \<leftarrow> fetch (listCodec scmAuthMethodCodec) ms ''scmAuthMethods'';
     v13 \<leftarrow> fetch (ptrCodec tofuImagesCodec) ms ''images'';
     v14 \<leftarrow> fetch (ptrCodec setupSpecCodec) ms ''setup'';
     v15 \<leftarrow> fetch moduleCodec ms ''tofuModule''; v16 \<leftarrow> fetch strCodec ms ''tofuVersion'';
     v17 \<leftarrow> fetch strCodec ms ''backend'';
     v18 \<leftarrow> fetch (listCodec (taskOptionCodec K)) ms ''taskOptions'';
     v19 \<leftarrow> fetch (mapCodec pluginCodec) ms ''plugins'';
     v20 \<leftarrow> fetch boolCodec ms ''requireApproval'';
     Some \<lparr>tos_keepLatestPodsOnly = v0, tos_keepCompletedPods = v1, tos_outputsSecret = v2,
       tos_outputsToInclude = v3, tos_outputsToOmit = v4, tos_writeOutputsToStatus = v5,
       tos_persistentVolumeSize = v6, tos_storageClassName = v7, tos_serviceAccount = v8, tos_credentials = v9,
       tos_ignoreDelete = v10, tos_sshTunnel = v11, tos_scmAuthMethods = v12, tos_images = v13,
       tos_setup = v14, tos_module = v15, tos_version = v16, tos_backend = v17, tos_taskOptions = v18,
       tos_plugins = v19, tos_requireApproval = v20\<rparr>}"

definition tofuSpecMarshal :: "k8sJson \<Rightarrow> TofuSpec \<Rightarrow> jfield list" where
  "tofuSpecMarshal K x = embedded (tofuSpecFields K x)
    [field ''keepLatestPodsOnly'' boolCodec (tos_keepLatestPodsOnly x),
     field ''keepCompletedPods'' boolCodec (tos_keepCompletedPods x),
     field ''writeOutputsToStatus'' boolCodec (tos_writeOutputsToStatus x),
     field ''ignoreDelete'' boolCodec (tos_ignoreDelete x),
     field ''requireApproval'' boolCodec (tos_requireApproval x),
     field ''taskOptions'' (listCodec (taskOptionCodec K)) (tos_taskOptions x)]"

definition tofuSpecCodec :: "k8sJson \<Rightarrow> TofuSpec codec" where
  "tofuSpecCodec K = structCodec (tofuSpecMarshal K) (tofuSpecOf K)"

lemma keeps_tofuSpec [codec_simps]: "k8s_json_law K \<Longrightarrow> tofuSpecInOrder x \<Longrightarrow> keeps_value (tofuSpecCodec K) x"
  by (cases x) (simp add: tofuSpecCodec_def tofuSpecFields_def tofuSpecOf_def tofuSpecMarshal_def embedded_def tofuSpecInOrder_def codec_simps)

section \<open>The statuses\<close>

definition stageFields :: "k8sJson \<Rightarrow> Stage \<Rightarrow> jfield list" where
  "stageFields K x =
    [field ''generation'' intCodec (stg_generation x), field ''state'' strCodec (stg_state x),
     field ''podType'' strCodec (stg_taskType x), field ''interruptible'' boolCodec (stg_interruptible x),
     field ''reason'' strCodec (stg_reason x), field ''startTime'' (kj_time K) (stg_startTime x),
     field ''stopTime'' (kj_time K) (stg_stopTime x), omitNil ''message'' strCodec (stg_message x),
     omitNil ''podName'' strCodec (stg_podName x), omitNil ''podUID'' strCodec (stg_podUID x)]"

definition stageOf :: "k8sJson \<Rightarrow> (string \<times> json) list \<Rightarrow> Stage option" where
  "stageOf K ms = do {
     v0 \<leftarrow> fetch intCodec ms ''generation''; v1 \<leftarrow> fetch strCodec ms ''state'';
     v2 \<leftarrow> fetch strCodec ms ''podType''; v3 \<leftarrow> fetch boolCodec ms ''interruptible'';
     v4 \<leftarrow> fetch strCodec ms ''reason''; v5 \<leftarrow> fetch (kj_time K) ms ''startTime'';
     v6 \<leftarrow> fetch (kj_time K) ms ''stopTime''; v7 \<leftarrow> fetch strCodec ms ''message'';
     v8 \<leftarrow> fetch strCodec ms ''podName''; v9 \<leftarrow> fetch strCodec ms ''podUID'';
     Some \<lparr>stg_generation = v0, stg_state = v1, stg_taskType = v2, stg_interruptible = v3, stg_reason = v4,
       stg_startTime = v5, stg_stopTime = v6, stg_message = v7, stg_podName = v8, stg_podUID = v9\<rparr>}"

definition stageCodec :: "k8sJson \<Rightarrow> Stage codec" where
  "stageCodec K = structCodec (stageFields K) (stageOf K)"

lemma keeps_stage [codec_simps]: "k8s_json_law K \<Longrightarrow> keeps_value (stageCodec K) x"
  by (cases x) (simp add: stageCodec_def stageFields_def stageOf_def codec_simps)

definition terraformStatusFields :: "k8sJson \<Rightarrow> TerraformStatus \<Rightarrow> jfield list" where
  "terraformStatusFields K x =
    [field ''podNamePrefix'' strCodec (tfst_podNamePrefix x), field ''phase'' strCodec (tfst_phase x),
     field ''lastCompletedGeneration'' intCodec (tfst_lastCompletedGeneration x),
     omitNil ''outputs'' (mapCodec strCodec) (tfst_outputs x), field ''stage'' (stageCodec K) (tfst_stage x),
     omitNil ''pluginsStarted'' (listCodec strCodec) (tfst_pluginsStarted x),
     omitPtr ''retryEventReason'' strCodec (tfst_retryEventReason x),
     omitPtr ''retryTimestamp'' (kj_time K) (tfst_retryTimestamp x)]"

definition terraformStatusOf :: "k8sJson \<Rightarrow> (string \<times> json) list \<Rightarrow> TerraformStatus option" where
  "terraformStatusOf K ms = do {
     v0 \<leftarrow> fetch strCodec ms ''podNamePrefix''; v1 \<leftarrow> fetch strCodec ms ''phase'';
     v2 \<leftarrow> fetch intCodec ms ''lastCompletedGeneration'';
     v3 \<leftarrow> fetch (mapCodec strCodec) ms ''outputs'';
     v4 \<leftarrow> fetch (stageCodec K) ms ''stage'';
     v5 \<leftarrow> fetch (listCodec strCodec) ms ''pluginsStarted'';
     v6 \<leftarrow> fetch (ptrCodec strCodec) ms ''retryEventReason'';
     v7 \<leftarrow> fetch (ptrCodec (kj_time K)) ms ''retryTimestamp'';
     Some \<lparr>tfst_podNamePrefix = v0, tfst_phase = v1, tfst_lastCompletedGeneration = v2, tfst_outputs = v3,
       tfst_stage = v4, tfst_pluginsStarted = v5, tfst_retryEventReason = v6, tfst_retryTimestamp = v7\<rparr>}"

definition terraformStatusCodec :: "k8sJson \<Rightarrow> TerraformStatus codec" where
  "terraformStatusCodec K = structCodec (terraformStatusFields K) (terraformStatusOf K)"

lemma keeps_terraformStatus [codec_simps]: "k8s_json_law K \<Longrightarrow> inKeyOrder (tfst_outputs x) \<Longrightarrow> tfst_retryTimestamp x \<noteq> Some 0 \<Longrightarrow> keeps_value (terraformStatusCodec K) x"
  by (cases x) (simp add: terraformStatusCodec_def terraformStatusFields_def terraformStatusOf_def codec_simps)

definition tofuStatusFields :: "k8sJson \<Rightarrow> TofuStatus \<Rightarrow> jfield list" where
  "tofuStatusFields K x =
    [field ''podNamePrefix'' strCodec (tost_podNamePrefix x), field ''phase'' strCodec (tost_phase x),
     field ''lastCompletedGeneration'' intCodec (tost_lastCompletedGeneration x),
     omitNil ''outputs'' (mapCodec strCodec) (tost_outputs x), field ''stage'' (stageCodec K) (tost_stage x),
     omitNil ''pluginsStarted'' (listCodec strCodec) (tost_pluginsStarted x),
     omitPtr ''retryEventReason'' strCodec (tost_retryEventReason x),
     omitPtr ''retryTimestamp'' (kj_time K) (tost_retryTimestamp x)]"

definition tofuStatusOf :: "k8sJson \<Rightarrow> (string \<times> json) list \<Rightarrow> TofuStatus option" where
  "tofuStatusOf K ms = do {
     v0 \<leftarrow> fetch strCodec ms ''podNamePrefix''; v1 \<leftarrow> fetch strCodec ms ''phase'';
     v2 \<leftarrow> fetch intCodec ms ''lastCompletedGeneration'';
     v3 \<leftarrow> fetch (mapCodec strCodec) ms ''outputs'';
     v4 \<leftarrow> fetch (stageCodec K) ms ''stage'';
     v5 \<leftarrow> fetch (listCodec strCodec) ms ''pluginsStarted'';
     v6 \<leftarrow> fetch (ptrCodec strCodec) ms ''retryEventReason'';
     v7 \<leftarrow> fetch (ptrCodec (kj_time K)) ms ''retryTimestamp'';
     Some \<lparr>tost_podNamePrefix = v0, tost_phase = v1, tost_lastCompletedGeneration = v2, tost_outputs = v3,
       tost_stage = v4, tost_pluginsStarted = v5, tost_retryEventReason = v6, tost_retryTimestamp = v7\<rparr>}"

definition tofuStatusCodec :: "k8sJson \<Rightarrow> TofuStatus codec" where
  "tofuStatusCodec K = structCodec (tofuStatusFields K) (tofuStatusOf K)"

lemma keeps_tofuStatus [codec_simps]: "k8s_json_law K \<Longrightarrow> inKeyOrder (tost_outputs x) \<Longrightarrow> tost_retryTimestamp x \<noteq> Some 0 \<Longrightarrow> keeps_value (tofuStatusCodec K) x"
  by (cases x) (simp add: tofuStatusCodec_def tofuStatusFields_def tofuStatusOf_def codec_simps)

end
