(* ===== verification/JsonPatch.thy ===== *)
theory JsonPatch
  imports JsonTypes
begin

text \<open>
  Why the types have \<open>MarshalJSON\<close>: what is written can be read back, and a merge patch made
  from a spec switches flags off as well as on.
\<close>

section \<open>Merge patches\<close>

fun member :: "json \<Rightarrow> string \<Rightarrow> json option" where
  "member (JObj ms) k = map_of (rev ms) k"
| "member _ k = None"

text \<open>
  What RFC 7386 documents of the merge the API server does for a patch: a value that is no
  object replaces what was there, \<open>null\<close> removes a member, an object is merged member by
  member, and a member the patch does not name stays.
\<close>

definition merge_patch_law :: "(json \<Rightarrow> json \<Rightarrow> json) \<Rightarrow> bool" where
  "merge_patch_law merge \<longleftrightarrow>
     (\<forall>doc v. (\<forall>ms. v \<noteq> JObj ms) \<longrightarrow> merge doc v = v) \<and>
     (\<forall>doc ms k. distinct (map fst ms) \<longrightarrow> member (merge doc (JObj ms)) k =
        (case member (JObj ms) k of
           None \<Rightarrow> member doc k
         | Some v \<Rightarrow> if v = JNull then None else Some (merge (case member doc k of None \<Rightarrow> JNull | Some w \<Rightarrow> w) v)))"

fun membersOf :: "json \<Rightarrow> (string \<times> json) list" where
  "membersOf (JObj ms) = ms"
| "membersOf _ = []"

function mergePatch :: "json \<Rightarrow> json \<Rightarrow> json" and mergeMembers :: "json \<Rightarrow> (string \<times> json) list \<Rightarrow> (string \<times> json) list" where
  "mergePatch doc v = (case v of
     JObj ms \<Rightarrow> JObj (filter (\<lambda>m. fst m \<notin> set (map fst ms)) (membersOf doc) @ mergeMembers doc ms)
   | _ \<Rightarrow> v)"
| "mergeMembers doc [] = []"
| "mergeMembers doc ((k, v) # ms) =
     (if v = JNull then mergeMembers doc ms
      else (k, mergePatch (case member doc k of None \<Rightarrow> JNull | Some w \<Rightarrow> w) v) # mergeMembers doc ms)"
  by pat_completeness auto

termination by size_change

declare mergePatch.simps [simp del]

lemma mergeMembers_keys: "set (map fst (mergeMembers doc ms)) \<subseteq> set (map fst ms)"
  by (induction ms) (force split: if_splits)+

lemma member_written:
  "distinct (map fst fs) \<Longrightarrow> member (JObj (written fs)) k = (case map_of fs k of None \<Rightarrow> None | Some v \<Rightarrow> v)"
  by (simp add: written_at)

lemma mergeMembers_at:
  assumes "distinct (map fst ms)"
  shows "map_of (rev (mergeMembers doc ms)) k =
    (case map_of ms k of None \<Rightarrow> None
     | Some v \<Rightarrow> if v = JNull then None
         else Some (mergePatch (case member doc k of None \<Rightarrow> JNull | Some w \<Rightarrow> w) v))"
  using assms
proof (induction ms)
  case (Cons m ms)
  obtain k' v where m: "m = (k', v)" by (cases m)
  have "k' \<notin> set (map fst (mergeMembers doc ms))" using mergeMembers_keys [of doc ms] Cons.prems m by auto
  then have "map_of (rev (mergeMembers doc ms)) k' = None" by (simp add: map_of_eq_None_iff)
  moreover have "map_of ms k' = None" using Cons.prems m by (simp add: map_of_eq_None_iff)
  ultimately show ?case using Cons m by (simp add: map_add_def split: option.split)
qed simp

lemma member_membersOf: "member doc k = map_of (rev (membersOf doc)) k"
  by (cases doc) simp_all

lemma mergePatch_law: "merge_patch_law mergePatch"
  unfolding merge_patch_law_def
proof (intro conjI allI impI)
  fix doc v assume "\<forall>ms. v \<noteq> JObj ms"
  then show "mergePatch doc v = v" by (cases v) (simp_all add: mergePatch.simps)
next
  fix doc k and ms :: "(string \<times> json) list" assume d: "distinct (map fst ms)"
  have f: "map_of (rev (filter (\<lambda>m. fst m \<notin> set (map fst ms)) l)) k = (if k \<in> set (map fst ms) then None else map_of (rev l) k)"
    for l :: "(string \<times> json) list"
    by (induction l) (auto simp: map_add_def split: option.splits)
  show "member (mergePatch doc (JObj ms)) k =
      (case member (JObj ms) k of None \<Rightarrow> member doc k
       | Some v \<Rightarrow> if v = JNull then None
           else Some (mergePatch (case member doc k of None \<Rightarrow> JNull | Some w \<Rightarrow> w) v))"
  proof (cases "map_of ms k")
    case None
    then have "k \<notin> set (map fst ms)" by (simp add: map_of_eq_None_iff)
    then show ?thesis using None f mergeMembers_at [OF d, of doc k]
      by (simp add: mergePatch.simps map_of_rev_distinct [OF d] map_add_def member_membersOf)
  next
    case (Some v)
    then have "k \<in> set (map fst ms)" by (metis map_of_eq_None_iff option.distinct(1) set_map)
    then show ?thesis using Some f mergeMembers_at [OF d, of doc k]
      by (simp add: mergePatch.simps map_of_rev_distinct [OF d] map_add_def)
  qed
qed

section \<open>What a patch leaves\<close>

text \<open>The flags of a spec, by the names of their members.\<close>

definition terraformFlags :: "TerraformSpec \<Rightarrow> (string \<times> bool) list" where
  "terraformFlags x = [(''keepLatestPodsOnly'', tfs_keepLatestPodsOnly x), (''keepCompletedPods'', tfs_keepCompletedPods x),
     (''writeOutputsToStatus'', tfs_writeOutputsToStatus x), (''ignoreDelete'', tfs_ignoreDelete x),
     (''requireApproval'', tfs_requireApproval x)]"

definition tofuFlags :: "TofuSpec \<Rightarrow> (string \<times> bool) list" where
  "tofuFlags x = [(''keepLatestPodsOnly'', tos_keepLatestPodsOnly x), (''keepCompletedPods'', tos_keepCompletedPods x),
     (''writeOutputsToStatus'', tos_writeOutputsToStatus x), (''ignoreDelete'', tos_ignoreDelete x),
     (''requireApproval'', tos_requireApproval x)]"

lemma merge_replaces:
  assumes "merge_patch_law merge" and "distinct (map fst fs)" and "map_of fs k = Some (Some v)"
    and "v \<noteq> JNull" and "\<forall>ms. v \<noteq> JObj ms"
  shows "member (merge doc (JObj (written fs))) k = Some v"
  using assms by (simp add: merge_patch_law_def written_distinct member_written del: member.simps)

lemma merge_keeps:
  assumes "merge_patch_law merge" and "distinct (map fst fs)" and "map_of fs k = Some None"
  shows "member (merge doc (JObj (written fs))) k = member doc k"
  using assms by (simp add: merge_patch_law_def written_distinct member_written del: member.simps)

lemma merge_removes:
  assumes "merge_patch_law merge" and "distinct (map fst fs)" and "map_of fs k = Some (Some JNull)"
  shows "member (merge doc (JObj (written fs))) k = None"
  using assms by (simp add: merge_patch_law_def written_distinct member_written del: member.simps)

lemma merge_descends:
  assumes "merge_patch_law merge" and "distinct (map fst fs)" and "map_of fs k = Some (Some (JObj ms))"
  shows "member (merge doc (JObj (written fs))) k =
    Some (merge (case member doc k of None \<Rightarrow> JNull | Some w \<Rightarrow> w) (JObj ms))"
  using assms by (simp add: merge_patch_law_def written_distinct member_written del: member.simps)

lemma marshal_distinct:
  "distinct (map fst (terraformSpecMarshal K s))" "distinct (map fst (tofuSpecMarshal K t))"
  "distinct (map fst (setupSpecMarshal su))"
  by (simp_all add: terraformSpecMarshal_def terraformSpecFields_def tofuSpecMarshal_def tofuSpecFields_def
      setupSpecMarshal_def setupSpecFields_def embedded_def codec_simps)

lemma marshal_flags:
  "(k, b) \<in> set (terraformFlags s) \<Longrightarrow> map_of (terraformSpecMarshal K s) k = Some (Some (JBool b))"
  "(k, b) \<in> set (tofuFlags t) \<Longrightarrow> map_of (tofuSpecMarshal K t) k = Some (Some (JBool b))"
  "map_of (setupSpecMarshal su) ''cleanupDisk'' = Some (Some (JBool (su_cleanupDisk su)))"
  by (auto simp: terraformFlags_def terraformSpecMarshal_def terraformSpecFields_def tofuFlags_def tofuSpecMarshal_def
      tofuSpecFields_def setupSpecMarshal_def setupSpecFields_def embedded_def boolCodec_def codec_simps)

lemma marshal_options:
  "map_of (terraformSpecMarshal K s) ''taskOptions'' = Some (Some (enc (listCodec (taskOptionCodec K)) (tfs_taskOptions s)))"
  "map_of (tofuSpecMarshal K t) ''taskOptions'' = Some (Some (enc (listCodec (taskOptionCodec K)) (tos_taskOptions t)))"
  by (simp_all add: terraformSpecMarshal_def terraformSpecFields_def tofuSpecMarshal_def tofuSpecFields_def embedded_def codec_simps)

lemma marshal_setup:
  "map_of (terraformSpecMarshal K s) ''setup'' = Some (map_option (\<lambda>su. JObj (written (setupSpecMarshal su))) (tfs_setup s))"
  "map_of (tofuSpecMarshal K t) ''setup'' = Some (map_option (\<lambda>su. JObj (written (setupSpecMarshal su))) (tos_setup t))"
  by (simp_all add: terraformSpecMarshal_def terraformSpecFields_def tofuSpecMarshal_def tofuSpecFields_def embedded_def
      setupSpecCodec_def structCodec_def codec_simps)

section \<open>The Kubernetes types of an example\<close>

text \<open>Codecs that keep every value: arrays of texts, told apart by their shape.\<close>

definition policyRuleCodec :: "PolicyRule codec" where
  "policyRuleCodec = structCodec
     (\<lambda>x. [field ''verbs'' (listCodec strCodec) (pr_verbs x), omitNil ''apiGroups'' (listCodec strCodec) (pr_apiGroups x),
       omitNil ''resources'' (listCodec strCodec) (pr_resources x), omitNil ''resourceNames'' (listCodec strCodec) (pr_resourceNames x)])
     (\<lambda>ms. do {v \<leftarrow> fetch (listCodec strCodec) ms ''verbs''; g \<leftarrow> fetch (listCodec strCodec) ms ''apiGroups'';
       r \<leftarrow> fetch (listCodec strCodec) ms ''resources''; n \<leftarrow> fetch (listCodec strCodec) ms ''resourceNames'';
       Some \<lparr>pr_verbs = v, pr_apiGroups = g, pr_resources = r, pr_resourceNames = n\<rparr>})"

definition opaqueCodec :: "opaque codec" where
  "opaqueCodec = \<lparr>enc = (\<lambda>x. case x of Opaque s \<Rightarrow> JStr s),
     dec = (\<lambda>j. case j of Some (JStr s) \<Rightarrow> Some (Opaque s) | _ \<Rightarrow> None)\<rparr>"

definition envFromCodec :: "EnvFromSource codec" where
  "envFromCodec = \<lparr>enc = (\<lambda>x. case x of ConfigMapRef s \<Rightarrow> JArr [JStr s] | SecretRef s \<Rightarrow> JArr [JNull, JStr s]
       | OtherEnvFrom v \<Rightarrow> enc opaqueCodec v),
     dec = (\<lambda>j. case j of Some (JArr [JStr s]) \<Rightarrow> Some (ConfigMapRef s) | Some (JArr [JNull, JStr s]) \<Rightarrow> Some (SecretRef s)
       | _ \<Rightarrow> map_option OtherEnvFrom (dec opaqueCodec j))\<rparr>"

definition envVarCodec :: "EnvVar codec" where
  "envVarCodec = \<lparr>enc = (\<lambda>x. case x of EnvValue n v \<Rightarrow> JArr [JStr n, JStr v] | EnvFieldRef n p \<Rightarrow> JArr [JStr n, JNull, JStr p]
       | EnvOther n v \<Rightarrow> JArr [JStr n, JNull, JNull, enc opaqueCodec v]),
     dec = (\<lambda>j. case j of Some (JArr [JStr n, JStr v]) \<Rightarrow> Some (EnvValue n v)
       | Some (JArr [JStr n, JNull, JStr p]) \<Rightarrow> Some (EnvFieldRef n p)
       | Some (JArr [JStr n, JNull, JNull, v]) \<Rightarrow> map_option (EnvOther n) (dec opaqueCodec (Some v)) | _ \<Rightarrow> None)\<rparr>"

definition keyToPathCodec :: "KeyToPath codec" where
  "keyToPathCodec = \<lparr>enc = (\<lambda>x. JArr [JStr (kp_key x), JStr (kp_path x), JNum (kp_mode x)]),
     dec = (\<lambda>j. case j of Some (JArr [JStr k, JStr p, JNum m]) \<Rightarrow> Some \<lparr>kp_key = k, kp_path = p, kp_mode = m\<rparr> | _ \<Rightarrow> None)\<rparr>"

definition volumeSourceCodec :: "VolumeSource codec" where
  "volumeSourceCodec = \<lparr>enc = (\<lambda>x. case x of PVCSource c r \<Rightarrow> JArr [JStr c, JBool r] | ConfigMapSource c \<Rightarrow> JArr [JStr c]
       | SecretSource n m z items \<Rightarrow> JArr [JStr n, JBool z, enc (ptrCodec intCodec) m, enc (listCodec keyToPathCodec) items]
       | OtherSource v \<Rightarrow> enc opaqueCodec v),
     dec = (\<lambda>j. case j of Some (JArr [JStr c, JBool r]) \<Rightarrow> Some (PVCSource c r) | Some (JArr [JStr c]) \<Rightarrow> Some (ConfigMapSource c)
       | Some (JArr [JStr n, JBool z, m, items]) \<Rightarrow> do {m' \<leftarrow> dec (ptrCodec intCodec) (Some m);
           items' \<leftarrow> dec (listCodec keyToPathCodec) (Some items); Some (SecretSource n m' z items')}
       | _ \<Rightarrow> map_option OtherSource (dec opaqueCodec j))\<rparr>"

definition volumeCodec :: "Volume codec" where
  "volumeCodec = \<lparr>enc = (\<lambda>x. JArr [JStr (vol_name x), enc volumeSourceCodec (vol_source x)]),
     dec = (\<lambda>j. case j of Some (JArr [JStr n, v]) \<Rightarrow> map_option (\<lambda>src. \<lparr>vol_name = n, vol_source = src\<rparr>) (dec volumeSourceCodec (Some v))
       | _ \<Rightarrow> None)\<rparr>"

definition volumeMountCodec :: "VolumeMount codec" where
  "volumeMountCodec = \<lparr>enc = (\<lambda>x. JArr [JStr (vm_name x), JStr (vm_mountPath x), enc opaqueCodec (vm_rest x)]),
     dec = (\<lambda>j. case j of Some (JArr [JStr n, JStr p, v]) \<Rightarrow>
         map_option (\<lambda>r. \<lparr>vm_name = n, vm_mountPath = p, vm_rest = r\<rparr>) (dec opaqueCodec (Some v))
       | _ \<Rightarrow> None)\<rparr>"

definition timeCodec :: "int codec" where
  "timeCodec = \<lparr>enc = (\<lambda>t. if t = 0 then JNull else JNum t), dec = dec intCodec\<rparr>"

definition exampleJson :: k8sJson where
  "exampleJson = \<lparr>kj_policyRule = policyRuleCodec, kj_envFrom = envFromCodec, kj_envVar = envVarCodec,
     kj_resources = opaqueCodec, kj_volume = volumeCodec, kj_volumeMount = volumeMountCodec,
     kj_quantity = strCodec, kj_time = timeCodec\<rparr>"

lemma opaque_law: "codec_law opaqueCodec" "dec opaqueCodec (Some (enc opaqueCodec v)) = Some v"
  by (simp_all add: codec_law_def keeps_value_def opaqueCodec_def split: opaque.splits)

lemma source_law: "codec_law volumeSourceCodec"
proof -
  have k: "keeps_value keyToPathCodec x" for x
    by (cases x) (simp add: keeps_value_def keyToPathCodec_def)
  have "keeps_value (ptrCodec intCodec) m" "keeps_value (listCodec keyToPathCodec) items" for m items
    by (simp_all add: codec_simps k)
  then have d: "dec (ptrCodec intCodec) (Some (enc (ptrCodec intCodec) m)) = Some m"
    "dec (listCodec keyToPathCodec) (Some (enc (listCodec keyToPathCodec) items)) = Some items" for m items
    by (simp_all add: codec_simps)
  have "keeps_value volumeSourceCodec x \<and> enc volumeSourceCodec x \<noteq> JNull" for x
  proof (cases x)
    case (OtherSource v)
    then show ?thesis by (cases v) (simp add: keeps_value_def volumeSourceCodec_def opaqueCodec_def)
  qed (simp_all add: keeps_value_def volumeSourceCodec_def d)
  then show ?thesis by (simp add: codec_law_def)
qed

lemma example_json_law: "k8s_json_law exampleJson"
proof -
  have "codec_law policyRuleCodec" unfolding codec_law_def
  proof
    fix x show "keeps_value policyRuleCodec x \<and> enc policyRuleCodec x \<noteq> JNull"
      by (cases x) (simp add: policyRuleCodec_def codec_simps)
  qed
  moreover have "codec_law envFromCodec" "codec_law envVarCodec" "codec_law volumeMountCodec"
    using opaque_law(2)
    by (auto simp: codec_law_def keeps_value_def envFromCodec_def envVarCodec_def volumeMountCodec_def opaqueCodec_def
        split: EnvFromSource.splits EnvVar.splits opaque.splits)
  moreover have "codec_law volumeCodec"
    using source_law by (auto simp: codec_law_def keeps_value_def volumeCodec_def)
  moreover have "codec_law strCodec" by (simp add: codec_law_def codec_simps)
  moreover have "keeps_value timeCodec t \<and> (t \<noteq> 0 \<longrightarrow> enc timeCodec t \<noteq> JNull)" for t
    by (simp add: keeps_value_def timeCodec_def intCodec_def)
  ultimately show ?thesis by (simp add: k8s_json_law_def exampleJson_def opaque_law)
qed

definition exampleRule :: PolicyRule where
  "exampleRule = \<lparr>pr_verbs = [''get''], pr_apiGroups = [], pr_resources = [''pods''], pr_resourceNames = []\<rparr>"

definition exampleOption :: TaskOption where
  "exampleOption = \<lparr>topt_for = [''*''], topt_policyRules = [exampleRule], topt_labels = [(''a'', ''1''), (''b'', ''2'')],
     topt_annotations = [], topt_envFrom = [SecretRef ''aws''], topt_env = [EnvValue ''TF_LOG'' ''debug''],
     topt_resources = None, topt_script = \<lparr>ss_source = [], ss_configMapSelector = None, ss_inline = ''echo''\<rparr>,
     topt_restartPolicy = ''Never'', topt_volumes = [\<lparr>vol_name = ''v'', vol_source = ConfigMapSource ''cm''\<rparr>], topt_volumeMounts = []\<rparr>"

text \<open>The example's spec with a task option, a plugin, a set-up and flags of both values.\<close>

definition exampleFlagged :: TerraformSpec where
  "exampleFlagged = exampleTfSpec\<lparr>tfs_keepCompletedPods := True, tfs_taskOptions := [exampleOption],
     tfs_setup := Some \<lparr>su_resourceDownloads = [\<lparr>rd_address = ''https://example.com/a.tfvars'', rd_path = [], rd_useAsVar = True\<rparr>],
       su_cleanupDisk = False\<rparr>,
     tfs_plugins := [(''cost'', \<lparr>pl_imageConfig = \<lparr>ic_image = ''cost:1'', ic_imagePullPolicy = []\<rparr>,
       pl_when = ''After'', pl_task = ''plan'', pl_must = False\<rparr>)]\<rparr>"

section \<open>Properties\<close>




definition keptTrue :: json where
  "keptTrue = JObj [(''ignoreDelete'', JBool True), (''keepCompletedPods'', JBool False), (''backend'', JStr ''x'')]"


text \<open>The tags alone would lose a flag that is switched off: the stored value stays.\<close>

lemma tags_alone_keep_true:
  assumes "merge_patch_law merge" and "\<not> tfs_ignoreDelete s"
  shows "member (merge doc (JObj (written (terraformSpecFields K s)))) ''ignoreDelete'' = member doc ''ignoreDelete''"
proof (rule merge_keeps [OF assms(1)])
  show "distinct (map fst (terraformSpecFields K s))"
    by (simp add: terraformSpecFields_def codec_simps)
  show "map_of (terraformSpecFields K s) ''ignoreDelete'' = Some None"
    using assms(2) by (simp add: terraformSpecFields_def codec_simps unless_def)
qed

text \<open>
  The same happens to the one flag \<open>MarshalJSON\<close> has forgotten: the secret reference of the
  tunnel has none, so a patch cannot take its \<open>lockSecretDeletion\<close> back.
\<close>

lemma tunnel_lock_stays:
  assumes "merge_patch_law merge" and "tfs_sshTunnel s = Some px"
    and "\<not> sk_lockSecretDeletion (px_sshKeySecretRef px)"
    and "member doc ''sshTunnel'' = Some tunnel" and "member tunnel ''sshKeySecretRef'' = Some ref"
    and "member ref ''lockSecretDeletion'' = Some (JBool True)"
    and "after = merge doc (enc (terraformSpecCodec K) s)"
  shows "\<exists>tunnel' ref'. member after ''sshTunnel'' = Some tunnel' \<and> member tunnel' ''sshKeySecretRef'' = Some ref' \<and>
    member ref' ''lockSecretDeletion'' = Some (JBool True)"
proof -
  let ?px = "proxyOptsFields px" and ?sk = "sshKeySecretRefFields (px_sshKeySecretRef px)"
  have e: "after = merge doc (JObj (written (terraformSpecMarshal K s)))"
    by (simp add: assms(7) terraformSpecCodec_def structCodec_def)
  have "map_of (terraformSpecMarshal K s) ''sshTunnel'' = Some (Some (JObj (written ?px)))"
    using assms(2) by (simp add: terraformSpecMarshal_def terraformSpecFields_def embedded_def proxyOptsCodec_def structCodec_def codec_simps)
  from merge_descends [OF assms(1) marshal_distinct(1) this]
  have 1: "member after ''sshTunnel'' = Some (merge tunnel (JObj (written ?px)))" by (simp add: e assms(4))
  have "distinct (map fst ?px)" "map_of ?px ''sshKeySecretRef'' = Some (Some (JObj (written ?sk)))"
    by (simp_all add: proxyOptsFields_def sshKeySecretRefCodec_def structCodec_def codec_simps)
  from merge_descends [OF assms(1) this]
  have 2: "member (merge tunnel (JObj (written ?px))) ''sshKeySecretRef'' = Some (merge ref (JObj (written ?sk)))" by (simp add: assms(5))
  have "distinct (map fst ?sk)" "map_of ?sk ''lockSecretDeletion'' = Some None"
    using assms(3) by (simp_all add: sshKeySecretRefFields_def codec_simps unless_def)
  from merge_keeps [OF assms(1) this] 1 2 assms(6) show ?thesis by simp
qed

end
