(* ===== verification/FileHelpers.thy ===== *)
theory FileHelpers
  imports GoPath
begin

text \<open>
  The helpers of \<open>pkg/utils/utils.go\<close> for files and directories, over the calls of the
  operating system they make. Nothing in the repository calls them.
\<close>

section \<open>The operating system\<close>

text \<open>
  \<open>os.FileInfo\<close>: the type bits of the mode (\<open>Mode() & os.ModeType\<close>), its permission bits, the
  owner, and whether \<open>Sys()\<close> is a \<open>syscall.Stat_t\<close>. \<open>fs_readDir\<close> lists the entries themselves,
  \<open>fs_stat\<close> answers for the file a path leads to. \<open>fs_open\<close> yields what can be read before the
  end, or before an error.
\<close>

datatype fileType = Regular | Directory | Symlink | OtherType

record fileInfo =
  fi_name :: string
  fi_type :: fileType
  fi_perm :: nat
  fi_uid :: int
  fi_gid :: int
  fi_isStat :: bool

record 'w fsys =
  fs_readDir :: "string \<Rightarrow> ('w, fileInfo list) io"
  fs_stat :: "string \<Rightarrow> ('w, fileInfo) io"
  fs_readlink :: "string \<Rightarrow> ('w, string) io"
  fs_symlink :: "string \<Rightarrow> string \<Rightarrow> ('w, unit) io"
  fs_mkdirAll :: "string \<Rightarrow> nat \<Rightarrow> ('w, unit) io"
  fs_create :: "string \<Rightarrow> ('w, unit) io"
  fs_open :: "string \<Rightarrow> ('w, string \<times> goerr option) io"
  fs_write :: "string \<Rightarrow> string \<Rightarrow> ('w, unit) io"
  fs_lchown :: "string \<Rightarrow> int \<Rightarrow> int \<Rightarrow> ('w, unit) io"
  fs_chmod :: "string \<Rightarrow> fileType \<Rightarrow> nat \<Rightarrow> ('w, unit) io"

section \<open>The helpers\<close>

definition inQuotes :: "string \<Rightarrow> string" where
  "inQuotes s = CHR 0x27 # s @ [CHR 0x27]"

definition Exists :: "'w fsys \<Rightarrow> string \<Rightarrow> ('w, bool) io" where
  "Exists fs filePath = io_try (fs_stat fs filePath) (\<lambda>e. io_return (\<not> IsNotFound e)) (\<lambda>_. io_return True)"

definition CreateIfNotExists :: "'w fsys \<Rightarrow> string \<Rightarrow> nat \<Rightarrow> ('w, unit) io" where
  "CreateIfNotExists fs d perm =
    io_bind (Exists fs d) (\<lambda>found. if found then io_return ()
      else io_try (fs_mkdirAll fs d perm)
        (\<lambda>e. io_throw (ErrMsg (''failed to create directory: '' @ inQuotes d @ '', error: '' @ inQuotes (err_text e))))
        io_return)"

definition CopySymLink :: "'w fsys \<Rightarrow> string \<Rightarrow> string \<Rightarrow> ('w, unit) io" where
  "CopySymLink fs source dest = io_bind (fs_readlink fs source) (\<lambda>link. fs_symlink fs link dest)"

text \<open>The target is created, and so emptied, before the source is opened.\<close>

definition Copy :: "'w fsys \<Rightarrow> string \<Rightarrow> string \<Rightarrow> ('w, unit) io" where
  "Copy fs srcFile dstFile =
    io_bind (fs_create fs dstFile) (\<lambda>_.
    io_bind (fs_open fs srcFile) (\<lambda>(bytes, readErr).
    io_bind (fs_write fs dstFile bytes) (\<lambda>_.
      case readErr of None \<Rightarrow> io_return () | Some e \<Rightarrow> io_throw e)))"

text \<open>One entry of a directory; \<open>copyDir\<close> is the recursive call.\<close>

definition copyEntry :: "'w fsys \<Rightarrow> (string \<Rightarrow> string \<Rightarrow> ('w, unit) io) \<Rightarrow> string \<Rightarrow> string \<Rightarrow> fileInfo \<Rightarrow> ('w, unit) io" where
  "copyEntry fs copyDir scrDir dest entry =
    (let sourcePath = Join [scrDir, fi_name entry]; destPath = Join [dest, fi_name entry] in
     io_bind (fs_stat fs sourcePath) (\<lambda>info.
       if \<not> fi_isStat info
       then io_throw (ErrMsg (''failed to get raw syscall.Stat_t data for '' @ inQuotes sourcePath))
       else io_seq
         ([case fi_type info of
             Directory \<Rightarrow> io_bind (CreateIfNotExists fs destPath 493) (\<lambda>_. copyDir sourcePath destPath)
           | Symlink \<Rightarrow> CopySymLink fs sourcePath destPath
           | _ \<Rightarrow> Copy fs sourcePath destPath,
           fs_lchown fs destPath (fi_uid info) (fi_gid info)] @
          (if fi_type entry \<noteq> Symlink then [fs_chmod fs destPath (fi_type entry) (fi_perm entry)] else []))))"

text \<open>
  \<open>CopyDirectory\<close> calls itself for directories. Its first argument is the number of calls the
  stack has room for; Go ends a program whose stack overflows.
\<close>

fun CopyDirectory :: "nat \<Rightarrow> 'w fsys \<Rightarrow> string \<Rightarrow> string \<Rightarrow> ('w, unit) io" where
  "CopyDirectory 0 fs scrDir dest = io_throw (ErrPanic ''stack overflow'')"
| "CopyDirectory (Suc n) fs scrDir dest =
     io_bind (fs_readDir fs scrDir) (\<lambda>entries. io_seq (map (copyEntry fs (CopyDirectory n fs) scrDir dest) entries))"

section \<open>What they do\<close>

definition file_laws :: "'w fsys \<Rightarrow> ('w \<Rightarrow> string \<Rightarrow> string option) \<Rightarrow> bool" where
  "file_laws fs contents \<longleftrightarrow>
     (\<forall>p w w'. fs_create fs p w = (Inr (), w') \<longrightarrow> contents w' = (contents w)(p \<mapsto> [])) \<and>
     (\<forall>p w b e w'. fs_open fs p w = (Inr (b, e), w') \<longrightarrow> contents w' = contents w \<and> (e = None \<longrightarrow> contents w p = Some b)) \<and>
     (\<forall>p b old w w'. fs_write fs p b w = (Inr (), w') \<longrightarrow> contents w p = Some old \<longrightarrow> contents w' = (contents w)(p \<mapsto> old @ b))"

text \<open>\<open>Copy\<close> makes the target equal to the source, but empties a file that is copied onto itself.\<close>

lemma Copy_copies:
  assumes "file_laws fs contents" and "Copy fs src dst w = (Inr (), w')"
  shows "\<exists>b. (src = dst \<or> contents w src = Some b) \<and> contents w' = (contents w)(dst \<mapsto> if src = dst then [] else b)"
proof -
  obtain w1 where 1: "fs_create fs dst w = (Inr (), w1)"
    using assms(2) by (cases "fs_create fs dst w" rule: prod.exhaust) (auto simp: Copy_def io_bind_def split: sum.splits)
  obtain b e w2 where 2: "fs_open fs src w1 = (Inr (b, e), w2)"
    using assms(2) 1 by (cases "fs_open fs src w1" rule: prod.exhaust) (auto simp: Copy_def io_bind_def split: sum.splits)
  have 3: "fs_write fs dst b w2 = (Inr (), w')" "e = None"
    using assms(2) 1 2
    by (auto simp: Copy_def io_bind_def split: prod.splits sum.splits option.splits)
  have c: "contents w1 = (contents w)(dst \<mapsto> [])" "contents w2 = contents w1" "contents w1 src = Some b"
    using assms(1) 1 2 3(2) unfolding file_laws_def by blast+
  then have "contents w' = (contents w)(dst \<mapsto> b)"
    using assms(1) 3(1) unfolding file_laws_def by fastforce
  then show ?thesis using c by (cases "src = dst") auto
qed

lemma copy_onto_itself_empties:
  "file_laws fs contents \<Longrightarrow> Copy fs p p w = (Inr (), w') \<Longrightarrow> contents w' p = Some []"
  using Copy_copies [of fs contents p p w w'] by auto

text \<open>
  The case for symbolic links is never taken: the type comes from \<open>os.Stat\<close>, which follows
  them. Whatever the calls for links do, \<open>CopyDirectory\<close> does not make them, and a link comes
  out as a copy of what it leads to.
\<close>

lemma links_are_followed:
  assumes "\<forall>p w i w'. fs_stat fs p w = (Inr i, w') \<longrightarrow> fi_type i \<noteq> Symlink"
  shows "CopyDirectory n (fs\<lparr>fs_readlink := rl, fs_symlink := sl\<rparr>) = CopyDirectory n fs"
proof (induction n)
  case (Suc n)
  let ?fs = "fs\<lparr>fs_readlink := rl, fs_symlink := sl\<rparr>"
  have h: "CreateIfNotExists ?fs = CreateIfNotExists fs" "Copy ?fs = Copy fs" "fs_stat ?fs = fs_stat fs"
    "fs_lchown ?fs = fs_lchown fs" "fs_chmod ?fs = fs_chmod fs"
    by (simp_all add: CreateIfNotExists_def Exists_def Copy_def fun_eq_iff cong: if_cong)
  have "copyEntry ?fs copyDir src dest entry w = copyEntry fs copyDir src dest entry w" for copyDir src dest entry w
  proof (cases "fs_stat fs (Join [src, fi_name entry]) w")
    case (Pair r w')
    then show ?thesis
      using assms unfolding copyEntry_def h
      by (cases r) (auto simp: io_bind_def Let_def simp del: Join.simps split: fileType.splits)
  qed
  then have "copyEntry ?fs = copyEntry fs" by (intro ext)
  then show ?case by (intro ext) (simp add: Suc)
qed (simp add: fun_eq_iff)

text \<open>The empty and the missing directory.\<close>

lemma CopyDirectory_empty:
  "fs_readDir fs scrDir w = (Inr [], w') \<Longrightarrow> CopyDirectory (Suc n) fs scrDir dest w = (Inr (), w')"
  "fs_readDir fs scrDir w = (Inl e, w') \<Longrightarrow> CopyDirectory (Suc n) fs scrDir dest w = (Inl e, w')"
  by (simp_all add: io_bind_def)

end
