(* ===== verification/Spec2Isabelle.thy ===== *)
theory Spec2Isabelle
  imports TfLife TofuSafety ReconcileLock ProviderInv Manager Startup JsonPatch FileHelpers
begin

text \<open>
  infrakube: Kubernetes controllers that run Terraform and OpenTofu workflows.

  \<^bold>\<open>The program.\<close> A \<open>Terraform\<close> (or \<open>Tofu\<close>) resource describes a module. Its controller
  (\<open>pkg/controllers/tf_controller.go\<close>, \<open>tofu_controller.go\<close>) moves the resource through the
  stages of a workflow (set-up, init, plan, apply and the scripts between them, and the same
  to destroy), runs one pod for each stage, creates the objects the pods need, starts plugin
  jobs, collects outputs and removes what older generations left. Every event about the
  resource is one call of \<open>reconcile\<close>. \<open>main.go\<close> starts both controllers on one cache, a
  server for downloaded binaries (\<open>cache_server.go\<close>) and, if asked to, a provider that
  makes clusters from kubeconfig secrets (\<open>pkg/multicluster\<close>), so that one controller works
  on many clusters.

  \<^bold>\<open>How the code is read.\<close> An operation that talks to the cluster is a function of the type
  \<open>('w, 'a) io\<close> of \<open>Prelude\<close>: from a state of the world to an error or a value, and the next
  state. A panic is the error \<open>ErrPanic\<close>, which \<open>io_try\<close> does not catch and \<open>io_finally\<close>
  (\<open>defer\<close>) lets pass after its clean-up. The client, the API server behind it, the clock
  and the recorder are the record \<open>kube\<close> of functions on an arbitrary \<open>'w\<close>: every theorem
  holds whatever they answer unless it names the documented behaviour it needs
  (\<open>store_laws\<close>, \<open>tf_store\<close>, \<open>tofu_store\<close>). Pointers that may be nil are options, Go maps are association
  lists, byte strings are strings, \<open>int64\<close> counters that only grow by one are integers.

  \<^bold>\<open>The theories.\<close>
  \<^item> \<open>Prelude\<close>, \<open>GoStd\<close>, \<open>GoMd5\<close>, \<open>GoPath\<close>: errors, state passing, what the source uses of
    Go's standard library (strings, sorting, MD5 on 32-bit words, \<open>path/filepath\<close>).
  \<^item> \<open>Utils\<close>: \<open>pkg/utils\<close> and \<open>helpers.go\<close>; \<open>FileHelpers\<close>: the helpers of \<open>pkg/utils\<close> for files,
    which nothing calls. \<open>KubeTypes\<close>, \<open>ApiTypes\<close>: the objects and the two
    resources (\<open>tf_types.go\<close>, \<open>tofu_types.go\<close>).
  \<^item> \<open>Json\<close>: what the source uses of \<open>encoding/json\<close>. \<open>JsonTypes\<close>: the struct tags of both
    resources and every \<open>MarshalJSON\<close>. \<open>JsonPatch\<close>: specs and statuses survive being written
    and read, and a merge patch carries every flag, also a false one.
  \<^item> \<open>TaskFlow\<close>: \<open>getConfiguredTasks\<close>, \<open>isTaskInterruptable\<close>, \<open>nextTask\<close>; the locale
    \<open>task_order\<close> is interpreted on both orders; the schedule ends and keeps the order.
  \<^item> \<open>TaskOpts\<close>: \<open>newTaskOptions\<close>, \<open>newTofuTaskOptions\<close>. \<open>PodGen\<close>: the \<open>generate\<close> methods and
    \<open>validateVolume\<close>; generated pods are well formed. \<open>Address\<close>: module addresses.
  \<^item> \<open>StageMachine\<close>: the abstract law of the stages (\<open>stage_law\<close>), the life of a resource
    under it and the locale \<open>stage_controller\<close>: nothing is applied without a completed plan.
  \<^item> \<open>KubeClient\<close>, \<open>Objects\<close>: the parameter \<open>kube\<close>, fetching with retries, the patterns to
    check, delete and create objects, the laws of an API server nobody else writes to, the
    locale \<open>object_maker\<close>. \<open>MemCluster\<close> is a cluster in memory that keeps all laws; the
    witnesses run on it. \<open>Frame\<close>: what no call but a write of a resource can change
    (locale \<open>cluster_frame\<close>).
  \<^item> \<open>Controller\<close>: the state of a running reconciliation (cluster, cache, started
    goroutines, the resource behind the pointer), \<open>defer\<close>, and \<open>cacheNodeSelectors\<close>.
  \<^item> \<open>TfStage\<close>, \<open>TfStatus\<close>, \<open>TfResources\<close>, \<open>TfSetup\<close>, \<open>TfReaper\<close>, \<open>TfReconcile\<close>: the Terraform
    controller, in the order of its file.
  \<^item> \<open>ResourceStore\<close>: what the API server promises for the resources of one kind (locale
    \<open>resource_server\<close>), the worlds that come about around one resource, and what a walk over
    the code of a controller needs (locale \<open>resource_walk\<close>). \<open>TfWalk\<close> walks once through the
    code (locale \<open>tf_walk\<close>); \<open>TfRefine\<close> instantiates the walk with the stored resource: one
    reconciliation refines the stage machine. \<open>TfSafety\<close> instantiates it with the cache: the
    lock (\<open>Locking\<close>, for both controllers), and what the reapers select. \<open>TfPods\<close>: approval,
    the pod a stage is followed by, outputs, files, release, and that the reapers end.
  \<^item> \<open>Returns\<close>, \<open>TfHealthy\<close>, \<open>TfLive\<close>, \<open>TfLife\<close>: what happens when nothing fails. \<open>Returns\<close> has
    triples of total correctness for operations and for repeated calls; the locale
    \<open>healthy_cluster\<close> of \<open>TfHealthy\<close> is a cluster that stores what it is given and whose
    started pods succeed; \<open>TfLive\<close> follows a resource through its calls of \<open>reconcile\<close>, from
    one stage to the next; \<open>TfLife\<close> interprets the locale on a cluster in memory and states
    the life of a resource from its creation to \<open>completed\<close> and from its deletion to its
    removal, with the number of calls each needs.
  \<^item> \<open>TofuStage\<close>, \<open>TofuStatus\<close>, \<open>TofuResources\<close>, \<open>TofuSetup\<close>, \<open>TofuReaper\<close>, \<open>TofuReconcile\<close>:
    the Tofu controller. The file repeats the Terraform controller on another type; \<open>asTf\<close>,
    \<open>tfView\<close> and \<open>twin\<close> translate the type, the resources of a cluster and the owner of
    objects, and the equivalences carry the properties over. \<open>TofuWalk\<close>, \<open>TofuRefine\<close>,
    \<open>TofuSafety\<close>: its walk, its refinement, lock and reapers, and both controllers side by
    side on one cluster (\<open>shared_world\<close>).
  \<^item> \<open>ReconcileLock\<close>: the calls on the cache that make the lock, as steps of several
    goroutines that interleave.
  \<^item> \<open>Provider\<close>, \<open>ProviderInv\<close>: \<open>provider.go\<close> as a state machine on secret events; it refines
    a registry of clusters. \<open>Manager\<close>: \<open>manager.go\<close>. \<open>CacheServer\<close>: \<open>cache_server.go\<close> over
    the locale \<open>file_store\<close>. \<open>Startup\<close>: what \<open>main.go\<close> hands to the parts.

  \<^bold>\<open>Bounds and fuel.\<close> \<open>updateStatusWithRetry\<close> writes at most 10 times and reads back at most
  10 times after each write; \<open>getTfResource\<close> tries 3 or 10 times; these loops are recursions
  over the rounds that remain, with the source's numbers. A reaper restarts itself up to
  attempt 20 and gives up at 21: 22 rounds of fuel are enough, which \<open>reapers_end\<close> proves.
  All other loops are recursions on lists. A new resource is completed after two or three
  calls, three for every task and one more; a deleted one is gone after one call, three for
  every task of the destroy and two more.

  \<^bold>\<open>What the life of a resource assumes.\<close> No call of the cluster fails, nobody else writes the
  resource, every started pod succeeds, the resource has a service account of its own and
  needs neither git credentials nor an ssh tunnel (\<open>runnable\<close>). The safety properties need none of this.

  \<^bold>\<open>Not modelled.\<close> Logging and the pauses between retries; \<open>SetupWithManager\<close>, \<open>AddToScheme\<close>
  and the construction of managers, which only hand values to the controller library;
  generated code (deep copies, OpenAPI, clientset); the documentation tool; the shell scripts of
  the task images. Goroutines started by \<open>reconcile\<close> are recorded in its state and modelled
  as operations of their own. The propagation policy of deletions does not show in the
  model. \<open>newTaskOptions\<close> fills \<open>spec.images\<close> of its argument in place, which nothing reads
  again; the model returns the options only. Label selectors are their texts; what they
  select is stated by requirements with the documented meaning. The provider's parent
  context is never cancelled.
\<close>

end
